(* ===== verification/Prelude.thy ===== *)
theory Prelude
  imports Main "HOL-Library.Word" "HOL-Library.Sublist"
begin

text \<open>
  Shared vocabulary of the development: bytes and byte strings, Go error values, the
  big-endian 32-bit codec of \<^verbatim>\<open>encoding/binary\<close>, byte streams with \<^verbatim>\<open>io.ReadFull\<close> and
  byte sinks with \<^verbatim>\<open>Write\<close>, and the generic list and word lemmas the components use.
\<close>

unbundle bit_operations_syntax

section \<open>Bytes, strings and errors\<close>

type_synonym byte = "8 word"
type_synonym bytes = "byte list"
type_synonym gostring = string
type_synonym u32 = "32 word"

named_theorems codec_simps \<open>facts about encoders and decoders of byte strings\<close>
named_theorems stream_simps \<open>facts about reading from streams and writing to sinks\<close>

text \<open>
  A Go string is a sequence of bytes, as is an Isabelle \<^typ>\<open>string\<close>; the conversions
  \<^verbatim>\<open>[]byte(s)\<close> and \<^verbatim>\<open>string(b)\<close> change the type only.
\<close>

definition bytes_of :: "gostring \<Rightarrow> bytes" where
  "bytes_of s = map (\<lambda>c. word_of_nat (of_char c)) s"

definition string_of :: "bytes \<Rightarrow> gostring" where
  "string_of b = map (\<lambda>w. char_of (unat w)) b"

text \<open>
  Error values. The sentinels the code compares against are constructors of their own;
  \<open>Errorf\<close> is an error made from a text, \<open>Wrapf\<close> one made with the verb \<^verbatim>\<open>%w\<close> at its end,
  \<open>Joined\<close> is \<^verbatim>\<open>errors.Join\<close>, and \<open>OsErr\<close> an error of the operating system or of a
  library the program calls, known by its text.
\<close>

datatype goerr =
    EOF
  | ErrUnexpectedEOF
  | ErrClosedPipe
  | NetErrClosed
  | ErrShutdown
  | EADDRINUSE
  | OsErr gostring
  | Errorf gostring
  | Wrapf gostring goerr
  | Joined "goerr list"

type_synonym 'a res = "goerr + 'a"

text \<open>\<^verbatim>\<open>errors.Is\<close>: the error itself or one it wraps.\<close>

fun errors_Is :: "goerr \<Rightarrow> goerr \<Rightarrow> bool" where
  "errors_Is (Wrapf m e) t = (Wrapf m e = t \<or> errors_Is e t)"
| "errors_Is (Joined es) t = (Joined es = t \<or> (\<exists>e \<in> set es. errors_Is e t))"
| "errors_Is e t = (e = t)"

text \<open>
  What an operation on a TCP connection returns after it was closed on this side: a
  \<^verbatim>\<open>net.OpError\<close> around \<^verbatim>\<open>net.ErrClosed\<close> (the addresses in its text are left out).
\<close>

abbreviation OpErrClosed :: goerr where
  "OpErrClosed \<equiv> Wrapf ''tcp: '' NetErrClosed"

abbreviation is_ok :: "'e + 'a \<Rightarrow> bool" where
  "is_ok r \<equiv> isl r = False"

section \<open>Generic lemmas\<close>

lemma char_of_of_char_byte [simp]: "char_of (unat (word_of_nat (of_char c) :: byte)) = (c :: char)"
proof -
  have "(of_char c :: nat) < 256"
    using nat_of_char_less_256 [of c] by simp
  then have "unat (word_of_nat (of_char c) :: byte) = of_char c"
    by (simp add: unat_of_nat)
  then show ?thesis by simp
qed

lemma string_of_bytes_of [simp, codec_simps]: "string_of (bytes_of s) = s"
  by (simp add: string_of_def bytes_of_def comp_def)

lemma bytes_of_string_of [simp, codec_simps]: "bytes_of (string_of b) = b"
proof -
  have "word_of_nat (of_char (char_of (unat w) :: char)) = w" for w :: byte
  proof -
    have "unat w < 256"
      using unsigned_less [of w] by simp
    then have "(of_char (char_of (unat w) :: char) :: nat) = unat w"
      by simp
    then show ?thesis by simp
  qed
  then show ?thesis
    by (simp add: string_of_def bytes_of_def comp_def)
qed

lemma length_bytes_of [simp]: "length (bytes_of s) = length s"
  by (simp add: bytes_of_def)

lemma length_string_of [simp]: "length (string_of b) = length b"
  by (simp add: string_of_def)

lemma bytes_of_inject [simp]: "bytes_of s = bytes_of t \<longleftrightarrow> s = t"
  by (metis string_of_bytes_of)

lemma string_of_inject [simp]: "string_of a = string_of b \<longleftrightarrow> a = b"
  by (metis bytes_of_string_of)

lemma bytes_of_append [simp]: "bytes_of (s @ t) = bytes_of s @ bytes_of t"
  by (simp add: bytes_of_def)

lemma string_of_append [simp]: "string_of (a @ b) = string_of a @ string_of b"
  by (simp add: string_of_def)

lemma bytes_of_Nil [simp]: "bytes_of [] = []" and string_of_Nil [simp]: "string_of [] = []"
  by (simp_all add: bytes_of_def string_of_def)

lemma take_append_exact: "length xs = n \<Longrightarrow> take n (xs @ ys) = xs"
  and drop_append_exact: "length xs = n \<Longrightarrow> drop n (xs @ ys) = ys"
  by auto

section \<open>Big-endian 32-bit integers\<close>

text \<open>
  \<^verbatim>\<open>binary.BigEndian.PutUint32\<close> and \<^verbatim>\<open>binary.BigEndian.Uint32\<close>; on fewer than four bytes
  the Go functions panic, which no caller in the program reaches.
\<close>

definition PutUint32 :: "u32 \<Rightarrow> bytes" where
  "PutUint32 v = [ucast (drop_bit 24 v), ucast (drop_bit 16 v), ucast (drop_bit 8 v), ucast v]"

fun BE_Uint32 :: "bytes \<Rightarrow> u32" where
  "BE_Uint32 (a # b # c # d # _) =
     ucast d OR push_bit 8 (ucast c) OR push_bit 16 (ucast b) OR push_bit 24 (ucast a)"
| "BE_Uint32 _ = 0"

lemma length_PutUint32 [simp]: "length (PutUint32 v) = 4"
  by (simp add: PutUint32_def)

lemma BE_PutUint32_append [simp, codec_simps]: "BE_Uint32 (PutUint32 v @ r) = v"
proof -
  have "BE_Uint32 (PutUint32 v @ r) = BE_Uint32 (PutUint32 v)"
    by (simp add: PutUint32_def)
  also have "\<dots> = v"
  proof (rule bit_word_eqI)
    fix n assume "n < LENGTH(32)"
    then show "bit (BE_Uint32 (PutUint32 v)) n = bit v n"
      by (cases "n < 24"; cases "n < 16") (auto simp: PutUint32_def bit_simps not_le not_less)
  qed
  finally show ?thesis .
qed

lemma BE_PutUint32 [simp, codec_simps]: "BE_Uint32 (PutUint32 v) = v"
  using BE_PutUint32_append [of v "[]"] by simp

lemma Put_BE_Uint32_cells: "PutUint32 (BE_Uint32 [a, b, c, d]) = [a, b, c, d]"
proof -
  have "ucast (drop_bit 24 (BE_Uint32 [a, b, c, d])) = a"
    and "ucast (drop_bit 16 (BE_Uint32 [a, b, c, d])) = b"
    and "ucast (drop_bit 8 (BE_Uint32 [a, b, c, d])) = c"
    and "ucast (BE_Uint32 [a, b, c, d]) = d"
    by (rule bit_word_eqI; auto simp: bit_simps dest: bit_imp_le_length)+
  then show ?thesis by (simp add: PutUint32_def)
qed

lemma length_4_cells:
  assumes "length h = 4"
  obtains a b c d where "h = [a, b, c, d]"
  using assms by (auto simp: numeral_eq_Suc length_Suc_conv)

lemma Put_BE_Uint32 [codec_simps]: "length h = 4 \<Longrightarrow> PutUint32 (BE_Uint32 h) = h"
  by (erule length_4_cells) (simp add: Put_BE_Uint32_cells del: BE_Uint32.simps)

lemma BE_Uint32_take: "4 \<le> length h \<Longrightarrow> BE_Uint32 (take 4 h) = BE_Uint32 h"
proof -
  assume "4 \<le> length h"
  then obtain a b c d r where "h = a # b # c # d # r"
    by (metis Suc_le_length_iff numeral_eq_Suc pred_numeral_simps(2,3) semiring_norm(26,27))
  then show ?thesis by simp
qed

lemma PutUint32_inject [simp]: "PutUint32 v = PutUint32 w \<longleftrightarrow> v = w"
  by (metis BE_PutUint32)

section \<open>Streams and sinks\<close>

text \<open>
  The reading side of a connection: the bytes that arrive on it, and the error that ends
  it (\<open>EOF\<close> when the peer closes, another one for a timeout or a closed socket).
\<close>

record stream =
  avail :: bytes
  fin :: goerr

text \<open>\<^verbatim>\<open>io.ReadFull(r, buf)\<close> with \<open>n = len(buf)\<close>.\<close>

definition ReadFull :: "nat \<Rightarrow> stream \<Rightarrow> bytes res \<times> stream" where
  "ReadFull n s =
     (if n \<le> length (avail s) then (Inr (take n (avail s)), s\<lparr>avail := drop n (avail s)\<rparr>)
      else (Inl (if fin s = EOF \<and> avail s \<noteq> [] then ErrUnexpectedEOF else fin s),
            s\<lparr>avail := []\<rparr>))"

text \<open>
  The writing side: the bytes written so far, how many more the connection takes before it
  fails (\<open>None\<close>: it never fails by itself), and whether it has failed or been closed, after
  which every write returns \<open>werr\<close>.
\<close>

record sink =
  written :: bytes
  room :: "nat option"
  werr :: goerr
  dead :: bool

definition Write :: "bytes \<Rightarrow> sink \<Rightarrow> goerr option \<times> sink" where
  "Write p w =
     (if dead w then (Some (werr w), w)
      else case room w of
        None \<Rightarrow> (None, w\<lparr>written := written w @ p\<rparr>)
      | Some k \<Rightarrow>
          if length p \<le> k
          then (None, w\<lparr>written := written w @ p, room := Some (k - length p)\<rparr>)
          else (Some (werr w), w\<lparr>written := written w @ take k p, room := Some 0, dead := True\<rparr>))"

lemma ReadFull_append [stream_simps]:
  "length p = n \<Longrightarrow> ReadFull n \<lparr>avail = p @ r, fin = e\<rparr> = (Inr p, \<lparr>avail = r, fin = e\<rparr>)"
  by (simp add: ReadFull_def)

lemma ReadFull_InrD:
  assumes "ReadFull n s = (Inr p, s')"
  shows "avail s = p @ avail s'" and "length p = n" and "fin s' = fin s"
  using assms by (auto simp: ReadFull_def split: if_splits)

lemma ReadFull_InlD:
  assumes "ReadFull n s = (Inl e, s')"
  shows "length (avail s) < n" and "avail s' = []" and "fin s' = fin s"
  using assms by (auto simp: ReadFull_def split: if_splits)

lemma Write_None_room [stream_simps]:
  "room w = None \<Longrightarrow> \<not> dead w \<Longrightarrow> Write p w = (None, w\<lparr>written := written w @ p\<rparr>)"
  by (simp add: Write_def)

lemma Write_dead [stream_simps]: "dead w \<Longrightarrow> Write p w = (Some (werr w), w)"
  by (simp add: Write_def)

lemma Write_okD:
  assumes "Write p w = (None, w')"
  shows "written w' = written w @ p"
  using assms by (auto simp: Write_def split: option.splits if_splits)

lemma Write_prefix:
  assumes "Write p w = (r, w')"
  shows "\<exists>q. prefix q p \<and> written w' = written w @ q \<and> (r = None \<longrightarrow> q = p)"
  using assms by (auto simp: Write_def take_is_prefix split: option.splits if_splits)

lemma Write_ok_room: "Write p w = (None, w') \<Longrightarrow> room w = None \<Longrightarrow> room w' = None"
  and Write_ok_dead: "Write p w = (None, w') \<Longrightarrow> \<not> dead w \<and> \<not> dead w'"
  by (auto simp: Write_def split: option.splits if_splits)

section \<open>Invariants of transition systems\<close>

text \<open>
  What the components with a step relation share: a property every step keeps holds in all the
  states that are reachable from one in which it holds.
\<close>

locale step_invariant =
  fixes step :: "'s \<Rightarrow> 's \<Rightarrow> bool" and inv :: "'s \<Rightarrow> bool"
  assumes kept: "step x y \<Longrightarrow> inv x \<Longrightarrow> inv y"
begin

lemma reachable: "step\<^sup>*\<^sup>* x y \<Longrightarrow> inv x \<Longrightarrow> inv y"
  by (induction rule: rtranclp_induct) (auto intro: kept)

end

end
