(* ===== verification/GoStrings.thy ===== *)
theory GoStrings
  imports Prelude
begin

text \<open>
  What the program uses of the Go packages \<^verbatim>\<open>strings\<close>, \<^verbatim>\<open>bytes\<close>, \<^verbatim>\<open>strconv\<close>, \<^verbatim>\<open>fmt\<close> and
  \<^verbatim>\<open>encoding/hex\<close>, as executable functions on strings, with the lemmas the components
  rely on: decimal and hexadecimal round trips, replacement, cutting and trimming.
\<close>

section \<open>Searching, cutting and replacing\<close>

definition HasPrefix :: "gostring \<Rightarrow> gostring \<Rightarrow> bool" where
  "HasPrefix s p = prefix p s"

definition HasSuffix :: "gostring \<Rightarrow> gostring \<Rightarrow> bool" where
  "HasSuffix s p = prefix (rev p) (rev s)"

fun Contains :: "gostring \<Rightarrow> gostring \<Rightarrow> bool" where
  "Contains [] p = (p = [])"
| "Contains (c # cs) p = (prefix p (c # cs) \<or> Contains cs p)"

definition TrimPrefix :: "gostring \<Rightarrow> gostring \<Rightarrow> gostring" where
  "TrimPrefix s p = (if HasPrefix s p then drop (length p) s else s)"

definition TrimSuffix :: "gostring \<Rightarrow> gostring \<Rightarrow> gostring" where
  "TrimSuffix s p = (if HasSuffix s p then take (length s - length p) s else s)"

text \<open>\<^verbatim>\<open>strings.Cut\<close> around the first occurrence of a character: before, after, found.\<close>

definition Cut :: "char \<Rightarrow> gostring \<Rightarrow> gostring \<times> gostring \<times> bool" where
  "Cut c s = (takeWhile (\<lambda>x. x \<noteq> c) s, drop 1 (dropWhile (\<lambda>x. x \<noteq> c) s), c \<in> set s)"

text \<open>\<^verbatim>\<open>strings.LastIndex\<close> of a character, as the two parts around its last occurrence.\<close>

fun CutLast :: "char \<Rightarrow> gostring \<Rightarrow> (gostring \<times> gostring) option" where
  "CutLast c [] = None"
| "CutLast c (x # xs) =
     (case CutLast c xs of
        Some (a, b) \<Rightarrow> Some (x # a, b)
      | None \<Rightarrow> if x = c then Some ([], xs) else None)"

text \<open>
  \<^verbatim>\<open>strings.ReplaceAll\<close> for a non-empty search string, which is how every caller uses it.
\<close>

fun ReplaceAll :: "gostring \<Rightarrow> gostring \<Rightarrow> gostring \<Rightarrow> gostring" where
  "ReplaceAll [] old new = []"
| "ReplaceAll (c # cs) old new =
     (if old \<noteq> [] \<and> prefix old (c # cs)
      then new @ ReplaceAll (drop (length old - 1) cs) old new
      else c # ReplaceAll cs old new)"

text \<open>\<^verbatim>\<open>bytes.Split\<close> at a one-character separator.\<close>

fun SplitOn :: "char \<Rightarrow> gostring \<Rightarrow> gostring list" where
  "SplitOn c [] = [[]]"
| "SplitOn c (x # xs) =
     (if x = c then [] # SplitOn c xs
      else case SplitOn c xs of [] \<Rightarrow> [[x]] | p # ps \<Rightarrow> (x # p) # ps)"

text \<open>\<^verbatim>\<open>strings.Join\<close>.\<close>

fun Join :: "gostring list \<Rightarrow> gostring \<Rightarrow> gostring" where
  "Join [] sep = []"
| "Join [x] sep = x"
| "Join (x # y # r) sep = x @ sep @ Join (y # r) sep"

lemma HasPrefix_append [simp]: "HasPrefix (p @ s) p"
  by (simp add: HasPrefix_def)

lemma Contains_iff: "Contains s p \<longleftrightarrow> sublist p s"
  by (induction s p rule: Contains.induct) (auto simp: sublist_Cons_right)

lemma Contains_char: "Contains s [c] \<longleftrightarrow> c \<in> set s"
  by (induction s) auto

lemma Cut_append: "c \<notin> set a \<Longrightarrow> Cut c (a @ c # b) = (a, b, True)"
  by (induction a) (auto simp: Cut_def)

lemma Cut_notin: "c \<notin> set a \<Longrightarrow> Cut c a = (a, [], False)"
  by (induction a) (auto simp: Cut_def)

lemma CutLast_None: "CutLast c s = None \<longleftrightarrow> c \<notin> set s"
  by (induction s) (auto split: option.splits)

lemma CutLast_Some: "CutLast c s = Some (a, b) \<Longrightarrow> s = a @ c # b \<and> c \<notin> set b"
  by (induction s arbitrary: a) (auto simp: CutLast_None split: option.splits if_splits)

lemma CutLast_append: "c \<notin> set b \<Longrightarrow> CutLast c (a @ c # b) = Some (a, b)"
proof (induction a)
  case Nil
  then show ?case by (simp add: CutLast_None [THEN iffD2])
next
  case (Cons x a)
  then show ?case by simp
qed

lemma concat_SplitOn_chars: "concat (SplitOn c s) = filter (\<lambda>x. x \<noteq> c) s"
  by (induction c s rule: SplitOn.induct) (auto split: list.splits)

lemma SplitOn_no_sep: "l \<in> set (SplitOn c s) \<Longrightarrow> c \<notin> set l"
  by (induction c s arbitrary: l rule: SplitOn.induct) (auto split: if_splits list.splits)

lemma SplitOn_not_Nil [simp]: "SplitOn c s \<noteq> []"
  by (induction c s rule: SplitOn.induct) (auto split: list.splits)

lemma SplitOn_line: "c \<notin> set l \<Longrightarrow> SplitOn c l = [l]"
  by (induction l) (auto split: list.splits)

lemma SplitOn_append: "c \<notin> set l \<Longrightarrow> SplitOn c (l @ c # s) = l # SplitOn c s"
  by (induction l) (auto split: list.splits)

lemma SplitOn_append_sep: "SplitOn c (a @ c # r) = SplitOn c a @ SplitOn c r"
  by (induction a) (auto split: list.splits)

lemma SplitOn_Join:
  assumes "cs \<noteq> []" and "\<forall>e \<in> set cs. c \<notin> set e"
  shows "SplitOn c (Join cs [c]) = cs"
  using assms
proof (induction cs)
  case (Cons e cs)
  then show ?case by (cases cs) (simp_all add: SplitOn_line SplitOn_append)
qed simp

section \<open>Letter case\<close>

text \<open>
  \<^verbatim>\<open>strings.ToLower\<close> and \<^verbatim>\<open>strings.EqualFold\<close> on ASCII letters. The two Unicode letters
  that Go maps to ASCII ones are the Kelvin sign (to \<^verbatim>\<open>k\<close>) and the dotted capital I (to
  \<^verbatim>\<open>i\<close>); the words compared after lowering here (\<^verbatim>\<open>localhost\<close>, \<^verbatim>\<open>http\<close>, \<^verbatim>\<open>https\<close>, numeric
  addresses, scheme names of ASCII letters) contain neither as a possible image.
\<close>

definition ascii_lower :: "char \<Rightarrow> char" where
  "ascii_lower c = (let n = (of_char c :: nat) in if 65 \<le> n \<and> n \<le> 90 then char_of (n + 32) else c)"

definition ToLower :: "gostring \<Rightarrow> gostring" where
  "ToLower s = map ascii_lower s"

definition EqualFold :: "gostring \<Rightarrow> gostring \<Rightarrow> bool" where
  "EqualFold s t = (ToLower s = ToLower t)"

lemma ascii_lower_idem [simp]: "ascii_lower (ascii_lower c) = ascii_lower c"
proof (cases "65 \<le> (of_char c :: nat) \<and> (of_char c :: nat) \<le> 90")
  case True
  then have "(of_char (char_of ((of_char c :: nat) + 32) :: char) :: nat) = of_char c + 32"
    by simp
  with True show ?thesis by (simp add: ascii_lower_def Let_def)
next
  case False
  then have "ascii_lower c = c" by (auto simp: ascii_lower_def Let_def)
  then show ?thesis by simp
qed

lemma ToLower_idem [simp]: "ToLower (ToLower s) = ToLower s"
  by (simp add: ToLower_def comp_def)

lemma length_ToLower [simp]: "length (ToLower s) = length s"
  by (simp add: ToLower_def)

lemma EqualFold_refl [simp]: "EqualFold s s"
  by (simp add: EqualFold_def)

section \<open>Decimal numbers\<close>

definition digit_char :: "nat \<Rightarrow> char" where
  "digit_char d = char_of (48 + d)"

definition is_digit :: "char \<Rightarrow> bool" where
  "is_digit c = (48 \<le> (of_char c :: nat) \<and> (of_char c :: nat) \<le> 57)"

definition digit_val :: "char \<Rightarrow> nat" where
  "digit_val c = of_char c - 48"

text \<open>\<^verbatim>\<open>strconv.Itoa\<close>, the verb \<^verbatim>\<open>%d\<close>.\<close>

fun nat_itoa :: "nat \<Rightarrow> gostring" where
  "nat_itoa n = (if n < 10 then [digit_char n] else nat_itoa (n div 10) @ [digit_char (n mod 10)])"

declare nat_itoa.simps [simp del]

definition Itoa :: "int \<Rightarrow> gostring" where
  "Itoa i = (if i < 0 then CHR ''-'' # nat_itoa (nat (- i)) else nat_itoa (nat i))"

definition digits_val :: "gostring \<Rightarrow> nat" where
  "digits_val s = foldl (\<lambda>v c. 10 * v + digit_val c) 0 s"

text \<open>
  \<^verbatim>\<open>strconv.Atoi\<close> on a 64-bit machine: an optional sign, then decimal digits only, within
  the range of a signed 64-bit integer.
\<close>

definition parse_magnitude :: "bool \<Rightarrow> gostring \<Rightarrow> int res" where
  "parse_magnitude neg ds =
     (if ds = [] \<or> \<not> list_all is_digit ds then Inl (Errorf ''invalid syntax'')
      else if digits_val ds > (if neg then 2 ^ 63 else 2 ^ 63 - 1)
      then Inl (Errorf ''value out of range'')
      else Inr (if neg then - int (digits_val ds) else int (digits_val ds)))"

definition split_sign :: "gostring \<Rightarrow> bool \<times> gostring" where
  "split_sign s =
     (case s of c # cs \<Rightarrow> if c = CHR ''-'' then (True, cs)
                         else if c = CHR ''+'' then (False, cs) else (False, s)
      | [] \<Rightarrow> (False, []))"

definition Atoi :: "gostring \<Rightarrow> int res" where
  "Atoi s = (case split_sign s of (neg, ds) \<Rightarrow> parse_magnitude neg ds)"

text \<open>
  \<^verbatim>\<open>fmt.Sscanf(s, "%d", &n)\<close> on a string with no leading space: an optional sign and the
  longest run of digits; what follows them is left unread.
\<close>

definition Sscanf_d :: "gostring \<Rightarrow> int res" where
  "Sscanf_d s =
     (case split_sign s of (neg, ds) \<Rightarrow>
        let tok = takeWhile is_digit ds
        in if tok = [] then Inl (Errorf ''expected integer'') else parse_magnitude neg tok)"

lemma is_digit_digit_char [simp]: "d < 10 \<Longrightarrow> is_digit (digit_char d)"
  by (simp add: is_digit_def digit_char_def)

lemma digit_val_digit_char [simp]: "d < 10 \<Longrightarrow> digit_val (digit_char d) = d"
  by (simp add: digit_val_def digit_char_def)

lemma nat_itoa_not_Nil [simp]: "nat_itoa n \<noteq> []"
  by (subst nat_itoa.simps) simp

lemma digits_val_snoc: "digits_val (s @ [c]) = 10 * digits_val s + digit_val c"
  by (simp add: digits_val_def)

lemma nat_itoa_digits: "list_all is_digit (nat_itoa n)"
proof (induction n rule: nat_itoa.induct)
  case (1 n)
  then show ?case by (subst nat_itoa.simps) simp
qed

lemma digits_val_nat_itoa [simp]: "digits_val (nat_itoa n) = n"
proof (induction n rule: nat_itoa.induct)
  case (1 n)
  show ?case
  proof (cases "n < 10")
    case True
    then show ?thesis by (subst nat_itoa.simps) (simp add: digits_val_def)
  next
    case False
    with 1 show ?thesis by (subst nat_itoa.simps) (simp add: digits_val_snoc)
  qed
qed

lemma nat_itoa_inject [simp]: "nat_itoa m = nat_itoa n \<longleftrightarrow> m = n"
  by (metis digits_val_nat_itoa)

lemma digit_chars_not_sign: "list_all is_digit s \<Longrightarrow> s \<noteq> [] \<Longrightarrow> split_sign s = (False, s)"
  by (cases s) (auto simp: split_sign_def is_digit_def)

lemma Atoi_digits:
  assumes "list_all is_digit s" and "s \<noteq> []"
  shows "Atoi s = (if digits_val s > 2 ^ 63 - 1 then Inl (Errorf ''value out of range'')
                   else Inr (int (digits_val s)))"
  using assms by (simp add: Atoi_def digit_chars_not_sign parse_magnitude_def)

lemma Sscanf_d_digits:
  assumes "list_all is_digit s"
  shows "Sscanf_d s = (if s = [] then Inl (Errorf ''expected integer'') else Atoi s)"
proof (cases "s = []")
  case True
  then show ?thesis by (simp add: Sscanf_d_def split_sign_def)
next
  case False
  have "takeWhile is_digit s = s"
    using assms by (induction s) auto
  with False assms show ?thesis
    by (simp add: Sscanf_d_def Atoi_def digit_chars_not_sign Let_def del: takeWhile_eq_all_conv)
qed

lemma Atoi_Itoa: "0 \<le> i \<Longrightarrow> i < 2 ^ 63 \<Longrightarrow> Atoi (Itoa i) = Inr i"
  by (simp add: Itoa_def Atoi_digits nat_itoa_digits nat_less_iff)

lemma Itoa_nonneg_digits: "0 \<le> i \<Longrightarrow> list_all is_digit (Itoa i) \<and> Itoa i \<noteq> []"
  by (simp add: Itoa_def nat_itoa_digits)

section \<open>Hexadecimal\<close>

definition hex_digit :: "nat \<Rightarrow> char" where
  "hex_digit d = (if d < 10 then char_of (48 + d) else char_of (87 + d))"

text \<open>\<^verbatim>\<open>fromHexChar\<close>: both letter cases are read.\<close>

definition from_hex_char :: "char \<Rightarrow> nat option" where
  "from_hex_char c =
     (let n = (of_char c :: nat)
      in if 48 \<le> n \<and> n \<le> 57 then Some (n - 48)
         else if 97 \<le> n \<and> n \<le> 102 then Some (n - 87)
         else if 65 \<le> n \<and> n \<le> 70 then Some (n - 55)
         else None)"

fun hex_EncodeToString :: "bytes \<Rightarrow> gostring" where
  "hex_EncodeToString [] = []"
| "hex_EncodeToString (b # bs) =
     hex_digit (unat b div 16) # hex_digit (unat b mod 16) # hex_EncodeToString bs"

text \<open>
  \<^verbatim>\<open>hex.Decode\<close>: the bytes decoded before the first error, and the error. A lone last
  character is reported as a bad byte before it is reported as an odd length.
\<close>

definition invalid_hex :: goerr where
  "invalid_hex = Errorf ''encoding/hex: invalid byte''"

definition odd_hex :: goerr where
  "odd_hex = Errorf ''encoding/hex: odd length hex string''"

fun hex_Decode :: "gostring \<Rightarrow> bytes \<times> goerr option" where
  "hex_Decode [] = ([], None)"
| "hex_Decode [c] = ([], Some (if from_hex_char c = None then invalid_hex else odd_hex))"
| "hex_Decode (c # d # s) =
     (case (from_hex_char c, from_hex_char d) of
        (Some h, Some l) \<Rightarrow>
          (case hex_Decode s of (bs, e) \<Rightarrow> (word_of_nat (16 * h + l) # bs, e))
      | _ \<Rightarrow> ([], Some invalid_hex))"

definition hex_DecodeString :: "gostring \<Rightarrow> bytes res" where
  "hex_DecodeString s = (case hex_Decode s of (bs, None) \<Rightarrow> Inr bs | (_, Some e) \<Rightarrow> Inl e)"

lemma from_hex_hex_digit [simp]: "d < 16 \<Longrightarrow> from_hex_char (hex_digit d) = Some d"
  by (auto simp: from_hex_char_def hex_digit_def Let_def)

lemma from_hex_char_less: "from_hex_char c = Some h \<Longrightarrow> h < 16"
  by (auto simp: from_hex_char_def Let_def split: if_splits)

lemma unat_byte_less [simp]: "unat (b :: byte) < 256"
  using unsigned_less [of b] by simp

lemma hex_Decode_Encode [simp, codec_simps]: "hex_Decode (hex_EncodeToString bs) = (bs, None)"
proof (induction bs)
  case Nil
  then show ?case by simp
next
  case (Cons b bs)
  have "unat b div 16 < 16"
    using unat_byte_less [of b] by (simp add: less_mult_imp_div_less)
  with Cons show ?case by simp
qed

lemma length_hex_Encode [simp]: "length (hex_EncodeToString bs) = 2 * length bs"
  by (induction bs) auto

lemma hex_Decode_length:
  "hex_Decode s = (bs, None) \<Longrightarrow> length s = 2 * length bs"
  by (induction s arbitrary: bs rule: hex_Decode.induct)
     (auto split: option.splits prod.splits)

lemma hex_digit_from_hex: "from_hex_char c = Some h \<Longrightarrow> hex_digit h = ascii_lower c"
  by (auto simp: from_hex_char_def hex_digit_def ascii_lower_def Let_def split: if_splits)

lemma hex_Decode_fold: "hex_Decode s = (bs, None) \<Longrightarrow> hex_EncodeToString bs = ToLower s"
proof (induction s arbitrary: bs rule: hex_Decode.induct)
  case (3 c d s)
  from "3.prems" obtain h l r where hl: "from_hex_char c = Some h" "from_hex_char d = Some l"
    and r: "hex_Decode s = (r, None)" and bs: "bs = word_of_nat (16 * h + l) # r"
    by (auto split: option.splits prod.splits)
  define w :: byte where "w = word_of_nat (16 * h + l)"
  from hl have "h < 16" "l < 16" by (auto dest: from_hex_char_less)
  then have "unat w = 16 * h + l"
    by (simp add: w_def unat_of_nat del: of_nat_add of_nat_mult)
  with hl r bs \<open>l < 16\<close> show ?case
    using "3.IH" by (simp add: ToLower_def hex_digit_from_hex flip: w_def del: of_nat_add of_nat_mult)
qed (simp_all add: ToLower_def)

lemma hex_DecodeString_Encode [simp, codec_simps]:
  "hex_DecodeString (hex_EncodeToString bs) = Inr bs"
  by (simp add: hex_DecodeString_def)

section \<open>Quoting\<close>

text \<open>
  \<^verbatim>\<open>strconv.Quote\<close>, the verb \<^verbatim>\<open>%q\<close>, on ASCII; a byte above 127 is kept as it is, which is what
  Go does when it belongs to a printable character.
\<close>

definition quote_char :: "char \<Rightarrow> gostring" where
  "quote_char c =
     (let n = (of_char c :: nat); esc = (\<lambda>d. [CHR 0x5C, d])
      in if n = 34 \<or> n = 0x5C then esc c
         else if n = 7 then esc CHR ''a'' else if n = 8 then esc CHR ''b''
         else if n = 9 then esc CHR ''t'' else if n = 10 then esc CHR ''n''
         else if n = 11 then esc CHR ''v'' else if n = 12 then esc CHR ''f''
         else if n = 13 then esc CHR ''r''
         else if n < 32 \<or> n = 127 then [CHR 0x5C, CHR ''x'', hex_digit (n div 16), hex_digit (n mod 16)]
         else [c])"

definition Quote :: "gostring \<Rightarrow> gostring" where
  "Quote s = [char_of (34 :: nat)] @ concat (map quote_char s) @ [char_of (34 :: nat)]"

section \<open>Trimming white space\<close>

text \<open>
  \<^verbatim>\<open>bytes.TrimSpace\<close>: the white space of \<^verbatim>\<open>unicode.IsSpace\<close>, each code point as its UTF-8
  bytes.
\<close>

definition ascii_space :: "char \<Rightarrow> bool" where
  "ascii_space c = ((of_char c :: nat) \<in> {9, 10, 11, 12, 13, 32})"

definition wide_spaces :: "gostring list" where
  "wide_spaces = map (map char_of) ([[0xC2, 0x85], [0xC2, 0xA0], [0xE1, 0x9A, 0x80]]
     @ map (\<lambda>k. [0xE2, 0x80, 0x80 + k]) [0..<11]
     @ [[0xE2, 0x80, 0xA8], [0xE2, 0x80, 0xA9], [0xE2, 0x80, 0xAF], [0xE2, 0x81, 0x9F],
        [0xE3, 0x80, 0x80 :: nat]])"

definition leading_space :: "gostring list \<Rightarrow> gostring \<Rightarrow> nat" where
  "leading_space ws s =
     (case s of [] \<Rightarrow> 0 | c # _ \<Rightarrow>
        if ascii_space c then 1
        else (case find (\<lambda>w. w \<noteq> [] \<and> prefix w s) ws of Some w \<Rightarrow> length w | None \<Rightarrow> 0))"

function strip_spaces :: "gostring list \<Rightarrow> gostring \<Rightarrow> gostring" where
  "strip_spaces ws s =
     (if leading_space ws s = 0 \<or> s = [] then s else strip_spaces ws (drop (leading_space ws s) s))"
  by pat_completeness auto
termination
  by (relation "measure (\<lambda>(ws, s). length s)") auto

declare strip_spaces.simps [simp del]

definition TrimSpace :: "gostring \<Rightarrow> gostring" where
  "TrimSpace s =
     rev (strip_spaces (map rev wide_spaces) (rev (strip_spaces wide_spaces s)))"

lemma strip_spaces_id: "leading_space ws s = 0 \<Longrightarrow> strip_spaces ws s = s"
  by (subst strip_spaces.simps) simp

text \<open>A line whose first and last characters are plain ASCII and no white space is unchanged.\<close>

lemma leading_space_ascii:
  assumes "\<not> ascii_space c" and "(of_char c :: nat) < 128"
    and "\<forall>w \<in> set ws. w \<noteq> [] \<longrightarrow> (of_char (hd w) :: nat) \<ge> 128"
  shows "leading_space ws (c # s) = 0"
proof -
  have "find (\<lambda>w. w \<noteq> [] \<and> prefix w (c # s)) ws = None"
    using assms(2,3) by (fastforce simp: find_None_iff prefix_Cons)
  with assms(1) show ?thesis by (simp add: leading_space_def)
qed

lemma wide_spaces_wide:
  "\<forall>w \<in> set wide_spaces. w \<noteq> [] \<longrightarrow> (of_char (hd w) :: nat) \<ge> 128"
  "\<forall>w \<in> set (map rev wide_spaces). w \<noteq> [] \<longrightarrow> (of_char (hd w) :: nat) \<ge> 128"
  by (auto simp: wide_spaces_def)

lemma TrimSpace_ascii:
  assumes "s \<noteq> []" and "\<forall>c \<in> set s. \<not> ascii_space c \<and> (of_char c :: nat) < 128"
  shows "TrimSpace s = s"
proof -
  have strip: "strip_spaces ws t = t"
    if "t \<noteq> []" "set t = set s" "\<forall>w \<in> set ws. w \<noteq> [] \<longrightarrow> (of_char (hd w) :: nat) \<ge> 128" for ws t
  proof (rule strip_spaces_id)
    obtain c r where t: "t = c # r" using \<open>t \<noteq> []\<close> by (cases t) auto
    with that(2) assms(2) show "leading_space ws t = 0"
      unfolding t using that(3) by (intro leading_space_ascii) auto
  qed
  from assms(1) show ?thesis
    unfolding TrimSpace_def using strip [OF _ _ wide_spaces_wide(1), of s]
      strip [OF _ _ wide_spaces_wide(2), of "rev s"] by simp
qed

text \<open>A line that starts with such a character keeps it: only its end is cut off.\<close>

lemma strip_spaces_suffix: "suffix (strip_spaces ws s) s"
proof (induction ws s rule: strip_spaces.induct)
  case (1 ws s)
  then show ?case
    by (subst strip_spaces.simps) (auto intro: suffix_order.trans suffix_drop)
qed

lemma TrimSpace_prefix:
  assumes "\<not> ascii_space c" and "(of_char c :: nat) < 128"
  shows "prefix (TrimSpace (c # s)) (c # s)"
proof -
  have "strip_spaces wide_spaces (c # s) = c # s"
    using assms wide_spaces_wide(1) by (intro strip_spaces_id leading_space_ascii)
  then show ?thesis
    unfolding TrimSpace_def using strip_spaces_suffix [of "map rev wide_spaces" "rev (c # s)"]
    by (simp add: suffix_to_prefix)
qed

lemma hex_digit_code: "d < 16 \<Longrightarrow> 48 \<le> (of_char (hex_digit d) :: nat) \<and> (of_char (hex_digit d) :: nat) < 103"
  by (simp add: hex_digit_def)

lemma hex_EncodeToString_chars:
  "c \<in> set (hex_EncodeToString bs) \<Longrightarrow> 48 \<le> (of_char c :: nat) \<and> (of_char c :: nat) < 103"
proof (induction bs)
  case (Cons b bs)
  have "unat b div 16 < 16"
    using unat_byte_less [of b] by (simp add: less_mult_imp_div_less)
  with Cons show ?case
    using hex_digit_code [of "unat b div 16"] hex_digit_code [of "unat b mod 16"] by auto
qed simp

lemma TrimSpace_hex: "TrimSpace (hex_EncodeToString bs) = hex_EncodeToString bs"
proof (cases "hex_EncodeToString bs = []")
  case True
  then show ?thesis by (simp add: TrimSpace_def strip_spaces.simps)
next
  case False
  then show ?thesis
    by (rule TrimSpace_ascii) (auto dest!: hex_EncodeToString_chars simp: ascii_space_def)
qed

lemma ReplaceAll_char: "ReplaceAll s [x] [y] = map (\<lambda>c. if c = x then y else c) s"
  by (induction s) auto

section \<open>The text of an error\<close>

fun err_Error :: "goerr \<Rightarrow> gostring" where
  "err_Error EOF = ''EOF''"
| "err_Error ErrUnexpectedEOF = ''unexpected EOF''"
| "err_Error ErrClosedPipe = ''io: read/write on closed pipe''"
| "err_Error NetErrClosed = ''use of closed network connection''"
| "err_Error ErrShutdown = ''connection is shut down''"
| "err_Error EADDRINUSE = ''address already in use''"
| "err_Error (OsErr m) = m"
| "err_Error (Errorf m) = m"
| "err_Error (Wrapf m e) = m @ err_Error e"
| "err_Error (Joined es) = Join (map err_Error es) [CHR 0x0A]"

end
