(* ===== verification/GoNet.thy ===== *)
theory GoNet
  imports GoStrings
begin

text \<open>
  What the program uses of the Go packages \<^verbatim>\<open>net\<close> and \<^verbatim>\<open>net/netip\<close>: parsing and printing
  of IP addresses, the loopback test, and splitting and joining of host and port.
\<close>

section \<open>IP addresses\<close>

text \<open>
  A parsed address (\<^verbatim>\<open>netip.Addr\<close>): four bytes, or sixteen bytes with a zone, which is
  empty when none is given.
\<close>

datatype ipaddr = V4 bytes | V6 bytes gostring

text \<open>One octet of a dotted quad: digits, no leading zero, at most 255.\<close>

definition ipv4_field :: "gostring \<Rightarrow> byte option" where
  "ipv4_field f =
     (if f = [] \<or> \<not> list_all is_digit f \<or> (hd f = CHR ''0'' \<and> length f > 1) \<or> digits_val f > 255
      then None else Some (word_of_nat (digits_val f)))"

definition parseIPv4Fields :: "gostring \<Rightarrow> bytes option" where
  "parseIPv4Fields s =
     (case SplitOn (CHR ''.'') s of
        [a, b, c, d] \<Rightarrow>
          (case (ipv4_field a, ipv4_field b, ipv4_field c, ipv4_field d) of
             (Some w, Some x, Some y, Some z) \<Rightarrow> Some [w, x, y, z]
           | _ \<Rightarrow> None)
      | _ \<Rightarrow> None)"

definition hex_run :: "gostring \<Rightarrow> gostring" where
  "hex_run s = takeWhile (\<lambda>c. from_hex_char c \<noteq> None) s"

definition hex_val :: "gostring \<Rightarrow> nat" where
  "hex_val s = foldl (\<lambda>v c. 16 * v + (case from_hex_char c of Some h \<Rightarrow> h | None \<Rightarrow> 0)) 0 s"

text \<open>
  The loop of \<^verbatim>\<open>parseIPv6\<close>: \<open>n\<close> sixteen-bit groups are still free, \<open>ip\<close> holds the bytes
  read so far, \<open>ell\<close> the position of a \<^verbatim>\<open>::\<close>. The result is the bytes, that position and
  the text left over.
\<close>

fun ipv6_groups :: "nat \<Rightarrow> bytes \<Rightarrow> nat option \<Rightarrow> gostring \<Rightarrow> (bytes \<times> nat option \<times> gostring) option" where
  "ipv6_groups 0 ip ell s = Some (ip, ell, s)"
| "ipv6_groups (Suc n) ip ell s =
     (let g = hex_run s; rest = drop (length g) s; acc = hex_val g
      in if g = [] \<or> length g > 4 then None
         else if HasPrefix rest ''.'' then
           (if (ell = None \<and> length ip \<noteq> 12) \<or> length ip + 4 > 16 then None
            else map_option (\<lambda>q. (ip @ q, ell, [])) (parseIPv4Fields s))
         else
           (let ip' = ip @ [word_of_nat (acc div 256), word_of_nat acc]
            in case rest of
                 [] \<Rightarrow> Some (ip', ell, [])
               | c # s' \<Rightarrow>
                   (if c \<noteq> CHR '':'' \<or> s' = [] then None
                    else if hd s' = CHR '':'' then
                      (if ell \<noteq> None then None
                       else if tl s' = [] then Some (ip', Some (length ip'), [])
                       else ipv6_groups n ip' (Some (length ip')) (tl s'))
                    else ipv6_groups n ip' ell s')))"

definition ipv6_expand :: "bytes \<Rightarrow> nat option \<Rightarrow> bytes option" where
  "ipv6_expand ip ell =
     (if length ip < 16
      then map_option (\<lambda>k. take k ip @ replicate (16 - length ip) 0 @ drop k ip) ell
      else if ell \<noteq> None then None else Some ip)"

definition parseIPv6 :: "gostring \<Rightarrow> ipaddr option" where
  "parseIPv6 text =
     (let (s, zone, has_zone) = Cut (CHR ''%'') text
      in if has_zone \<and> zone = [] then None
         else
           (let leading = HasPrefix s ''::''; s1 = (if leading then drop 2 s else s)
            in if leading \<and> s1 = [] then Some (V6 (replicate 16 0) zone)
               else case ipv6_groups 8 [] (if leading then Some 0 else None) s1 of
                      Some (ip, ell, []) \<Rightarrow> map_option (\<lambda>b. V6 b zone) (ipv6_expand ip ell)
                    | _ \<Rightarrow> None))"

definition ParseAddr :: "gostring \<Rightarrow> ipaddr option" where
  "ParseAddr s =
     (case find (\<lambda>c. c \<in> {CHR ''.'', CHR '':'', CHR ''%''}) s of
        Some c \<Rightarrow>
          if c = CHR ''.'' then map_option V4 (parseIPv4Fields s)
          else if c = CHR '':'' then parseIPv6 s
          else None
      | None \<Rightarrow> None)"

text \<open>\<^verbatim>\<open>net.ParseIP\<close>: sixteen bytes, an IPv4 address in its mapped form; \<open>None\<close> is \<^verbatim>\<open>nil\<close>.\<close>

definition v4_mapped :: "bytes \<Rightarrow> bytes" where
  "v4_mapped b = replicate 10 0 @ [0xFF, 0xFF] @ b"

definition ParseIP :: "gostring \<Rightarrow> bytes option" where
  "ParseIP s =
     (case ParseAddr s of
        Some (V4 b) \<Rightarrow> Some (v4_mapped b)
      | Some (V6 b zone) \<Rightarrow> if zone = [] then Some b else None
      | None \<Rightarrow> None)"

definition IP_To4 :: "bytes \<Rightarrow> bytes option" where
  "IP_To4 ip =
     (if length ip = 4 then Some ip
      else if length ip = 16 \<and> take 10 ip = replicate 10 0 \<and> take 2 (drop 10 ip) = [0xFF, 0xFF]
      then Some (drop 12 ip) else None)"

definition IPv6loopback :: bytes where
  "IPv6loopback = replicate 15 0 @ [1]"

definition IP_IsLoopback :: "bytes \<Rightarrow> bool" where
  "IP_IsLoopback ip =
     (case IP_To4 ip of Some b \<Rightarrow> b ! 0 = 127 | None \<Rightarrow> ip = IPv6loopback)"

section \<open>Printing addresses\<close>

definition dotted :: "bytes \<Rightarrow> gostring" where
  "dotted b = Join (map (\<lambda>w. nat_itoa (unat w)) b) ''.''"

definition hex_group :: "nat \<Rightarrow> gostring" where
  "hex_group g =
     (let ds = [hex_digit (g div 4096 mod 16), hex_digit (g div 256 mod 16),
                hex_digit (g div 16 mod 16), hex_digit (g mod 16)]
      in case dropWhile (\<lambda>c. c = CHR ''0'') ds of [] \<Rightarrow> ''0'' | s \<Rightarrow> s)"

fun u16_groups :: "bytes \<Rightarrow> nat list" where
  "u16_groups (a # b # r) = (256 * unat a + unat b) # u16_groups r"
| "u16_groups _ = []"

text \<open>Start and length of the first longest run of at least two zero groups.\<close>

definition zero_run :: "nat list \<Rightarrow> nat \<times> nat" where
  "zero_run gs =
     foldl (\<lambda>(st, l) i. let k = length (takeWhile (\<lambda>g. g = 0) (drop i gs))
                        in if k \<ge> 2 \<and> k > l then (i, k) else (st, l)) (0, 0) [0..<8]"

definition ipv6_string :: "bytes \<Rightarrow> gostring" where
  "ipv6_string b =
     (let gs = u16_groups b; (st, l) = zero_run gs
      in if l = 0 then Join (map hex_group gs) '':''
         else Join (map hex_group (take st gs)) '':'' @ ''::''
              @ Join (map hex_group (drop (st + l) gs)) '':'')"

text \<open>\<^verbatim>\<open>net.IP.String\<close> of an address of four or sixteen bytes.\<close>

definition IP_String :: "bytes \<Rightarrow> gostring" where
  "IP_String ip = (case IP_To4 ip of Some b \<Rightarrow> dotted b | None \<Rightarrow> ipv6_string ip)"

section \<open>Host and port\<close>

definition JoinHostPort :: "gostring \<Rightarrow> gostring \<Rightarrow> gostring" where
  "JoinHostPort host port =
     (if CHR '':'' \<in> set host then ''['' @ host @ '']:'' @ port else host @ '':'' @ port)"

definition missing_port :: goerr where
  "missing_port = Errorf ''missing port in address''"

definition too_many_colons :: goerr where
  "too_many_colons = Errorf ''too many colons in address''"

text \<open>
  \<^verbatim>\<open>net.SplitHostPort\<close>. The port follows the last colon; a host in brackets ends right
  before it; no other bracket may occur.
\<close>

definition SplitHostPort :: "gostring \<Rightarrow> (gostring \<times> gostring) res" where
  "SplitHostPort hostport =
     (case CutLast (CHR '':'') hostport of
        None \<Rightarrow> Inl missing_port
      | Some (pre, port) \<Rightarrow>
          if HasPrefix hostport ''['' then
            (let (inner, after, closed) = Cut (CHR '']'') (tl hostport)
             in if \<not> closed then Inl (Errorf ''missing ']' in address'')
                else if after = [] then Inl missing_port
                else if length inner + 2 \<noteq> length pre then
                  Inl (if hd after = CHR '':'' then too_many_colons else missing_port)
                else if CHR ''['' \<in> set (tl hostport) then Inl (Errorf ''unexpected '[' in address'')
                else if CHR '']'' \<in> set after then Inl (Errorf ''unexpected ']' in address'')
                else Inr (inner, port))
          else if CHR '':'' \<in> set pre then Inl too_many_colons
          else if CHR ''['' \<in> set hostport then Inl (Errorf ''unexpected '[' in address'')
          else if CHR '']'' \<in> set hostport then Inl (Errorf ''unexpected ']' in address'')
          else Inr (pre, port))"

section \<open>Lemmas\<close>

lemma IP_IsLoopback_mapped: "length b = 4 \<Longrightarrow> IP_IsLoopback (v4_mapped b) \<longleftrightarrow> b ! 0 = 127"
  by (simp add: IP_IsLoopback_def IP_To4_def v4_mapped_def)

lemma parseIPv4Fields_length: "parseIPv4Fields s = Some b \<Longrightarrow> length b = 4"
  by (auto simp: parseIPv4Fields_def split: list.splits option.splits)

lemma ipv6_groups_length:
  "ipv6_groups n ip ell s = Some (ip', ell', r) \<Longrightarrow> length ip = 16 - 2 * n \<Longrightarrow> n \<le> 8 \<Longrightarrow> length ip' \<le> 16"
proof (induction n arbitrary: ip ell s)
  case 0
  then show ?case by simp
next
  case (Suc n)
  then show ?case
    by (auto simp: Let_def split: if_splits list.splits dest!: parseIPv4Fields_length)
qed

lemma ParseIP_length: "ParseIP s = Some ip \<Longrightarrow> length ip = 16"
proof -
  assume "ParseIP s = Some ip"
  then consider b where "parseIPv4Fields s = Some b" "ip = v4_mapped b"
    | "parseIPv6 s = Some (V6 ip [])"
    by (auto simp: ParseIP_def ParseAddr_def parseIPv6_def Let_def
        split: option.splits if_splits ipaddr.splits prod.splits list.splits)
  then show ?thesis
  proof cases
    case 1
    then show ?thesis by (simp add: v4_mapped_def parseIPv4Fields_length)
  next
    case 2
    have expand: "length b = 16" if "ipv6_groups 8 [] e t = Some (i, l, r)" "ipv6_expand i l = Some b" for e t i l r b
      using that ipv6_groups_length [OF that(1)] by (auto simp: ipv6_expand_def split: if_splits)
    from 2 show ?thesis
      by (auto simp: parseIPv6_def Let_def split: if_splits prod.splits option.splits list.splits dest: expand)
  qed
qed

text \<open>Joining a host without brackets and a port of digits is undone by splitting.\<close>

lemma SplitHostPort_JoinHostPort:
  assumes "CHR ''['' \<notin> set host" and "CHR '']'' \<notin> set host" and "list_all is_digit port"
  shows "SplitHostPort (JoinHostPort host port) = Inr (host, port)"
proof -
  have port: "CHR '':'' \<notin> set port" "CHR ''['' \<notin> set port" "CHR '']'' \<notin> set port"
    using assms(3) by (auto simp: list_all_iff is_digit_def)
  show ?thesis
  proof (cases "CHR '':'' \<in> set host")
    case True
    have "CutLast (CHR '':'') (''['' @ host @ '']:'' @ port) = Some (''['' @ host @ '']'', port)"
      using CutLast_append [OF port(1), of "''['' @ host @ '']''"] by simp
    moreover have "Cut (CHR '']'') (host @ '']'' @ '':'' @ port) = (host, '':'' @ port, True)"
      using Cut_append [OF assms(2), of "'':'' @ port"] by simp
    ultimately show ?thesis
      using True assms port
      by (simp add: SplitHostPort_def JoinHostPort_def HasPrefix_def)
  next
    case False
    have "CutLast (CHR '':'') (host @ '':'' @ port) = Some (host, port)"
      using CutLast_append [OF port(1), of host] by simp
    moreover have "\<not> HasPrefix (host @ '':'' @ port) ''[''"
      using assms(1) by (cases host) (auto simp: HasPrefix_def)
    ultimately show ?thesis
      using False assms port by (simp add: SplitHostPort_def JoinHostPort_def)
  qed
qed

end
