(* ===== verification/GoUrl.thy ===== *)
theory GoUrl
  imports GoNet
begin

text \<open>
  What the program uses of the Go package \<^verbatim>\<open>net/url\<close> (Go 1.26): \<^verbatim>\<open>Parse\<close>,
  \<^verbatim>\<open>ParseRequestURI\<close>, \<^verbatim>\<open>Hostname\<close>, \<^verbatim>\<open>Port\<close>, \<^verbatim>\<open>Query\<close>, \<^verbatim>\<open>Values.Encode\<close> and \<^verbatim>\<open>String\<close>,
  as executable functions. Errors keep the inner message; the operation and the input
  that \<^verbatim>\<open>url.Error\<close> adds to its text are left out.
\<close>

section \<open>URLs and escaping\<close>

record url =
  Scheme :: gostring
  Opaque :: gostring
  User :: "(gostring \<times> gostring option) option"
  Host :: gostring
  Path :: gostring
  RawPath :: gostring
  OmitHost :: bool
  ForceQuery :: bool
  RawQuery :: gostring
  Fragment :: gostring
  RawFragment :: gostring

definition empty_url :: url where
  "empty_url = \<lparr>Scheme = [], Opaque = [], User = None, Host = [], Path = [], RawPath = [],
     OmitHost = False, ForceQuery = False, RawQuery = [], Fragment = [], RawFragment = []\<rparr>"

datatype encoding = encodePath | encodeHost | encodeZone | encodeUserPassword
  | encodeQueryComponent | encodeFragment

definition is_alpha :: "char \<Rightarrow> bool" where
  "is_alpha c = (let n = (of_char c :: nat) in (97 \<le> n \<and> n \<le> 122) \<or> (65 \<le> n \<and> n \<le> 90))"

text \<open>\<^verbatim>\<open>shouldEscape\<close>: the quote character is \<^verbatim>\<open>0x27\<close>, the double quote \<^verbatim>\<open>0x22\<close>.\<close>

definition shouldEscape :: "char \<Rightarrow> encoding \<Rightarrow> bool" where
  "shouldEscape c mode =
     (if is_alpha c \<or> is_digit c then False
      else if (mode = encodeHost \<or> mode = encodeZone)
           \<and> c \<in> set (CHR 0x27 # CHR 0x22 # ''!$&()*+,;=:[]<>'') then False
      else if c \<in> set ''-_.~'' then False
      else if c \<in> set ''$&+,/:;=?@'' then
        (case mode of
           encodePath \<Rightarrow> c = CHR ''?''
         | encodeUserPassword \<Rightarrow> c \<in> set ''@/?:''
         | encodeQueryComponent \<Rightarrow> True
         | encodeFragment \<Rightarrow> False
         | _ \<Rightarrow> True)
      else if mode = encodeFragment \<and> c \<in> set ''!()*'' then False
      else True)"

definition upper_hex :: "nat \<Rightarrow> char" where
  "upper_hex d = (if d < 10 then char_of (48 + d) else char_of (55 + d))"

definition escape_char :: "encoding \<Rightarrow> char \<Rightarrow> gostring" where
  "escape_char mode c =
     (if shouldEscape c mode then
        (if c = CHR '' '' \<and> mode = encodeQueryComponent then ''+''
         else [CHR ''%'', upper_hex (of_char c div 16), upper_hex (of_char c mod 16)])
      else [c])"

definition url_escape :: "gostring \<Rightarrow> encoding \<Rightarrow> gostring" where
  "url_escape s mode = concat (map (escape_char mode) s)"

definition bad_escape :: goerr where
  "bad_escape = Errorf ''invalid URL escape''"

definition bad_host_char :: goerr where
  "bad_host_char = Errorf ''invalid character in host name''"

text \<open>\<^verbatim>\<open>unescape\<close>: the checks of its first pass and the decoding of its second in one walk.\<close>

fun url_unescape :: "gostring \<Rightarrow> encoding \<Rightarrow> gostring res" where
  "url_unescape [] mode = Inr []"
| "url_unescape (c # s) mode =
     (if c = CHR ''%'' then
        (case s of
           a # b # r \<Rightarrow>
             (case (from_hex_char a, from_hex_char b) of
                (Some h, Some l) \<Rightarrow>
                  (let v = (char_of (16 * h + l) :: char)
                   in if mode = encodeHost \<and> h < 8 \<and> \<not> (a = CHR ''2'' \<and> b = CHR ''5'')
                      then Inl bad_escape
                      else if mode = encodeZone \<and> \<not> (a = CHR ''2'' \<and> b = CHR ''5'')
                              \<and> v \<noteq> CHR '' '' \<and> shouldEscape v encodeHost
                      then Inl bad_escape
                      else map_sum id ((#) v) (url_unescape r mode))
              | _ \<Rightarrow> Inl bad_escape)
         | _ \<Rightarrow> Inl bad_escape)
      else if c = CHR ''+'' \<and> mode = encodeQueryComponent
      then map_sum id ((#) (CHR '' '')) (url_unescape s mode)
      else if (mode = encodeHost \<or> mode = encodeZone) \<and> (of_char c :: nat) < 128 \<and> shouldEscape c mode
      then Inl bad_host_char
      else map_sum id ((#) c) (url_unescape s mode))"

section \<open>Parsing\<close>

definition has_ctl_byte :: "gostring \<Rightarrow> bool" where
  "has_ctl_byte s = list_ex (\<lambda>c. (of_char c :: nat) < 32 \<or> (of_char c :: nat) = 127) s"

definition scheme_char :: "char \<Rightarrow> bool" where
  "scheme_char c = (is_alpha c \<or> is_digit c \<or> c \<in> set ''+-.'')"

text \<open>\<^verbatim>\<open>getScheme\<close>: the scheme and the rest, no scheme, or a missing one before a colon.\<close>

definition getScheme :: "gostring \<Rightarrow> (gostring \<times> gostring) res" where
  "getScheme raw =
     (let sch = takeWhile scheme_char raw; rest = drop (length sch) raw
      in case rest of
           c # r \<Rightarrow>
             if c \<noteq> CHR '':'' then Inr ([], raw)
             else if sch = [] then Inl (Errorf ''missing protocol scheme'')
             else if is_alpha (hd sch) then Inr (sch, r) else Inr ([], raw)
         | [] \<Rightarrow> Inr ([], raw))"

definition validOptionalPort :: "gostring \<Rightarrow> bool" where
  "validOptionalPort p =
     (case p of [] \<Rightarrow> True | c # ds \<Rightarrow> c = CHR '':'' \<and> list_all is_digit ds)"

definition bad_port :: goerr where
  "bad_port = Errorf ''invalid port after host''"

text \<open>A host in brackets: an IPv6 literal, perhaps with a zone after \<^verbatim>\<open>%25\<close>.\<close>

definition find_zone :: "gostring \<Rightarrow> nat option" where
  "find_zone s = find (\<lambda>i. prefix ''%25'' (drop i s)) [0..<length s]"

definition unescape_literal :: "gostring \<Rightarrow> gostring res" where
  "unescape_literal h =
     (case find_zone h of
        Some i \<Rightarrow>
          (case url_unescape (take i h) encodeHost of
             Inl e \<Rightarrow> Inl e
           | Inr a \<Rightarrow> map_sum id (\<lambda>z. a @ z) (url_unescape (drop i h) encodeZone))
      | None \<Rightarrow> url_unescape h encodeHost)"

definition parseHost :: "gostring \<Rightarrow> gostring \<Rightarrow> gostring res" where
  "parseHost scheme host =
     (case CutLast (CHR ''['') host of
        Some (pre, r) \<Rightarrow>
          if pre \<noteq> [] then Inl (Errorf ''invalid IP-literal'')
          else
            (case CutLast (CHR '']'') r of
               None \<Rightarrow> Inl (Errorf ''missing ']' in host'')
             | Some (inner, colonPort) \<Rightarrow>
                 if \<not> validOptionalPort colonPort then Inl bad_port
                 else
                   (case (url_unescape colonPort encodeHost, unescape_literal inner) of
                      (Inl e, _) \<Rightarrow> Inl e
                    | (_, Inl e) \<Rightarrow> Inl e
                    | (Inr port, Inr name) \<Rightarrow>
                        (case ParseAddr name of
                           Some (V6 _ _) \<Rightarrow> Inr (''['' @ name @ '']'' @ port)
                         | Some (V4 _) \<Rightarrow> Inl (Errorf ''invalid IP-literal'')
                         | None \<Rightarrow> Inl (Errorf ''invalid host''))))
      | None \<Rightarrow>
          (let (_, after, colon) = Cut (CHR '':'') host;
               colonPort =
                 (if scheme \<in> {''postgresql'', ''postgres''}
                  then (case CutLast (CHR '':'') host of Some (_, p) \<Rightarrow> '':'' @ p | None \<Rightarrow> [])
                  else '':'' @ after)
           in if colon \<and> \<not> validOptionalPort colonPort then Inl bad_port
              else url_unescape host encodeHost))"

definition validUserinfo :: "gostring \<Rightarrow> bool" where
  "validUserinfo s =
     list_all (\<lambda>c. is_alpha c \<or> is_digit c \<or> c \<in> set (CHR 0x27 # ''-._:~!$&()*+,;=%@'')) s"

definition parseAuthority ::
    "gostring \<Rightarrow> gostring \<Rightarrow> ((gostring \<times> gostring option) option \<times> gostring) res" where
  "parseAuthority scheme authority =
     (case CutLast (CHR ''@'') authority of
        None \<Rightarrow> map_sum id (\<lambda>h. (None, h)) (parseHost scheme authority)
      | Some (userinfo, h) \<Rightarrow>
          (case parseHost scheme h of
             Inl e \<Rightarrow> Inl e
           | Inr host \<Rightarrow>
               if \<not> validUserinfo userinfo then Inl (Errorf ''net/url: invalid userinfo'')
               else
                 (let (name, pass, colon) = Cut (CHR '':'') userinfo
                  in case (url_unescape name encodeUserPassword, url_unescape pass encodeUserPassword) of
                       (Inl e, _) \<Rightarrow> Inl e
                     | (Inr n, Inl e) \<Rightarrow> if colon then Inl e else Inr (Some (n, None), host)
                     | (Inr n, Inr p) \<Rightarrow> Inr (Some (n, if colon then Some p else None), host))))"

definition setPath :: "url \<Rightarrow> gostring \<Rightarrow> url res" where
  "setPath u p =
     (case url_unescape p encodePath of
        Inl e \<Rightarrow> Inl e
      | Inr path \<Rightarrow>
          Inr (u\<lparr>Path := path, RawPath := (if p = url_escape path encodePath then [] else p)\<rparr>))"

definition setFragment :: "url \<Rightarrow> gostring \<Rightarrow> url res" where
  "setFragment u f =
     (case url_unescape f encodeFragment of
        Inl e \<Rightarrow> Inl e
      | Inr frag \<Rightarrow>
          Inr (u\<lparr>Fragment := frag,
                RawFragment := (if f = url_escape frag encodeFragment then [] else f)\<rparr>))"

definition cut_query :: "gostring \<Rightarrow> gostring \<times> bool \<times> gostring" where
  "cut_query rest =
     (let (p, q, found) = Cut (CHR ''?'') rest
      in if found \<and> q = [] then (p, True, []) else (p, False, q))"

text \<open>The authority, when the rest starts with two slashes, and then the path.\<close>

definition parse_hier :: "url \<Rightarrow> bool \<Rightarrow> gostring \<Rightarrow> url res" where
  "parse_hier u viaRequest rest =
     (if (Scheme u \<noteq> [] \<or> (\<not> viaRequest \<and> \<not> HasPrefix rest ''///'')) \<and> HasPrefix rest ''//'' then
        (let auth = takeWhile (\<lambda>c. c \<noteq> CHR ''/'') (drop 2 rest);
             path = drop (length auth) (drop 2 rest)
         in case parseAuthority (Scheme u) auth of
              Inl e \<Rightarrow> Inl e
            | Inr (usr, host) \<Rightarrow> setPath (u\<lparr>User := usr, Host := host\<rparr>) path)
      else if Scheme u \<noteq> [] \<and> HasPrefix rest ''/'' then setPath (u\<lparr>OmitHost := True\<rparr>) rest
      else setPath u rest)"

definition url_parse :: "gostring \<Rightarrow> bool \<Rightarrow> url res" where
  "url_parse raw viaRequest =
     (if has_ctl_byte raw then Inl (Errorf ''net/url: invalid control character in URL'')
      else if raw = [] \<and> viaRequest then Inl (Errorf ''empty url'')
      else if raw = ''*'' then Inr (empty_url\<lparr>Path := ''*''\<rparr>)
      else case getScheme raw of
             Inl e \<Rightarrow> Inl e
           | Inr (sch, r) \<Rightarrow>
               (let (rest, force, query) = cut_query r;
                    u = empty_url\<lparr>Scheme := ToLower sch, ForceQuery := force, RawQuery := query\<rparr>
                in if \<not> HasPrefix rest ''/'' then
                     (if Scheme u \<noteq> [] then Inr (u\<lparr>Opaque := rest\<rparr>)
                      else if viaRequest then Inl (Errorf ''invalid URI for request'')
                      else if CHR '':'' \<in> set (takeWhile (\<lambda>c. c \<noteq> CHR ''/'') rest)
                      then Inl (Errorf ''first path segment in URL cannot contain colon'')
                      else parse_hier u viaRequest rest)
                   else parse_hier u viaRequest rest))"

definition Parse :: "gostring \<Rightarrow> url res" where
  "Parse raw =
     (let (s, frag, _) = Cut (CHR ''#'') raw
      in case url_parse s False of
           Inl e \<Rightarrow> Inl e
         | Inr u \<Rightarrow> if frag = [] then Inr u else setFragment u frag)"

definition ParseRequestURI :: "gostring \<Rightarrow> url res" where
  "ParseRequestURI raw = url_parse raw True"

section \<open>Host name and port of a URL\<close>

definition url_splitHostPort :: "gostring \<Rightarrow> gostring \<times> gostring" where
  "url_splitHostPort hostPort =
     (let (host, port) =
        (case CutLast (CHR '':'') hostPort of
           Some (h, p) \<Rightarrow> if list_all is_digit p then (h, p) else (hostPort, [])
         | None \<Rightarrow> (hostPort, []))
      in (if HasPrefix host ''['' \<and> HasSuffix host '']'' then butlast (tl host) else host, port))"

definition Hostname :: "url \<Rightarrow> gostring" where
  "Hostname u = fst (url_splitHostPort (Host u))"

definition Port :: "url \<Rightarrow> gostring" where
  "Port u = snd (url_splitHostPort (Host u))"

section \<open>Printing and query strings\<close>

definition EscapedPath :: "url \<Rightarrow> gostring" where
  "EscapedPath u =
     (if RawPath u \<noteq> [] \<and> url_unescape (RawPath u) encodePath = Inr (Path u)
         \<and> list_all (\<lambda>c. c \<in> set ''[]%'' \<or> c \<in> set (CHR 0x27 # ''!$&()*+,;=:@'') \<or> \<not> shouldEscape c encodePath) (RawPath u)
      then RawPath u
      else if Path u = ''*'' then ''*''
      else url_escape (Path u) encodePath)"

definition EscapedFragment :: "url \<Rightarrow> gostring" where
  "EscapedFragment u =
     (if RawFragment u \<noteq> [] \<and> url_unescape (RawFragment u) encodeFragment = Inr (Fragment u)
         \<and> list_all (\<lambda>c. c \<in> set ''[]%'' \<or> c \<in> set (CHR 0x27 # ''!$&()*+,;=:@'') \<or> \<not> shouldEscape c encodeFragment) (RawFragment u)
      then RawFragment u
      else url_escape (Fragment u) encodeFragment)"

definition user_string :: "gostring \<times> gostring option \<Rightarrow> gostring" where
  "user_string ui =
     url_escape (fst ui) encodeUserPassword
     @ (case snd ui of None \<Rightarrow> [] | Some p \<Rightarrow> '':'' @ url_escape p encodeUserPassword)"

definition authority_string :: "url \<Rightarrow> gostring" where
  "authority_string u =
     (if Scheme u = [] \<and> Host u = [] \<and> User u = None then []
      else if OmitHost u \<and> Host u = [] \<and> User u = None then []
      else (if Host u \<noteq> [] \<or> Path u \<noteq> [] \<or> User u \<noteq> None then ''//'' else [])
           @ (case User u of None \<Rightarrow> [] | Some ui \<Rightarrow> user_string ui @ ''@'')
           @ url_escape (Host u) encodeHost)"

definition url_String :: "url \<Rightarrow> gostring" where
  "url_String u =
     (let sch = (if Scheme u = [] then [] else Scheme u @ '':'');
          body =
            (if Opaque u \<noteq> [] then Opaque u
             else
               (let auth = authority_string u; path = EscapedPath u;
                    slash = (if path \<noteq> [] \<and> hd path \<noteq> CHR ''/'' \<and> Host u \<noteq> [] then ''/'' else []);
                    dot = (if sch @ auth @ slash = []
                              \<and> CHR '':'' \<in> set (takeWhile (\<lambda>c. c \<noteq> CHR ''/'') path)
                           then ''./'' else [])
                in auth @ slash @ dot @ path))
      in sch @ body
         @ (if ForceQuery u \<or> RawQuery u \<noteq> [] then ''?'' @ RawQuery u else [])
         @ (if Fragment u \<noteq> [] then ''#'' @ EscapedFragment u else []))"

text \<open>
  \<^verbatim>\<open>Query\<close>: the pairs of the query string in order; pairs with a semicolon, empty ones
  and ones that do not unescape are dropped. \<^verbatim>\<open>Get\<close> returns the first value of a key.
\<close>

definition query_pair :: "gostring \<Rightarrow> (gostring \<times> gostring) option" where
  "query_pair f =
     (if CHR '';'' \<in> set f \<or> f = [] then None
      else case Cut (CHR ''='') f of
             (k, v, _) \<Rightarrow>
               (case (url_unescape k encodeQueryComponent, url_unescape v encodeQueryComponent) of
                  (Inr k', Inr v') \<Rightarrow> Some (k', v')
                | _ \<Rightarrow> None))"

definition Query :: "url \<Rightarrow> (gostring \<times> gostring) list" where
  "Query u = List.map_filter query_pair (SplitOn (CHR ''&'') (RawQuery u))"

definition Query_Get :: "(gostring \<times> gostring) list \<Rightarrow> gostring \<Rightarrow> gostring" where
  "Query_Get q k = (case map_of q k of None \<Rightarrow> [] | Some v \<Rightarrow> v)"

definition Query_Set :: "(gostring \<times> gostring) list \<Rightarrow> gostring \<Rightarrow> gostring \<Rightarrow> (gostring \<times> gostring) list" where
  "Query_Set q k v = filter (\<lambda>p. fst p \<noteq> k) q @ [(k, v)]"

text \<open>
  \<^verbatim>\<open>Values.Encode\<close>: by key in ascending byte order, the values of a key in their order.
\<close>

fun string_less_eq :: "gostring \<Rightarrow> gostring \<Rightarrow> bool" where
  "string_less_eq [] t = True"
| "string_less_eq (c # s) [] = False"
| "string_less_eq (c # s) (d # t) =
     (if (of_char c :: nat) < of_char d then True
      else if (of_char d :: nat) < of_char c then False else string_less_eq s t)"

fun insert_pair :: "gostring \<times> gostring \<Rightarrow> (gostring \<times> gostring) list \<Rightarrow> (gostring \<times> gostring) list" where
  "insert_pair p [] = [p]"
| "insert_pair p (q # r) = (if string_less_eq (fst p) (fst q) then p # q # r else q # insert_pair p r)"

definition Query_Encode :: "(gostring \<times> gostring) list \<Rightarrow> gostring" where
  "Query_Encode q =
     Join (map (\<lambda>(k, v). url_escape k encodeQueryComponent @ ''='' @ url_escape v encodeQueryComponent)
             (foldr insert_pair q [])) ''&''"

section \<open>Lemmas on parsing\<close>

lemma getScheme_Some:
  assumes "getScheme raw = Inr (sch, r)" and "sch \<noteq> []"
  shows "raw = sch @ CHR '':'' # r" and "list_all scheme_char sch" and "is_alpha (hd sch)"
proof -
  let ?t = "takeWhile scheme_char raw"
  from assms have d: "drop (length ?t) raw = CHR '':'' # r" and t: "sch = ?t" and "is_alpha (hd ?t)"
    by (auto simp: getScheme_def Let_def split: list.splits if_splits)
  then show "is_alpha (hd sch)" by simp
  show "list_all scheme_char sch"
    unfolding t by (auto simp: list_all_iff dest: set_takeWhileD)
  have "raw = ?t @ drop (length ?t) raw"
    by (simp flip: dropWhile_eq_drop)
  with d t show "raw = sch @ CHR '':'' # r" by simp
qed

lemma getScheme_append:
  assumes "list_all scheme_char sch" and "sch \<noteq> []" and "is_alpha (hd sch)"
  shows "getScheme (sch @ CHR '':'' # r) = Inr (sch, r)"
proof -
  have "\<not> scheme_char (CHR '':'')"
    by (simp add: scheme_char_def is_alpha_def is_digit_def)
  moreover have "\<forall>x \<in> set sch. scheme_char x"
    using assms(1) by (simp add: list_all_iff)
  ultimately have "takeWhile scheme_char (sch @ CHR '':'' # r) = sch"
    by simp
  then show ?thesis
    using assms by (simp add: getScheme_def Let_def)
qed

lemma setPath_frame: "setPath u p = Inr v \<Longrightarrow> Scheme v = Scheme u \<and> Host v = Host u \<and> RawQuery v = RawQuery u"
  by (auto simp: setPath_def split: sum.splits)

lemma setFragment_frame: "setFragment u p = Inr v \<Longrightarrow> Scheme v = Scheme u \<and> Host v = Host u \<and> RawQuery v = RawQuery u"
  by (auto simp: setFragment_def split: sum.splits)

lemma parse_hier_Scheme: "parse_hier u via p = Inr v \<Longrightarrow> Scheme v = Scheme u"
  by (auto simp: parse_hier_def Let_def dest!: setPath_frame split: if_splits sum.splits)

lemma url_parse_Scheme:
  assumes "url_parse raw via = Inr u"
  shows "raw = ''*'' \<and> Scheme u = [] \<or>
         (\<exists>sch r. getScheme raw = Inr (sch, r) \<and> Scheme u = ToLower sch)"
proof (cases "raw = ''*''")
  case True
  with assms show ?thesis
    by (auto simp: url_parse_def empty_url_def split: if_splits)
next
  case False
  with assms obtain sch r where "getScheme raw = Inr (sch, r)"
    by (auto simp: url_parse_def split: if_splits sum.splits)
  moreover from this False assms have "Scheme u = ToLower sch"
    by (auto simp: url_parse_def Let_def dest!: parse_hier_Scheme split: if_splits prod.splits)
  ultimately show ?thesis by blast
qed

lemma Parse_url_parse:
  assumes "Parse raw = Inr u"
  obtains v where "url_parse (fst (Cut (CHR ''#'') raw)) False = Inr v"
    and "Scheme u = Scheme v" and "Host u = Host v" and "RawQuery u = RawQuery v"
  using assms
  by (auto simp: Parse_def Let_def dest: setFragment_frame split: prod.splits sum.splits if_splits)

text \<open>A URL with a scheme is the scheme's text, in some letter case, before a colon.\<close>

lemma Parse_Scheme_text:
  assumes "Parse raw = Inr u" and "Scheme u \<noteq> []"
  shows "\<exists>sch r. raw = sch @ CHR '':'' # r \<and> ToLower sch = Scheme u
           \<and> list_all scheme_char sch \<and> is_alpha (hd sch)"
proof -
  let ?s = "takeWhile (\<lambda>x. x \<noteq> CHR ''#'') raw"
  from assms(1) obtain v where v: "url_parse ?s False = Inr v" and "Scheme u = Scheme v"
    by (auto elim: Parse_url_parse simp: Cut_def)
  with assms(2) url_parse_Scheme [OF v] obtain sch r
    where g: "getScheme ?s = Inr (sch, r)" and u: "Scheme u = ToLower sch" by auto
  with assms(2) have "sch \<noteq> []" by (auto simp: ToLower_def)
  note G = getScheme_Some [OF g this]
  have "raw = ?s @ dropWhile (\<lambda>x. x \<noteq> CHR ''#'') raw" by simp
  with G(1) have "raw = sch @ CHR '':'' # r @ dropWhile (\<lambda>x. x \<noteq> CHR ''#'') raw" by simp
  with G(2,3) u show ?thesis by metis
qed

text \<open>A text that starts with a scheme and a colon parses to that scheme, if it parses.\<close>

lemma Parse_Scheme_of:
  assumes "Parse (sch @ CHR '':'' # r) = Inr u"
    and "list_all scheme_char sch" and "sch \<noteq> []" and "is_alpha (hd sch)"
  shows "Scheme u = ToLower sch"
proof -
  let ?raw = "sch @ CHR '':'' # r" and ?p = "\<lambda>x. x \<noteq> CHR ''#''"
  have "\<not> scheme_char (CHR ''#'')"
    by (simp add: scheme_char_def is_alpha_def is_digit_def)
  then have "\<forall>x \<in> set sch. ?p x"
    using assms(2) by (auto simp: list_all_iff)
  then have s: "takeWhile ?p ?raw = sch @ CHR '':'' # takeWhile ?p r" by simp
  from assms(1) obtain v where v: "url_parse (takeWhile ?p ?raw) False = Inr v" and "Scheme u = Scheme v"
    by (auto elim: Parse_url_parse simp: Cut_def)
  moreover have "takeWhile ?p ?raw \<noteq> ''*''"
    using assms(3) s by (cases sch) auto
  ultimately show ?thesis
    using url_parse_Scheme [OF v] getScheme_append [OF assms(2-4)] by (auto simp: s)
qed

section \<open>Lemmas on queries\<close>

lemma from_hex_upper_hex: "d < 16 \<Longrightarrow> from_hex_char (upper_hex d) = Some d"
  by (auto simp: from_hex_char_def upper_hex_def Let_def)

lemma char_div_mod: "(of_char c :: nat) div 16 < 16 \<and> (of_char c :: nat) mod 16 < 16"
  using nat_of_char_less_256 [of c] by (simp add: less_mult_imp_div_less)

lemma unescape_escape_char:
  "url_unescape (escape_char encodeQueryComponent c @ s) encodeQueryComponent
     = map_sum id ((#) c) (url_unescape s encodeQueryComponent)"
proof (cases "shouldEscape c encodeQueryComponent")
  case True
  have "16 * ((of_char c :: nat) div 16) + of_char c mod 16 = of_char c"
    by (rule mult_div_mod_eq)
  then show ?thesis
    using True char_div_mod [of c]
    by (simp add: escape_char_def from_hex_upper_hex Let_def)
next
  case False
  then have "c \<noteq> CHR ''%'' \<and> c \<noteq> CHR ''+''"
    by (auto simp: shouldEscape_def is_alpha_def is_digit_def)
  with False show ?thesis by (simp add: escape_char_def)
qed

lemma url_unescape_escape [codec_simps]:
  "url_unescape (url_escape s encodeQueryComponent) encodeQueryComponent = Inr s"
  by (induction s) (simp_all add: url_escape_def unescape_escape_char)

lemma upper_hex_code: "d < 16 \<Longrightarrow> upper_hex d \<notin> set ''&=;''"
proof -
  assume "d < 16"
  then have "(of_char (upper_hex d) :: nat) \<in> {48..57} \<union> {65..70}"
    by (auto simp: upper_hex_def)
  then show ?thesis by auto
qed

lemma url_escape_chars: "c \<in> set (url_escape s encodeQueryComponent) \<Longrightarrow> c \<notin> set ''&=;''"
proof (induction s)
  case (Cons x s)
  have "c \<notin> set ''&=;''" if "c \<in> set (escape_char encodeQueryComponent x)"
  proof (cases "shouldEscape x encodeQueryComponent")
    case True
    with that consider "c = CHR ''+''" | "c = CHR ''%''" | d where "c = upper_hex d" "d < 16"
      using char_div_mod [of x] by (auto simp: escape_char_def split: if_splits)
    then show ?thesis
      using upper_hex_code by cases auto
  next
    case False
    with that have "c = x" by (simp add: escape_char_def)
    moreover have "shouldEscape y encodeQueryComponent" if "y \<in> set ''&=;''" for y
      using that by (auto simp: shouldEscape_def is_alpha_def is_digit_def)
    ultimately show ?thesis using False by blast
  qed
  with Cons show ?case by (auto simp: url_escape_def)
qed (simp add: url_escape_def)

lemma query_pair_encoded:
  "query_pair (url_escape k encodeQueryComponent @ ''='' @ url_escape v encodeQueryComponent) = Some (k, v)"
proof -
  let ?k = "url_escape k encodeQueryComponent" and ?v = "url_escape v encodeQueryComponent"
  have "CHR ''='' \<notin> set ?k" and "CHR '';'' \<notin> set (?k @ ''='' @ ?v)"
    using url_escape_chars [of _ k] url_escape_chars [of _ v] by fastforce+
  then show ?thesis
    by (simp add: query_pair_def Cut_append url_unescape_escape)
qed

lemma insert_pair_not_Nil [simp]: "insert_pair p r \<noteq> []"
  by (cases r) auto

lemma set_insert_pair [simp]: "set (insert_pair p r) = insert p (set r)"
  by (induction r) auto

lemma string_less_eq_refl [simp]: "string_less_eq s s"
  by (induction s) auto

lemma map_of_insert_pair: "map_of (insert_pair p r) k = (if k = fst p then Some (snd p) else map_of r k)"
  by (induction r) auto

lemma map_of_sorted_query: "map_of (foldr insert_pair q []) = map_of q"
  by (rule ext, induction q) (auto simp: map_of_insert_pair)

lemma map_filter_map_Some: "\<forall>x \<in> set xs. f (g x) = Some x \<Longrightarrow> List.map_filter f (map g xs) = xs"
  by (induction xs) (auto simp: List.map_filter_def)

lemma Query_of_Encode:
  assumes "q \<noteq> []"
  shows "Query (u\<lparr>RawQuery := Query_Encode q\<rparr>) = foldr insert_pair q []"
proof -
  let ?f = "\<lambda>(k, v). url_escape k encodeQueryComponent @ ''='' @ url_escape v encodeQueryComponent"
  let ?q = "foldr insert_pair q []"
  have "?q \<noteq> []" using assms by (cases q) auto
  moreover have "CHR ''&'' \<notin> set (?f x)" for x
    using url_escape_chars by (cases x) fastforce
  ultimately have "SplitOn CHR ''&'' (Join (map ?f ?q) ''&'') = map ?f ?q"
    by (intro SplitOn_Join) auto
  then show ?thesis
    unfolding Query_def Query_Encode_def
    by (auto simp: query_pair_encoded [simplified] intro!: map_filter_map_Some)
qed

text \<open>A parameter that is set in a query is read back from the encoded query, and no other changes.\<close>

lemma Query_Get_Set:
  "Query_Get (Query (u\<lparr>RawQuery := Query_Encode (Query_Set q k v)\<rparr>)) k' = (if k' = k then v else Query_Get q k')"
proof -
  have f: "map_of (filter (\<lambda>p. fst p \<noteq> k) q) k' = (if k' = k then None else map_of q k')"
    by (induction q) auto
  have "Query_Set q k v \<noteq> []" by (simp add: Query_Set_def)
  show ?thesis
    unfolding Query_of_Encode [OF \<open>Query_Set q k v \<noteq> []\<close>] Query_Get_def map_of_sorted_query
    using f by (simp add: Query_Set_def map_add_def split: option.splits)
qed

end
