(* ===== verification/Uri.thy ===== *)
theory Uri
  imports GoUrl
begin

text \<open>
  The RPC object \<^verbatim>\<open>URI\<close> (\<^verbatim>\<open>server/uri.go\<close>): validation of what may be handed to the
  operating system's opener. The opener itself (\<^verbatim>\<open>open.Run\<close>, a variable in the code) is a
  parameter over the state of the desktop.
\<close>

section \<open>The operations\<close>

definition blockedSchemes :: "gostring \<Rightarrow> bool" where
  "blockedSchemes s = (s \<in> {''file'', ''data'', ''javascript'', ''vbscript''})"

definition local_paths_error :: goerr where
  "local_paths_error = Errorf ''local paths are not allowed''"

definition isWindowsLocalPath :: "gostring \<Rightarrow> bool" where
  "isWindowsLocalPath raw =
     (if HasPrefix raw [CHR 0x5C, CHR 0x5C] \<or> HasPrefix raw [CHR ''.'', CHR 0x5C]
         \<or> HasPrefix raw [CHR ''.'', CHR ''.'', CHR 0x5C] then True
      else if length raw \<ge> 2 \<and> raw ! 1 = CHR '':'' \<and> is_alpha (raw ! 0) then True
      else Contains raw [CHR 0x5C])"

definition isBrowserHostShorthand :: "gostring \<Rightarrow> bool" where
  "isBrowserHostShorthand raw =
     (if raw = [] \<or> HasPrefix raw ''/'' \<or> HasPrefix raw ''./'' \<or> HasPrefix raw ''../'' then False
      else case ParseRequestURI (''https://'' @ raw) of
             Inl _ \<Rightarrow> False
           | Inr candidate \<Rightarrow> Hostname candidate \<noteq> [])"

definition ParseOpenURI :: "gostring \<Rightarrow> url res" where
  "ParseOpenURI raw =
     (if isWindowsLocalPath raw then Inl local_paths_error
      else case Parse raw of
             Inl err \<Rightarrow> Inl (Wrapf ''invalid URI: '' err)
           | Inr parsed \<Rightarrow>
               (let scheme = ToLower (Scheme parsed)
                in if blockedSchemes scheme
                   then Inl (Errorf (''URI scheme '' @ Quote scheme @ '' is not allowed''))
                   else if scheme \<noteq> [] then Inr parsed
                   else if Host parsed \<noteq> [] \<or> HasPrefix raw ''//'' then Inl local_paths_error
                   else if \<not> isBrowserHostShorthand raw then Inl local_paths_error
                   else Inr parsed))"

definition normalizeOpenURI :: "url \<Rightarrow> gostring \<Rightarrow> gostring" where
  "normalizeOpenURI parsed raw = (if Scheme parsed \<noteq> [] then raw else ''https://'' @ raw)"

definition URI_Open ::
    "(gostring \<Rightarrow> 'w \<Rightarrow> goerr option \<times> 'w) \<Rightarrow> gostring \<Rightarrow> 'w \<Rightarrow> goerr option \<times> 'w" where
  "URI_Open opener uri w =
     (case ParseOpenURI uri of
        Inl err \<Rightarrow> (Some err, w)
      | Inr parsed \<Rightarrow> opener (normalizeOpenURI parsed uri) w)"

section \<open>Specification and lemmas\<close>

text \<open>
  What the desktop may be asked to open: an absolute URI, that is a scheme name of at
  least two characters before a colon, whose scheme is none of the blocked ones in any
  letter case, and which holds no backslash.
\<close>

definition safe_target :: "gostring \<Rightarrow> bool" where
  "safe_target t \<longleftrightarrow>
     (\<exists>sch r. t = sch @ CHR '':'' # r \<and> length sch \<ge> 2 \<and> list_all scheme_char sch
        \<and> is_alpha (hd sch) \<and> \<not> blockedSchemes (ToLower sch)) \<and> CHR 0x5C \<notin> set t"

lemma isWindowsLocalPath_backslash: "CHR 0x5C \<in> set raw \<Longrightarrow> isWindowsLocalPath raw"
  by (simp add: isWindowsLocalPath_def Contains_char)

lemma isWindowsLocalPath_drive: "is_alpha d \<Longrightarrow> isWindowsLocalPath (d # CHR '':'' # r)"
  by (simp add: isWindowsLocalPath_def)

lemma ParseOpenURI_InrD:
  assumes "ParseOpenURI raw = Inr u"
  shows "\<not> isWindowsLocalPath raw" and "Parse raw = Inr u"
    and "\<not> blockedSchemes (ToLower (Scheme u))"
    and "Scheme u = [] \<Longrightarrow> isBrowserHostShorthand raw"
  using assms by (auto simp: ParseOpenURI_def ToLower_def Let_def split: if_splits sum.splits)

lemma ParseOpenURI_safe:
  assumes "ParseOpenURI raw = Inr u"
  shows "safe_target (normalizeOpenURI u raw)"
proof (cases "Scheme u = []")
  case True
  have "safe_target (''https'' @ CHR '':'' # ''//'' @ raw)"
    unfolding safe_target_def
  proof (intro conjI exI)
    show "list_all scheme_char ''https''" and "is_alpha (hd ''https'')" 
      and "\<not> blockedSchemes (ToLower ''https'')"
      by code_simp+
    show "CHR 0x5C \<notin> set (''https'' @ CHR '':'' # ''//'' @ raw)"
      using ParseOpenURI_InrD(1) [OF assms] isWindowsLocalPath_backslash by auto
  qed simp_all
  with True show ?thesis by (simp add: normalizeOpenURI_def)
next
  case False
  note P = ParseOpenURI_InrD [OF assms]
  from Parse_Scheme_text [OF P(2) False] obtain sch r
    where t: "raw = sch @ CHR '':'' # r" "ToLower sch = Scheme u" "list_all scheme_char sch" "is_alpha (hd sch)"
    by blast
  have "\<not> blockedSchemes (ToLower sch)"
    using P(3) t(2) by (metis ToLower_idem)
  moreover have "length sch \<ge> 2"
  proof (rule ccontr)
    assume "\<not> ?thesis"
    moreover have "sch \<noteq> []" using False t(2) by (auto simp: ToLower_def)
    ultimately obtain d where "sch = [d]" by (cases sch) (auto simp: Suc_le_eq)
    with t P(1) isWindowsLocalPath_drive show False by auto
  qed
  ultimately show ?thesis
    using t P(1) isWindowsLocalPath_backslash False
    by (auto simp: safe_target_def normalizeOpenURI_def)
qed

text \<open>A bare host name has no scheme and parses as a relative path.\<close>

definition host_char :: "char \<Rightarrow> bool" where
  "host_char c = (is_alpha c \<or> is_digit c \<or> c \<in> set ''-.'')"

lemma host_char_facts:
  assumes "host_char c"
  shows "scheme_char c" and "c \<notin> {CHR '':'', CHR ''/'', CHR ''?'', CHR ''#'', CHR ''%'', CHR ''@'',
    CHR ''['', CHR '']'', CHR 0x5C, CHR ''*''}" and "\<not> shouldEscape c m"
    and "32 \<le> (of_char c :: nat)" and "(of_char c :: nat) \<noteq> 127"
proof -
  from assms consider "is_alpha c" | "is_digit c" | "c = CHR ''-''" | "c = CHR ''.''"
    by (auto simp: host_char_def)
  note cs = this
  show "scheme_char c" using assms by (auto simp: host_char_def scheme_char_def)
  show "c \<notin> {CHR '':'', CHR ''/'', CHR ''?'', CHR ''#'', CHR ''%'', CHR ''@'',
    CHR ''['', CHR '']'', CHR 0x5C, CHR ''*''}"
    by (rule cs) (auto simp: is_alpha_def is_digit_def Let_def)
  show "\<not> shouldEscape c m" by (rule cs) (auto simp: shouldEscape_def)
  show "32 \<le> (of_char c :: nat)" by (rule cs) (auto simp: is_alpha_def is_digit_def Let_def)
  show "(of_char c :: nat) \<noteq> 127" by (rule cs) (auto simp: is_alpha_def is_digit_def Let_def)
qed

lemma host_name_free:
  assumes "list_all host_char h"
    and "c \<in> {CHR '':'', CHR ''/'', CHR ''?'', CHR ''#'', CHR ''%'', CHR ''@'', CHR ''['', CHR '']'', CHR 0x5C, CHR ''*''}"
  shows "c \<notin> set h"
proof
  assume "c \<in> set h"
  with assms(1) have "host_char c" by (simp add: list_all_iff)
  from host_char_facts(2) [OF this] assms(2) show False by blast
qed

lemma url_unescape_host_name: "list_all host_char h \<Longrightarrow> url_unescape h m = Inr h"
proof (induction h)
  case (Cons c h)
  have "c \<noteq> CHR ''+''"
    using Cons.prems by (auto simp: host_char_def is_alpha_def is_digit_def)
  then show ?case
    using Cons host_char_facts [of c] by (simp add: host_char_facts(3) [of c])
qed simp

lemma has_ctl_byte_host_name: "list_all host_char h \<Longrightarrow> \<not> has_ctl_byte (''https://'' @ h) \<and> \<not> has_ctl_byte h"
proof -
  assume "list_all host_char h"
  then have "\<not> has_ctl_byte h"
    using host_char_facts(4,5) by (fastforce simp: has_ctl_byte_def list_ex_iff list_all_iff)
  moreover have "\<not> has_ctl_byte ''https://''" by code_simp
  ultimately show ?thesis by (simp add: has_ctl_byte_def)
qed

lemma parseAuthority_host_name: "list_all host_char h \<Longrightarrow> parseAuthority sch h = Inr (None, h)"
  using host_name_free [of h "CHR ''@''"] host_name_free [of h "CHR ''[''"] host_name_free [of h "CHR '':''"]
  by (simp add: parseAuthority_def parseHost_def CutLast_None [THEN iffD2] Cut_notin url_unescape_host_name)

lemma setPath_host_name: "list_all host_char h \<Longrightarrow> \<exists>v. setPath u h = Inr v \<and> Scheme v = Scheme u \<and> Host v = Host u"
  by (simp add: setPath_def url_unescape_host_name)

lemma Parse_host_name:
  assumes "list_all host_char h"
  shows "\<exists>u. Parse h = Inr u \<and> Scheme u = [] \<and> Host u = []"
proof -
  note free = host_name_free [OF assms]
  have all: "takeWhile scheme_char h = h"
    using assms host_char_facts(1) by (auto simp: list_all_iff)
  have g: "getScheme h = Inr ([], h)"
    unfolding getScheme_def all by simp
  have h1: "\<not> HasPrefix h ''/''" "\<not> HasPrefix h ''//''" "h \<noteq> ''*''"
    using free [of "CHR ''/''"] free [of "CHR ''*''"] by (auto simp: HasPrefix_def prefix_def)
  obtain v where v: "setPath (empty_url\<lparr>Scheme := [], ForceQuery := False, RawQuery := []\<rparr>) h = Inr v"
      and "Scheme v = []" "Host v = []"
    using setPath_host_name [OF assms] by (fastforce simp: empty_url_def)
  moreover have "url_parse h False = Inr v"
    using h1 g v free [of "CHR ''?''"] free [of "CHR '':''"] has_ctl_byte_host_name [OF assms]
    by (auto simp: url_parse_def cut_query_def Cut_notin ToLower_def parse_hier_def dest: set_takeWhileD)
  ultimately show ?thesis
    using free [of "CHR ''#''"] by (simp add: Parse_def Cut_notin)
qed

lemma isBrowserHostShorthand_host_name:
  assumes "list_all host_char h" and "h \<noteq> []"
  shows "isBrowserHostShorthand h"
proof -
  note free = host_name_free [OF assms(1)]
  let ?u = "empty_url\<lparr>Scheme := ''https'', ForceQuery := False, RawQuery := []\<rparr>"
  have g: "getScheme (''https'' @ CHR '':'' # ''//'' @ h) = Inr (''https'', ''//'' @ h)"
    by (rule getScheme_append) code_simp+
  have l: "ToLower ''https'' = ''https''" by code_simp
  have q: "cut_query (''//'' @ h) = (''//'' @ h, False, [])"
    using free [of "CHR ''?''"] Cut_notin [of "CHR ''?''" "''//'' @ h"] by (simp add: cut_query_def)
  have t: "takeWhile (\<lambda>c. c \<noteq> CHR ''/'') h = h"
    using free [of "CHR ''/''"] by (auto intro: takeWhile_eq_all_conv [THEN iffD2])
  have "parse_hier ?u True (''//'' @ h) = setPath (?u\<lparr>User := None, Host := h\<rparr>) []"
    by (simp add: t parse_hier_def HasPrefix_def parseAuthority_host_name [OF assms(1)] Let_def)
  also have "\<dots> = Inr (?u\<lparr>User := None, Host := h, Path := [], RawPath := []\<rparr>)"
    by (simp add: setPath_def url_escape_def)
  finally have "ParseRequestURI (''https://'' @ h) = Inr (?u\<lparr>User := None, Host := h, Path := [], RawPath := []\<rparr>)"
    using g q l has_ctl_byte_host_name [OF assms(1)]
    by (simp add: ParseRequestURI_def url_parse_def HasPrefix_def)
  moreover have "\<not> HasPrefix h ''[''"
    using free [of "CHR ''[''"] by (auto simp: HasPrefix_def prefix_def)
  moreover have "\<not> HasPrefix h ''/''" "\<not> HasPrefix h ''./''" "\<not> HasPrefix h ''../''"
    using free [of "CHR ''/''"] by (auto simp: HasPrefix_def prefix_def)
  ultimately show ?thesis
    using assms(2) free [of "CHR '':''"]
    by (simp add: isBrowserHostShorthand_def Hostname_def url_splitHostPort_def CutLast_None [THEN iffD2])
qed

text \<open>The blocked names consist of letters, in whatever case they are written.\<close>

lemma ascii_lower_alpha: "is_alpha (ascii_lower c) \<longleftrightarrow> is_alpha c"
  by (auto simp: is_alpha_def ascii_lower_def Let_def)

lemma blocked_scheme_chars:
  assumes "blockedSchemes (ToLower sch)"
  shows "list_all scheme_char sch \<and> sch \<noteq> [] \<and> is_alpha (hd sch)"
proof -
  have "list_all is_alpha (ToLower sch) \<and> ToLower sch \<noteq> []"
    using assms unfolding blockedSchemes_def by (elim insertE emptyE) (simp_all, (code_simp; fail)+)
  then have "list_all is_alpha sch" and "sch \<noteq> []"
    by (auto simp: ToLower_def list_all_iff ascii_lower_alpha)
  then show ?thesis
    by (cases sch) (auto simp: list_all_iff scheme_char_def)
qed

section \<open>Properties\<close>

text \<open>
  C25. Whatever string a client sends, \<^verbatim>\<open>URI.Open\<close> either reports an error and leaves the
  desktop alone, or asks it to open one target that is an absolute URI with a scheme that
  is not blocked and with no backslash.
\<close>

theorem URI_Open_safe:
  "(\<exists>e. URI_Open opener uri w = (Some e, w)) \<or>
   (\<exists>target. safe_target target \<and> URI_Open opener uri w = opener target w)"
proof (cases "ParseOpenURI uri")
  case (Inl e)
  then show ?thesis by (simp add: URI_Open_def)
next
  case (Inr u)
  then show ?thesis
    using ParseOpenURI_safe [OF Inr] by (auto simp: URI_Open_def)
qed

text \<open>
  A URI whose scheme is blocked, in any letter case and with anything after the colon,
  is refused by \<^verbatim>\<open>ParseOpenURI\<close>, and so is every text with a backslash, a drive letter, a
  leading slash, or a leading \<^verbatim>\<open>./\<close> or \<^verbatim>\<open>../\<close> and no scheme.
\<close>

theorem ParseOpenURI_refuses:
  assumes "(\<exists>sch r. raw = sch @ CHR '':'' # r \<and> blockedSchemes (ToLower sch)) \<or>
           CHR 0x5C \<in> set raw \<or> (\<exists>d r. is_alpha d \<and> raw = d # CHR '':'' # r) \<or>
           HasPrefix raw ''/'' \<or> HasPrefix raw ''./'' \<or> HasPrefix raw ''../''"
  shows "\<exists>e. ParseOpenURI raw = Inl e"
proof (rule ccontr)
  assume "\<not> ?thesis"
  then obtain u where u: "ParseOpenURI raw = Inr u" by (cases "ParseOpenURI raw") auto
  note P = ParseOpenURI_InrD [OF u]
  from assms consider
      sch r where "raw = sch @ CHR '':'' # r" "blockedSchemes (ToLower sch)"
    | "isWindowsLocalPath raw"
    | "HasPrefix raw ''/'' \<or> HasPrefix raw ''./'' \<or> HasPrefix raw ''../''"
    using isWindowsLocalPath_backslash isWindowsLocalPath_drive by blast
  then show False
  proof cases
    case 1
    have "list_all scheme_char sch \<and> sch \<noteq> [] \<and> is_alpha (hd sch)"
      using 1(2) by (rule blocked_scheme_chars)
    then have "Scheme u = ToLower sch"
      using P(2) 1(1) by (auto intro: Parse_Scheme_of)
    then show False using P(3) 1(2) by simp
  next
    case 2
    then show False using P(1) by simp
  next
    case 3
    have "Scheme u = []"
    proof (rule ccontr)
      assume "Scheme u \<noteq> []"
      from Parse_Scheme_text [OF P(2) this] obtain sch r
        where t: "raw = sch @ CHR '':'' # r" "ToLower sch = Scheme u" "is_alpha (hd sch)" by blast
      then have "sch \<noteq> []" using \<open>Scheme u \<noteq> []\<close> by (auto simp: ToLower_def)
      with 3 t show False by (cases sch) (auto simp: HasPrefix_def is_alpha_def)
    qed
    with P(4) 3 show False by (auto simp: isBrowserHostShorthand_def)
  qed
qed

theorem ParseOpenURI_refuses_witness:
  "(\<exists>e. ParseOpenURI ''JavaScript:alert(1)'' = Inl e) \<and> (\<exists>e. ParseOpenURI ''../etc/passwd'' = Inl e)"
proof -
  have "''JavaScript:alert(1)'' = ''JavaScript'' @ CHR '':'' # ''alert(1)''"
    and "blockedSchemes (ToLower ''JavaScript'')"
    by code_simp+
  then have "\<exists>sch r. ''JavaScript:alert(1)'' = sch @ CHR '':'' # r \<and> blockedSchemes (ToLower sch)"
    by blast
  moreover have "HasPrefix ''../etc/passwd'' ''../''" by code_simp
  ultimately show ?thesis
    using ParseOpenURI_refuses [of "''JavaScript:alert(1)''"] ParseOpenURI_refuses [of "''../etc/passwd''"] by blast
qed

text \<open>
  A bare host name of letters, digits, dots and hyphens is opened as the \<^verbatim>\<open>https\<close> URL
  of that host.
\<close>

theorem URI_Open_host_name:
  assumes "list_all host_char h" and "h \<noteq> []"
  shows "URI_Open opener h w = opener (''https://'' @ h) w"
proof -
  obtain u where u: "Parse h = Inr u" "Scheme u = []" "Host u = []"
    using Parse_host_name [OF assms(1)] by blast
  have "CHR 0x5C \<notin> set h" and "CHR '':'' \<notin> set h"
    by (rule host_name_free [OF assms(1)], simp)+
  moreover from this have "\<not> (length h \<ge> 2 \<and> h ! 1 = CHR '':'')"
    by (metis nth_mem One_nat_def Suc_le_eq numeral_2_eq_2)
  ultimately have "\<not> isWindowsLocalPath h"
    by (auto simp: isWindowsLocalPath_def Contains_char HasPrefix_def prefix_def)
  moreover have "\<not> HasPrefix h ''//''"
    using host_name_free [OF assms(1), of "CHR ''/''"] by (auto simp: HasPrefix_def prefix_def)
  moreover have "\<not> blockedSchemes []" by code_simp
  ultimately have "ParseOpenURI h = Inr u"
    using u isBrowserHostShorthand_host_name [OF assms] by (simp add: ParseOpenURI_def ToLower_def)
  with u show ?thesis by (simp add: URI_Open_def normalizeOpenURI_def)
qed

theorem URI_Open_host_name_witness:
  "URI_Open (\<lambda>t w. (None, t # w)) ''example.com'' [] = (None, [''https://example.com''])"
proof -
  have "list_all host_char ''example.com''" by code_simp
  from URI_Open_host_name [OF this, of "\<lambda>t w. (None, t # w)" "[]"] show ?thesis by simp
qed

end
