(* ===== verification/Frame.thy ===== *)
theory Frame
  imports GoStrings
begin

text \<open>
  The length-prefixed frame layer of \<^verbatim>\<open>util/frame.go\<close> (with \<^verbatim>\<open>appendFrame\<close> of
  \<^verbatim>\<open>server/server.go\<close>, which re-encodes a frame already read), and the interface every
  framed protocol of the program offers its clients, the locale \<open>message_codec\<close>: what is
  encoded is decoded again, and only what was encoded is decoded. The locale's lemmas on
  sequences of messages are instantiated here for plain frames and, in the theory of the
  tunnel endpoints, for authenticated ones.
\<close>

section \<open>The frame layer\<close>

definition MaxFrameSize :: u32 where
  "MaxFrameSize = push_bit 20 16"

definition WriteFrame :: "sink \<Rightarrow> bytes \<Rightarrow> goerr option \<times> sink" where
  "WriteFrame w data =
     (let hdr = PutUint32 (word_of_nat (length data))
      in case Write hdr w of
           (Some err, w1) \<Rightarrow> (Some (Wrapf ''frame: writing length: '' err), w1)
         | (None, w1) \<Rightarrow>
             (case Write data w1 of
                (Some err, w2) \<Rightarrow> (Some (Wrapf ''frame: writing payload: '' err), w2)
              | (None, w2) \<Rightarrow> (None, w2)))"

definition ReadFrame :: "stream \<Rightarrow> bytes res \<times> stream" where
  "ReadFrame r =
     (case ReadFull 4 r of
        (Inl err, r1) \<Rightarrow> (Inl err, r1)
      | (Inr hdr, r1) \<Rightarrow>
          let n = BE_Uint32 hdr
          in if n > MaxFrameSize
             then (Inl (Errorf (''frame: payload size '' @ nat_itoa (unat n)
                                @ '' exceeds maximum '' @ nat_itoa (unat MaxFrameSize))), r1)
             else (case ReadFull (unat n) r1 of
                     (Inl err, r2) \<Rightarrow> (Inl (Wrapf ''frame: reading payload: '' err), r2)
                   | (Inr buf, r2) \<Rightarrow> (Inr buf, r2)))"

text \<open>\<^verbatim>\<open>appendFrame\<close> shifts the payload length as an \<^verbatim>\<open>int\<close> and truncates each byte.\<close>

definition appendFrame :: "bytes \<Rightarrow> bytes" where
  "appendFrame payload =
     (let n = length payload
      in [word_of_nat (drop_bit 24 n), word_of_nat (drop_bit 16 n),
          word_of_nat (drop_bit 8 n), word_of_nat n] @ payload)"

abbreviation frame_bytes :: "bytes \<Rightarrow> bytes" where
  "frame_bytes p \<equiv> PutUint32 (word_of_nat (length p)) @ p"

abbreviation frame_fits :: "bytes \<Rightarrow> bool" where
  "frame_fits p \<equiv> length p \<le> unat MaxFrameSize"

lemma unat_MaxFrameSize [simp]: "unat MaxFrameSize = 16777216"
  by (simp add: MaxFrameSize_def push_bit_eq_mult)

lemma appendFrame_eq: "appendFrame p = frame_bytes p"
proof -
  have "word_of_nat (drop_bit k n) = (ucast (drop_bit k (word_of_nat n :: u32)) :: byte)"
    if "k \<in> {0, 8, 16, 24}" for k n :: nat
    using that by (auto intro!: bit_word_eqI simp: bit_simps)
  from this [of 24] this [of 16] this [of 8] this [of 0] show ?thesis
    by (simp add: appendFrame_def PutUint32_def Let_def)
qed

lemma WriteFrame_okD: "WriteFrame w p = (None, w') \<Longrightarrow> written w' = written w @ frame_bytes p"
  by (auto simp: WriteFrame_def Let_def dest!: Write_okD split: prod.splits option.splits)

lemma WriteFrame_unbounded [stream_simps]:
  "room w = None \<Longrightarrow> \<not> dead w \<Longrightarrow> WriteFrame w p = (None, w\<lparr>written := written w @ frame_bytes p\<rparr>)"
  by (simp add: WriteFrame_def Let_def stream_simps)

lemma frame_length_word: "frame_fits p \<Longrightarrow> unat (word_of_nat (length p) :: u32) = length p"
  by (simp add: unat_of_nat)

lemma ReadFrame_frame [stream_simps]:
  assumes "frame_fits p"
  shows "ReadFrame \<lparr>avail = frame_bytes p @ r, fin = e\<rparr> = (Inr p, \<lparr>avail = r, fin = e\<rparr>)"
proof -
  have "\<not> (word_of_nat (length p) :: u32) > MaxFrameSize"
    using assms frame_length_word [OF assms] by (simp add: word_less_nat_alt)
  with assms show ?thesis
    by (simp add: ReadFrame_def ReadFull_append frame_length_word Let_def del: of_nat_numeral)
qed

lemma ReadFrame_InrD:
  assumes "ReadFrame s = (Inr p, s')"
  shows "frame_fits p" and "avail s = frame_bytes p @ avail s'" and "fin s' = fin s"
proof -
  from assms obtain hdr s1 where h: "ReadFull 4 s = (Inr hdr, s1)"
    and n: "\<not> BE_Uint32 hdr > MaxFrameSize"
    and b: "ReadFull (unat (BE_Uint32 hdr)) s1 = (Inr p, s')"
    by (auto simp: ReadFrame_def Let_def split: prod.splits sum.splits if_splits)
  note H = ReadFull_InrD [OF h] and B = ReadFull_InrD [OF b]
  show "frame_fits p"
    using n B(2) by (simp add: word_less_nat_alt)
  have "word_of_nat (length p) = BE_Uint32 hdr"
    using B(2) by simp
  then show "avail s = frame_bytes p @ avail s'"
    using H B by (simp add: Put_BE_Uint32)
  show "fin s' = fin s"
    using H B by simp
qed

section \<open>Message codecs\<close>

text \<open>
  A protocol that sends messages one after the other on a byte stream: \<open>enc\<close> writes a
  message, \<open>dec\<close> reads one. The provider promises that a valid message is read back and
  that whatever is read was written by the encoder.
\<close>

fun read_msgs :: "(stream \<Rightarrow> 'm res \<times> stream) \<Rightarrow> nat \<Rightarrow> stream \<Rightarrow> 'm list \<times> goerr option \<times> stream" where
  "read_msgs dec 0 s = ([], None, s)"
| "read_msgs dec (Suc n) s =
     (case dec s of
        (Inl e, s') \<Rightarrow> ([], Some e, s')
      | (Inr m, s') \<Rightarrow> (case read_msgs dec n s' of (ms, r) \<Rightarrow> (m # ms, r)))"

locale message_codec =
  fixes enc :: "'m \<Rightarrow> bytes"
    and dec :: "stream \<Rightarrow> 'm res \<times> stream"
    and valid :: "'m \<Rightarrow> bool"
  assumes dec_enc: "valid m \<Longrightarrow> dec \<lparr>avail = enc m @ r, fin = e\<rparr> = (Inr m, \<lparr>avail = r, fin = e\<rparr>)"
    and dec_valid: "dec s = (Inr m, s') \<Longrightarrow> valid m"
    and dec_bytes: "dec s = (Inr m, s') \<Longrightarrow> avail s = enc m @ avail s'"
    and dec_fin: "dec s = (Inr m, s') \<Longrightarrow> fin s' = fin s"
begin

lemma dec_iff:
  "dec s = (Inr m, s') \<longleftrightarrow> valid m \<and> avail s = enc m @ avail s' \<and> fin s' = fin s"
proof
  assume A: "valid m \<and> avail s = enc m @ avail s' \<and> fin s' = fin s"
  obtain a f where s: "s = \<lparr>avail = a, fin = f\<rparr>" by (cases s)
  obtain a' f' where s': "s' = \<lparr>avail = a', fin = f'\<rparr>" by (cases s')
  from A have "valid m" and "a = enc m @ a'" and "f' = f"
    by (simp_all add: s s')
  then show "dec s = (Inr m, s')"
    unfolding s s' using dec_enc [of m a' f] by simp
qed (auto dest: dec_valid dec_bytes dec_fin)

lemma enc_prefix_free:
  assumes "valid m" and "valid n" and "enc m @ r = enc n @ t"
  shows "m = n \<and> r = t"
proof -
  have "(Inr m, \<lparr>avail = r, fin = EOF\<rparr>) = dec \<lparr>avail = enc n @ t, fin = EOF\<rparr>"
    using dec_enc [OF assms(1), of r EOF] unfolding assms(3) by (rule sym)
  also have "\<dots> = (Inr n, \<lparr>avail = t, fin = EOF\<rparr>)"
    by (rule dec_enc [OF assms(2)])
  finally show ?thesis by simp
qed

lemma read_msgs_concat:
  assumes "list_all valid ms"
  shows "read_msgs dec (length ms) \<lparr>avail = concat (map enc ms) @ r, fin = e\<rparr>
           = (ms, None, \<lparr>avail = r, fin = e\<rparr>)"
  using assms by (induction ms) (simp_all add: dec_enc)

lemma read_msgs_sound:
  assumes "read_msgs dec n s = (ms, err, s')"
  shows "list_all valid ms \<and> (\<exists>q. avail s = concat (map enc ms) @ q)"
  using assms
proof (induction n arbitrary: s ms)
  case 0
  then show ?case by simp
next
  case (Suc n)
  show ?case
  proof (cases "dec s")
    case (Pair r s1)
    show ?thesis
    proof (cases r)
      case (Inl e)
      with Suc.prems Pair show ?thesis by simp
    next
      case (Inr m)
      with Suc.prems Pair obtain ms' where "read_msgs dec n s1 = (ms', err, s')" and "ms = m # ms'"
        by (auto split: prod.splits)
      with Suc.IH Pair Inr dec_valid dec_bytes show ?thesis by fastforce
    qed
  qed
qed

text \<open>A reader never invents, reorders or skips a message, wherever the stream is cut.\<close>

lemma read_msgs_prefix:
  assumes "list_all valid sent" and "\<forall>m. valid m \<longrightarrow> enc m \<noteq> []"
    and "prefix (avail s) (concat (map enc sent))"
    and "read_msgs dec n s = (ms, err, s')"
  shows "prefix ms sent"
proof -
  from read_msgs_sound [OF assms(4)] obtain q
    where "list_all valid ms" and "avail s = concat (map enc ms) @ q" by blast
  moreover from assms(3) obtain z where "concat (map enc sent) = avail s @ z"
    by (auto simp: prefix_def)
  ultimately have "list_all valid ms" and "concat (map enc sent) = concat (map enc ms) @ q @ z"
    by simp_all
  then show ?thesis using assms(1)
  proof (induction ms arbitrary: sent)
    case Nil
    then show ?case by simp
  next
    case (Cons m ms)
    from Cons.prems(1) assms(2) have "enc m \<noteq> []" by simp
    with Cons.prems(2) obtain n ns where sent: "sent = n # ns"
      by (cases sent) auto
    with Cons.prems have "m = n \<and> concat (map enc ms) @ q @ z = concat (map enc ns)"
      by (intro enc_prefix_free) simp_all
    with Cons sent show ?case by simp
  qed
qed

end

interpretation frames: message_codec frame_bytes ReadFrame frame_fits
proof unfold_locales
  fix m r e assume "frame_fits m"
  then show "ReadFrame \<lparr>avail = frame_bytes m @ r, fin = e\<rparr> = (Inr m, \<lparr>avail = r, fin = e\<rparr>)"
    by (rule ReadFrame_frame)
qed (fact ReadFrame_InrD)+

section \<open>Properties of the frame layer\<close>

text \<open>
  A frame written by \<^verbatim>\<open>WriteFrame\<close> is read back by \<^verbatim>\<open>ReadFrame\<close> unchanged, whatever
  follows it on the connection, as long as its payload is within \<^verbatim>\<open>MaxFrameSize\<close>.
\<close>

theorem WriteFrame_ReadFrame:
  assumes "length data \<le> unat MaxFrameSize" and "WriteFrame w data = (None, w')"
  shows "\<exists>wire. written w' = written w @ wire \<and>
           ReadFrame \<lparr>avail = wire @ r, fin = e\<rparr> = (Inr data, \<lparr>avail = r, fin = e\<rparr>)"
  using WriteFrame_okD [OF assms(2)] frames.dec_enc [OF assms(1)] by blast

theorem WriteFrame_ReadFrame_witness:
  "\<exists>wire. written (snd (WriteFrame \<lparr>written = [9], room = Some 6, werr = EOF, dead = False\<rparr> [7, 8])) = [9] @ wire \<and>
     ReadFrame \<lparr>avail = wire @ [1], fin = EOF\<rparr> = (Inr [7, 8], \<lparr>avail = [1], fin = EOF\<rparr>)"
proof -
  let ?w = "\<lparr>written = [9], room = Some 6, werr = EOF, dead = False\<rparr>"
  have ok: "WriteFrame ?w [7, 8] = (None, snd (WriteFrame ?w [7, 8]))"
    by (simp add: WriteFrame_def Write_def Let_def)
  show ?thesis
    using WriteFrame_ReadFrame [OF _ ok, of "[1]" EOF] by simp
qed

text \<open>
  C28. \<^verbatim>\<open>ReadFrame\<close> returns a payload exactly when the stream starts with the four
  big-endian bytes of its length, at most \<^verbatim>\<open>MaxFrameSize\<close>, and the payload; it consumes
  exactly those bytes.
\<close>

theorem ReadFrame_ok_iff:
  "ReadFrame s = (Inr p, s') \<longleftrightarrow>
     length p \<le> unat MaxFrameSize \<and>
     avail s = PutUint32 (word_of_nat (length p)) @ p @ avail s' \<and> fin s' = fin s"
  using frames.dec_iff [of s p s'] by simp

text \<open>
  However the connection cuts or ends the stream, the payloads a reader gets are a
  prefix of the payloads the writer sent.
\<close>

theorem ReadFrame_sequence_prefix:
  assumes "list_all (\<lambda>p. length p \<le> unat MaxFrameSize) sent"
    and "prefix (avail s) (concat (map appendFrame sent))"
    and "read_msgs ReadFrame n s = (got, err, s')"
  shows "prefix got sent"
proof -
  have "appendFrame = (\<lambda>p. frame_bytes p)"
    by (rule ext) (rule appendFrame_eq)
  with assms(2) have "prefix (avail s) (concat (map (\<lambda>p. frame_bytes p) sent))"
    by simp
  moreover have "\<forall>p. frame_fits p \<longrightarrow> frame_bytes p \<noteq> []"
    by (simp add: PutUint32_def)
  ultimately show ?thesis
    using frames.read_msgs_prefix [OF assms(1) _ _ assms(3)] by blast
qed

theorem ReadFrame_sequence_prefix_witness:
  "prefix (fst (read_msgs ReadFrame 2 \<lparr>avail = [0, 0, 0, 1, 5, 0, 0], fin = EOF\<rparr>)) [[5], [6, 7]]"
proof -
  let ?s = "\<lparr>avail = [0, 0, 0, 1, 5, 0, 0], fin = EOF\<rparr>"
  obtain got err s' where r: "read_msgs ReadFrame 2 ?s = (got, err, s')"
    by (cases "read_msgs ReadFrame 2 ?s") auto
  have "prefix got [[5], [6, 7]]"
    by (rule ReadFrame_sequence_prefix [OF _ _ r]) (simp_all add: appendFrame_eq PutUint32_def)
  with r show ?thesis by simp
qed

end
