(* ===== verification/GoHash.thy ===== *)
theory GoHash
  imports Prelude
begin

text \<open>
  The hash functions of the Go standard library the program uses: \<^verbatim>\<open>crypto/sha256\<close> (key
  identities), \<^verbatim>\<open>crypto/hmac\<close> over it (tunnel frames) \<^verbatim>\<open>crypto/sha1\<close> (key grips) and \<^verbatim>\<open>crypto/md5\<close> (icon files), as
  executable functions on byte lists after FIPS 180-4 and RFC 2104.
\<close>

section \<open>Padding and blocks\<close>

text \<open>A message, the byte \<^verbatim>\<open>0x80\<close>, zeros up to 56 modulo 64, and the bit length in 64 bits.\<close>

definition PutUint64 :: "64 word \<Rightarrow> bytes" where
  "PutUint64 v = PutUint32 (ucast (drop_bit 32 v)) @ PutUint32 (ucast v)"

definition pad_message :: "bytes \<Rightarrow> bytes" where
  "pad_message m =
     m @ [0x80] @ replicate ((119 - length m mod 64) mod 64) 0
       @ PutUint64 (word_of_nat (8 * length m))"

function blocks64 :: "bytes \<Rightarrow> bytes list" where
  "blocks64 m = (if length m < 64 then [] else take 64 m # blocks64 (drop 64 m))"
  by pat_completeness auto
termination
  by (relation "measure length") auto

declare blocks64.simps [simp del]

fun words_of :: "bytes \<Rightarrow> u32 list" where
  "words_of (a # b # c # d # r) = BE_Uint32 [a, b, c, d] # words_of r"
| "words_of _ = []"

section \<open>SHA-256\<close>

definition sha256_k :: "u32 list" where
  "sha256_k =
     [0x428A2F98, 0x71374491, 0xB5C0FBCF, 0xE9B5DBA5, 0x3956C25B, 0x59F111F1,
      0x923F82A4, 0xAB1C5ED5, 0xD807AA98, 0x12835B01, 0x243185BE, 0x550C7DC3,
      0x72BE5D74, 0x80DEB1FE, 0x9BDC06A7, 0xC19BF174, 0xE49B69C1, 0xEFBE4786,
      0x0FC19DC6, 0x240CA1CC, 0x2DE92C6F, 0x4A7484AA, 0x5CB0A9DC, 0x76F988DA,
      0x983E5152, 0xA831C66D, 0xB00327C8, 0xBF597FC7, 0xC6E00BF3, 0xD5A79147,
      0x06CA6351, 0x14292967, 0x27B70A85, 0x2E1B2138, 0x4D2C6DFC, 0x53380D13,
      0x650A7354, 0x766A0ABB, 0x81C2C92E, 0x92722C85, 0xA2BFE8A1, 0xA81A664B,
      0xC24B8B70, 0xC76C51A3, 0xD192E819, 0xD6990624, 0xF40E3585, 0x106AA070,
      0x19A4C116, 0x1E376C08, 0x2748774C, 0x34B0BCB5, 0x391C0CB3, 0x4ED8AA4A,
      0x5B9CCA4F, 0x682E6FF3, 0x748F82EE, 0x78A5636F, 0x84C87814, 0x8CC70208,
      0x90BEFFFA, 0xA4506CEB, 0xBEF9A3F7, 0xC67178F2]"

definition sha256_init :: "u32 list" where
  "sha256_init =
     [0x6A09E667, 0xBB67AE85, 0x3C6EF372, 0xA54FF53A,
      0x510E527F, 0x9B05688C, 0x1F83D9AB, 0x5BE0CD19]"

text \<open>The message schedule, newest word first.\<close>

fun sha256_extend :: "nat \<Rightarrow> u32 list \<Rightarrow> u32 list" where
  "sha256_extend 0 ws = ws"
| "sha256_extend (Suc n) ws =
     (let w15 = ws ! 14; w2 = ws ! 1;
          s0 = word_rotr 7 w15 XOR word_rotr 18 w15 XOR drop_bit 3 w15;
          s1 = word_rotr 17 w2 XOR word_rotr 19 w2 XOR drop_bit 10 w2
      in sha256_extend n ((ws ! 15 + s0 + ws ! 6 + s1) # ws))"

definition sha256_schedule :: "bytes \<Rightarrow> u32 list" where
  "sha256_schedule b = rev (sha256_extend 48 (rev (words_of b)))"

fun sha256_round :: "u32 \<times> u32 \<Rightarrow> u32 list \<Rightarrow> u32 list" where
  "sha256_round (k, w) [a, b, c, d, e, f, g, h] =
     (let t1 = h + (word_rotr 6 e XOR word_rotr 11 e XOR word_rotr 25 e)
               + ((e AND f) XOR (NOT e AND g)) + k + w;
          t2 = (word_rotr 2 a XOR word_rotr 13 a XOR word_rotr 22 a)
               + ((a AND b) XOR (a AND c) XOR (b AND c))
      in [t1 + t2, a, b, c, d + t1, e, f, g])"
| "sha256_round _ s = s"

definition sha256_block :: "bytes \<Rightarrow> u32 list \<Rightarrow> u32 list" where
  "sha256_block b s =
     map2 (+) s (fold sha256_round (zip sha256_k (sha256_schedule b)) s)"

definition sha256_Sum256 :: "bytes \<Rightarrow> bytes" where
  "sha256_Sum256 m =
     concat (map PutUint32 (fold sha256_block (blocks64 (pad_message m)) sha256_init))"

section \<open>HMAC-SHA256\<close>

text \<open>\<^verbatim>\<open>hmac.New(sha256.New, key)\<close>, then \<^verbatim>\<open>Write\<close> and \<^verbatim>\<open>Sum\<close>.\<close>

definition hmac_key :: "bytes \<Rightarrow> bytes" where
  "hmac_key key =
     (let k = (if length key > 64 then sha256_Sum256 key else key)
      in k @ replicate (64 - length k) 0)"

definition hmac_sha256 :: "bytes \<Rightarrow> bytes \<Rightarrow> bytes" where
  "hmac_sha256 key m =
     (let k = hmac_key key
      in sha256_Sum256 (map (\<lambda>b. b XOR 0x5C) k
           @ sha256_Sum256 (map (\<lambda>b. b XOR 0x36) k @ m)))"

section \<open>SHA-1\<close>

fun sha1_extend :: "nat \<Rightarrow> u32 list \<Rightarrow> u32 list" where
  "sha1_extend 0 ws = ws"
| "sha1_extend (Suc n) ws =
     sha1_extend n (word_rotl 1 (ws ! 2 XOR ws ! 7 XOR ws ! 13 XOR ws ! 15) # ws)"

definition sha1_f :: "nat \<Rightarrow> u32 \<Rightarrow> u32 \<Rightarrow> u32 \<Rightarrow> u32" where
  "sha1_f t b c d =
     (if t < 20 then (b AND c) OR (NOT b AND d)
      else if t < 40 then b XOR c XOR d
      else if t < 60 then (b AND c) OR (b AND d) OR (c AND d)
      else b XOR c XOR d)"

definition sha1_k :: "nat \<Rightarrow> u32" where
  "sha1_k t =
     (if t < 20 then 0x5A827999 else if t < 40 then 0x6ED9EBA1
      else if t < 60 then 0x8F1BBCDC else 0xCA62C1D6)"

fun sha1_round :: "nat \<times> u32 \<Rightarrow> u32 list \<Rightarrow> u32 list" where
  "sha1_round (t, w) [a, b, c, d, e] =
     [word_rotl 5 a + sha1_f t b c d + e + sha1_k t + w, a, word_rotl 30 b, c, d]"
| "sha1_round _ s = s"

definition sha1_init :: "u32 list" where
  "sha1_init = [0x67452301, 0xEFCDAB89, 0x98BADCFE, 0x10325476, 0xC3D2E1F0]"

definition sha1_block :: "bytes \<Rightarrow> u32 list \<Rightarrow> u32 list" where
  "sha1_block b s =
     map2 (+) s (fold sha1_round (zip [0..<80] (rev (sha1_extend 64 (rev (words_of b))))) s)"

definition sha1_Sum :: "bytes \<Rightarrow> bytes" where
  "sha1_Sum m = concat (map PutUint32 (fold sha1_block (blocks64 (pad_message m)) sha1_init))"

section \<open>MD5\<close>

text \<open>\<^verbatim>\<open>crypto/md5\<close> after RFC 1321; its integers are little-endian.\<close>

definition LE_PutUint32 :: "u32 \<Rightarrow> bytes" where
  "LE_PutUint32 v = rev (PutUint32 v)"

definition md5_pad :: "bytes \<Rightarrow> bytes" where
  "md5_pad m =
     m @ [0x80] @ replicate ((119 - length m mod 64) mod 64) 0 @ rev (PutUint64 (word_of_nat (8 * length m)))"

fun le_words_of :: "bytes \<Rightarrow> u32 list" where
  "le_words_of (a # b # c # d # r) = BE_Uint32 [d, c, b, a] # le_words_of r"
| "le_words_of _ = []"

definition md5_k :: "u32 list" where
  "md5_k =
     [
      0xD76AA478, 0xE8C7B756, 0x242070DB, 0xC1BDCEEE, 0xF57C0FAF, 0x4787C62A, 0xA8304613, 0xFD469501,
      0x698098D8, 0x8B44F7AF, 0xFFFF5BB1, 0x895CD7BE, 0x6B901122, 0xFD987193, 0xA679438E, 0x49B40821,
      0xF61E2562, 0xC040B340, 0x265E5A51, 0xE9B6C7AA, 0xD62F105D, 0x02441453, 0xD8A1E681, 0xE7D3FBC8,
      0x21E1CDE6, 0xC33707D6, 0xF4D50D87, 0x455A14ED, 0xA9E3E905, 0xFCEFA3F8, 0x676F02D9, 0x8D2A4C8A,
      0xFFFA3942, 0x8771F681, 0x6D9D6122, 0xFDE5380C, 0xA4BEEA44, 0x4BDECFA9, 0xF6BB4B60, 0xBEBFBC70,
      0x289B7EC6, 0xEAA127FA, 0xD4EF3085, 0x04881D05, 0xD9D4D039, 0xE6DB99E5, 0x1FA27CF8, 0xC4AC5665,
      0xF4292244, 0x432AFF97, 0xAB9423A7, 0xFC93A039, 0x655B59C3, 0x8F0CCC92, 0xFFEFF47D, 0x85845DD1,
      0x6FA87E4F, 0xFE2CE6E0, 0xA3014314, 0x4E0811A1, 0xF7537E82, 0xBD3AF235, 0x2AD7D2BB, 0xEB86D391]"

definition md5_shift :: "nat \<Rightarrow> nat" where
  "md5_shift i =
     (if i < 16 then [7, 12, 17, 22] else if i < 32 then [5, 9, 14, 20]
      else if i < 48 then [4, 11, 16, 23] else [6, 10, 15, 21]) ! (i mod 4)"

definition md5_f :: "nat \<Rightarrow> u32 \<Rightarrow> u32 \<Rightarrow> u32 \<Rightarrow> u32" where
  "md5_f i b c d =
     (if i < 16 then (b AND c) OR (NOT b AND d)
      else if i < 32 then (d AND b) OR (NOT d AND c)
      else if i < 48 then b XOR c XOR d
      else c XOR (b OR NOT d))"

definition md5_g :: "nat \<Rightarrow> nat" where
  "md5_g i = (if i < 16 then i else if i < 32 then 5 * i + 1 else if i < 48 then 3 * i + 5 else 7 * i) mod 16"

fun md5_round :: "u32 list \<Rightarrow> nat \<times> u32 \<Rightarrow> u32 list \<Rightarrow> u32 list" where
  "md5_round ws (i, k) [a, b, c, d] = [d, b + word_rotl (md5_shift i) (md5_f i b c d + a + k + ws ! md5_g i), b, c]"
| "md5_round _ _ s = s"

definition md5_init :: "u32 list" where
  "md5_init = [0x67452301, 0xEFCDAB89, 0x98BADCFE, 0x10325476]"

definition md5_block :: "bytes \<Rightarrow> u32 list \<Rightarrow> u32 list" where
  "md5_block b s = map2 (+) s (fold (md5_round (le_words_of b)) (zip [0..<64] md5_k) s)"

definition md5_Sum :: "bytes \<Rightarrow> bytes" where
  "md5_Sum m = concat (map LE_PutUint32 (fold md5_block (blocks64 (md5_pad m)) md5_init))"

section \<open>Digest sizes\<close>

lemma length_sha256_round [simp]: "length (sha256_round kw s) = length s"
  by (cases "(kw, s)" rule: sha256_round.cases) (simp_all add: Let_def)

lemma length_sha1_round [simp]: "length (sha1_round tw s) = length s"
  by (cases "(tw, s)" rule: sha1_round.cases) simp_all

lemma length_fold_same:
  assumes "\<And>x s. length (f x s) = length s"
  shows "length (fold f xs s) = length s"
  using assms by (induction xs arbitrary: s) simp_all

lemma length_sha256_block [simp]: "length (sha256_block b s) = length s"
  by (simp add: sha256_block_def length_fold_same)

lemma length_sha1_block [simp]: "length (sha1_block b s) = length s"
  by (simp add: sha1_block_def length_fold_same)

lemma length_concat_PutUint32 [simp]: "length (concat (map PutUint32 ws)) = 4 * length ws"
  by (induction ws) simp_all

lemma length_sha256 [simp]: "length (sha256_Sum256 m) = 32"
  by (simp add: sha256_Sum256_def length_fold_same sha256_init_def)

lemma length_hmac_sha256 [simp]: "length (hmac_sha256 k m) = 32"
  by (simp add: hmac_sha256_def Let_def)

lemma length_sha1 [simp]: "length (sha1_Sum m) = 20"
  by (simp add: sha1_Sum_def length_fold_same sha1_init_def)

lemma length_md5_round [simp]: "length (md5_round ws ik s) = length s"
  by (cases "(ws, ik, s)" rule: md5_round.cases) simp_all

lemma length_md5_block [simp]: "length (md5_block b s) = length s"
  by (simp add: md5_block_def length_fold_same)

lemma length_md5 [simp]: "length (md5_Sum m) = 16"
proof -
  have "length (concat (map LE_PutUint32 ws)) = 4 * length ws" for ws
    by (induction ws) (simp_all add: LE_PutUint32_def)
  then show ?thesis by (simp add: md5_Sum_def length_fold_same md5_init_def)
qed

text \<open>The padded message is a whole number of blocks, so no byte of it is left out.\<close>

lemma length_PutUint64 [simp]: "length (PutUint64 v) = 8"
  by (simp add: PutUint64_def)

lemma pad_message_blocks: "length (pad_message m) mod 64 = 0"
proof -
  define q r where "q = length m div 64" and "r = length m mod 64"
  then have n: "length m = 64 * q + r" and "r < 64" by simp_all
  then have "(119 - r) mod 64 = (if r \<le> 55 then 55 - r else 119 - r)"
    by (auto simp: mod_if)
  with n \<open>r < 64\<close> show ?thesis
    by (auto simp: pad_message_def add.assoc)
qed

lemma concat_blocks64: "length m mod 64 = 0 \<Longrightarrow> concat (blocks64 m) = m"
proof (induction m rule: blocks64.induct)
  case (1 m)
  show ?case
  proof (cases "length m < 64")
    case True
    with "1.prems" show ?thesis by (simp add: blocks64.simps)
  next
    case False
    with "1.prems" have "length (drop 64 m) mod 64 = 0"
      by (simp add: le_mod_geq)
    with False 1 show ?thesis by (subst blocks64.simps) simp
  qed
qed

end
