(* ===== verification/TunnelFrame.thy ===== *)
theory TunnelFrame
  imports Frame GoHash
begin

text \<open>
  Authenticated tunnel frames: \<^verbatim>\<open>tunnelFrame\<close>, \<^verbatim>\<open>tunnelEndpoint\<close> with \<^verbatim>\<open>writeFrame\<close>,
  \<^verbatim>\<open>readFrame\<close> and \<^verbatim>\<open>close\<close>, which the server (\<^verbatim>\<open>server/tunnel_transport.go\<close>) and the
  client (\<^verbatim>\<open>cmd/cli/tunnel_client.go\<close>) each declare for themselves, and the two text
  helpers on tunnelled bytes. Both endpoints are shown to speak one protocol, which is an
  instance of the message codec interface.
\<close>

section \<open>Frames\<close>

definition tunnelMACKeySize :: nat where "tunnelMACKeySize = 32"
definition tunnelMACSize :: nat where "tunnelMACSize = 32"
definition tunnelFrameMACSize :: nat where "tunnelFrameMACSize = 32"

type_synonym tunnelFrameType = byte

definition tunnelFrameAttach :: tunnelFrameType where "tunnelFrameAttach = 1"
definition tunnelFrameOpen :: tunnelFrameType where "tunnelFrameOpen = 2"
definition tunnelFrameData :: tunnelFrameType where "tunnelFrameData = 3"
definition tunnelFrameEOF :: tunnelFrameType where "tunnelFrameEOF = 4"
definition tunnelFrameClose :: tunnelFrameType where "tunnelFrameClose = 5"
definition tunnelFramePing :: tunnelFrameType where "tunnelFramePing = 6"
definition tunnelFramePong :: tunnelFrameType where "tunnelFramePong = 7"
definition tunnelFrameError :: tunnelFrameType where "tunnelFrameError = 8"

lemmas frame_type_defs =
  tunnelFrameAttach_def tunnelFrameOpen_def tunnelFrameData_def tunnelFrameEOF_def
  tunnelFrameClose_def tunnelFramePing_def tunnelFramePong_def tunnelFrameError_def

record tunnelFrame =
  frame_type :: tunnelFrameType
  StreamID :: u32
  Payload :: bytes

section \<open>Endpoints\<close>

text \<open>
  \<open>ep_in\<close> is what the buffered reader of the endpoint still delivers and \<open>ep_out\<close> what has
  been written to its connection. Closing the connection ends both; bytes that the reader
  already holds in its buffer can still be read after that.
\<close>

record tunnelEndpoint =
  ep_in :: stream
  ep_out :: sink
  macKey :: bytes
  ep_closed :: bool

definition newTunnelEndpoint :: "stream \<Rightarrow> sink \<Rightarrow> bytes \<Rightarrow> tunnelEndpoint" where
  "newTunnelEndpoint i out key = \<lparr>ep_in = i, ep_out = out, macKey = key, ep_closed = False\<rparr>"

definition endpoint_close :: "tunnelEndpoint \<Rightarrow> tunnelEndpoint" where
  "endpoint_close ep =
     (if ep_closed ep then ep
      else ep\<lparr>ep_closed := True, ep_in := (ep_in ep)\<lparr>fin := OpErrClosed\<rparr>,
              ep_out := (ep_out ep)\<lparr>dead := True, werr := OpErrClosed\<rparr>\<rparr>)"

definition writeFrame :: "tunnelEndpoint \<Rightarrow> tunnelFrame \<Rightarrow> goerr option \<times> tunnelEndpoint" where
  "writeFrame ep frame =
     (let body = [frame_type frame] @ PutUint32 (StreamID frame) @ Payload frame;
          out = body @ hmac_sha256 (macKey ep) body
      in case WriteFrame (ep_out ep) out of (r, w) \<Rightarrow> (r, ep\<lparr>ep_out := w\<rparr>))"

definition readFrame :: "tunnelEndpoint \<Rightarrow> tunnelFrame res \<times> tunnelEndpoint" where
  "readFrame ep =
     (case ReadFrame (ep_in ep) of
        (Inl err, s) \<Rightarrow> (Inl err, ep\<lparr>ep_in := s\<rparr>)
      | (Inr raw, s) \<Rightarrow>
          (if length raw < 1 + 4 + tunnelMACSize
           then Inl (Errorf ''tunnel frame too short'')
           else
             (let body = take (length raw - tunnelMACSize) raw;
                  wantMAC = drop (length raw - tunnelMACSize) raw
              in if wantMAC \<noteq> hmac_sha256 (macKey ep) body
                 then Inl (Errorf ''tunnel frame MAC mismatch'')
                 else Inr \<lparr>frame_type = body ! 0, StreamID = BE_Uint32 (take 4 (drop 1 body)),
                           Payload = drop 5 body\<rparr>),
           ep\<lparr>ep_in := s\<rparr>))"

text \<open>The client's copies of the two operations.\<close>

definition cli_writeFrame :: "tunnelEndpoint \<Rightarrow> tunnelFrame \<Rightarrow> goerr option \<times> tunnelEndpoint" where
  "cli_writeFrame ep frame =
     (let body = [frame_type frame] @ PutUint32 (StreamID frame) @ Payload frame;
          out = body @ hmac_sha256 (macKey ep) body
      in case WriteFrame (ep_out ep) out of (r, w) \<Rightarrow> (r, ep\<lparr>ep_out := w\<rparr>))"

definition cli_readFrame :: "tunnelEndpoint \<Rightarrow> tunnelFrame res \<times> tunnelEndpoint" where
  "cli_readFrame ep =
     (case ReadFrame (ep_in ep) of
        (Inl err, s) \<Rightarrow> (Inl err, ep\<lparr>ep_in := s\<rparr>)
      | (Inr raw, s) \<Rightarrow>
          (if length raw < 1 + 4 + tunnelFrameMACSize
           then Inl (Errorf ''tunnel frame too short'')
           else
             (let body = take (length raw - tunnelFrameMACSize) raw;
                  macBytes = drop (length raw - tunnelFrameMACSize) raw
              in if macBytes \<noteq> hmac_sha256 (macKey ep) body
                 then Inl (Errorf ''tunnel frame MAC mismatch'')
                 else Inr \<lparr>frame_type = body ! 0, StreamID = BE_Uint32 (take 4 (drop 1 body)),
                           Payload = drop 5 body\<rparr>),
           ep\<lparr>ep_in := s\<rparr>))"

definition cli_endpoint_close :: "tunnelEndpoint \<Rightarrow> tunnelEndpoint" where
  "cli_endpoint_close ep =
     (if ep_closed ep then ep
      else ep\<lparr>ep_closed := True, ep_in := (ep_in ep)\<lparr>fin := OpErrClosed\<rparr>,
              ep_out := (ep_out ep)\<lparr>dead := True, werr := OpErrClosed\<rparr>\<rparr>)"

section \<open>Tunnelled bytes\<close>

definition summarizeTunnelBytes :: "bytes \<Rightarrow> gostring" where
  "summarizeTunnelBytes data =
     (let txt = ReplaceAll (string_of data) [char_of (13 :: nat)] [CHR 0x5C, CHR ''r''];
          txt = ReplaceAll txt [char_of (10 :: nat)] [CHR 0x5C, CHR ''n'']
      in if length txt > 120 then take 120 txt @ ''...'' else txt)"

text \<open>The client has the types of the frames and this function a second time.\<close>

definition cli_tunnelFrameTypes :: "tunnelFrameType list" where
  "cli_tunnelFrameTypes = [1, 2, 3, 4, 5, 6, 7, 8]"

definition cli_summarizeTunnelBytes :: "bytes \<Rightarrow> gostring" where
  "cli_summarizeTunnelBytes data =
     (let limit = 120;
          txt = ReplaceAll (string_of data) [char_of (13 :: nat)] [CHR 0x5C, CHR ''r''];
          txt = ReplaceAll txt [char_of (10 :: nat)] [CHR 0x5C, CHR ''n'']
      in if length txt > limit then take limit txt @ ''...'' else txt)"

definition looksLikeOAuthSuccessRequest :: "bytes \<Rightarrow> bool" where
  "looksLikeOAuthSuccessRequest data =
     (let txt = string_of data
      in Contains txt (map char_of [13, 10, 13, 10 :: nat])
         \<and> HasPrefix txt ''GET /'' \<and> Contains txt ''code='' \<and> Contains txt ''state='')"

section \<open>The frame codec\<close>

definition frame_body :: "tunnelFrame \<Rightarrow> bytes" where
  "frame_body f = [frame_type f] @ PutUint32 (StreamID f) @ Payload f"

definition frame_wire :: "bytes \<Rightarrow> tunnelFrame \<Rightarrow> bytes" where
  "frame_wire key f = frame_bytes (frame_body f @ hmac_sha256 key (frame_body f))"

abbreviation tunnel_fits :: "tunnelFrame \<Rightarrow> bool" where
  "tunnel_fits f \<equiv> length (Payload f) + 37 \<le> unat MaxFrameSize"

text \<open>Reading a frame with a given key, apart from the endpoint it arrives at.\<close>

definition frame_dec :: "bytes \<Rightarrow> stream \<Rightarrow> tunnelFrame res \<times> stream" where
  "frame_dec key s =
     (case readFrame (newTunnelEndpoint s \<lparr>written = [], room = None, werr = EOF, dead = False\<rparr> key) of
        (r, ep) \<Rightarrow> (r, ep_in ep))"

lemma length_frame_body [simp]: "length (frame_body f) = 5 + length (Payload f)"
  by (simp add: frame_body_def)

lemma frame_body_parts:
  "frame_body f ! 0 = frame_type f" "BE_Uint32 (take 4 (drop (Suc 0) (frame_body f))) = StreamID f"
  "drop 5 (frame_body f) = Payload f"
  by (simp_all add: frame_body_def)

lemma frame_body_inverse:
  assumes "5 \<le> length b"
  shows "frame_body \<lparr>frame_type = b ! 0, StreamID = BE_Uint32 (take 4 (drop 1 b)), Payload = drop 5 b\<rparr> = b"
proof -
  obtain c r where b: "b = c # r" and "4 \<le> length r"
    using assms by (cases b) auto
  then show ?thesis
    by (simp add: frame_body_def Put_BE_Uint32 min_absorb2)
qed

lemma writeFrame_eq: "writeFrame ep f = (case WriteFrame (ep_out ep) (frame_body f @ hmac_sha256 (macKey ep) (frame_body f)) of (r, w) \<Rightarrow> (r, ep\<lparr>ep_out := w\<rparr>))"
  by (simp add: writeFrame_def frame_body_def Let_def)

lemma writeFrame_okD:
  assumes "writeFrame ep f = (None, ep')"
  shows "written (ep_out ep') = written (ep_out ep) @ frame_wire (macKey ep) f"
    and "ep_in ep' = ep_in ep" and "macKey ep' = macKey ep" and "ep_closed ep' = ep_closed ep"
  using assms by (auto simp: writeFrame_eq frame_wire_def dest!: WriteFrame_okD split: prod.splits)

lemma writeFrame_keeps:
  assumes "writeFrame ep f = (r, ep')"
  shows "ep_in ep' = ep_in ep" and "macKey ep' = macKey ep" and "ep_closed ep' = ep_closed ep"
  using assms by (auto simp: writeFrame_eq split: prod.splits)

lemma writeFrame_dead:
  assumes "dead (ep_out ep)"
  shows "\<exists>e. writeFrame ep f = (Some e, ep)"
  using assms by (simp add: writeFrame_eq WriteFrame_def Write_dead Let_def)

lemma readFrame_InrD:
  assumes "readFrame ep = (Inr f, ep')"
  shows "tunnel_fits f" and "avail (ep_in ep) = frame_wire (macKey ep) f @ avail (ep_in ep')"
    and "fin (ep_in ep') = fin (ep_in ep)" and "ep' = ep\<lparr>ep_in := ep_in ep'\<rparr>"
proof -
  from assms obtain raw s where r: "ReadFrame (ep_in ep) = (Inr raw, s)" and ep': "ep' = ep\<lparr>ep_in := s\<rparr>"
    and len: "37 \<le> length raw"
    and mac: "drop (length raw - 32) raw = hmac_sha256 (macKey ep) (take (length raw - 32) raw)"
    and f: "f = \<lparr>frame_type = take (length raw - 32) raw ! 0,
                StreamID = BE_Uint32 (take 4 (drop 1 (take (length raw - 32) raw))),
                Payload = drop 5 (take (length raw - 32) raw)\<rparr>"
    by (auto simp: readFrame_def tunnelMACSize_def Let_def split: prod.splits sum.splits if_splits)
  let ?b = "take (length raw - 32) raw"
  have b: "frame_body f = ?b"
    unfolding f using len by (intro frame_body_inverse) simp
  then have "raw = frame_body f @ hmac_sha256 (macKey ep) (frame_body f)"
    using mac by (metis append_take_drop_id)
  with ReadFrame_InrD [OF r] ep' show "avail (ep_in ep) = frame_wire (macKey ep) f @ avail (ep_in ep')"
    and "fin (ep_in ep') = fin (ep_in ep)" and "ep' = ep\<lparr>ep_in := ep_in ep'\<rparr>"
    by (simp_all add: frame_wire_def)
  show "tunnel_fits f"
    using ReadFrame_InrD(1) [OF r] f len by simp
qed

lemma readFrame_InlD:
  assumes "readFrame ep = (Inl e, ep')"
  shows "ep' = ep\<lparr>ep_in := ep_in ep'\<rparr>"
  using assms by (auto simp: readFrame_def split: prod.splits sum.splits)

lemma readFrame_wire:
  assumes "tunnel_fits f" and "avail (ep_in ep) = frame_wire (macKey ep) f @ r"
  shows "readFrame ep = (Inr f, ep\<lparr>ep_in := (ep_in ep)\<lparr>avail := r\<rparr>\<rparr>)"
proof -
  let ?raw = "frame_body f @ hmac_sha256 (macKey ep) (frame_body f)"
  have "frame_fits ?raw" using assms(1) by simp
  from ReadFrame_frame [OF this, of r "fin (ep_in ep)"] assms(2)
  have "ReadFrame (ep_in ep) = (Inr ?raw, (ep_in ep)\<lparr>avail := r\<rparr>)"
    by (cases "ep_in ep") (simp add: frame_wire_def)
  then show ?thesis
    by (simp add: readFrame_def tunnelMACSize_def Let_def frame_body_parts)
qed

lemma cli_constants_same:
  "cli_tunnelFrameTypes = [tunnelFrameAttach, tunnelFrameOpen, tunnelFrameData, tunnelFrameEOF, tunnelFrameClose,
     tunnelFramePing, tunnelFramePong, tunnelFrameError]"
  "cli_summarizeTunnelBytes = summarizeTunnelBytes" "distinct cli_tunnelFrameTypes"
  by (simp_all add: cli_tunnelFrameTypes_def frame_type_defs cli_summarizeTunnelBytes_def summarizeTunnelBytes_def Let_def fun_eq_iff)

text \<open>What is shown of tunnelled bytes is one short line.\<close>

lemma set_ReplaceAll_one: "set (ReplaceAll s [c] new) \<subseteq> (set s - {c}) \<union> set new"
  by (induction s) auto

lemma summarizeTunnelBytes_line:
  "length (summarizeTunnelBytes data) \<le> 123" "char_of (10 :: nat) \<notin> set (summarizeTunnelBytes data)"
  "char_of (13 :: nat) \<notin> set (summarizeTunnelBytes data)"
proof -
  let ?r = "ReplaceAll (string_of data) [char_of (13 :: nat)] [CHR 0x5C, CHR ''r'']"
  let ?t = "ReplaceAll ?r [char_of (10 :: nat)] [CHR 0x5C, CHR ''n'']"
  have ne: "char_of (10 :: nat) \<notin> set [CHR 0x5C, CHR ''r'', CHR ''n'', CHR ''.'']" "char_of (13 :: nat) \<notin> set [CHR 0x5C, CHR ''r'', CHR ''n'', CHR ''.'']"
    "char_of (10 :: nat) \<noteq> (char_of (13 :: nat) :: char)"
    by code_simp+
  then have "char_of (10 :: nat) \<notin> set ?t" "char_of (13 :: nat) \<notin> set ?t"
    using set_ReplaceAll_one [of "string_of data" "char_of (13 :: nat)" "[CHR 0x5C, CHR ''r'']"]
      set_ReplaceAll_one [of ?r "char_of (10 :: nat)" "[CHR 0x5C, CHR ''n'']"] by auto
  then show "length (summarizeTunnelBytes data) \<le> 123" "char_of (10 :: nat) \<notin> set (summarizeTunnelBytes data)"
    "char_of (13 :: nat) \<notin> set (summarizeTunnelBytes data)"
    using ne by (auto simp: summarizeTunnelBytes_def Let_def dest: in_set_takeD)
qed

lemma cli_endpoint_same:
  "cli_writeFrame = writeFrame" "cli_readFrame = readFrame" "cli_endpoint_close = endpoint_close"
proof -
  have m: "tunnelFrameMACSize = tunnelMACSize"
    by (simp add: tunnelFrameMACSize_def tunnelMACSize_def)
  show "cli_writeFrame = writeFrame" "cli_readFrame = readFrame" "cli_endpoint_close = endpoint_close"
    by (intro ext; simp only: cli_writeFrame_def writeFrame_def cli_readFrame_def readFrame_def
        cli_endpoint_close_def endpoint_close_def m)+
qed

interpretation tframes: message_codec "frame_wire key" "frame_dec key" tunnel_fits for key
proof
  fix m r e assume "tunnel_fits m"
  then show "frame_dec key \<lparr>avail = frame_wire key m @ r, fin = e\<rparr> = (Inr m, \<lparr>avail = r, fin = e\<rparr>)"
    by (simp add: frame_dec_def newTunnelEndpoint_def readFrame_wire)
next
  fix s m s' assume "frame_dec key s = (Inr m, s')"
  then obtain ep ep' where r: "readFrame ep = (Inr m, ep')" and e: "ep_in ep = s" "macKey ep = key" "ep_in ep' = s'"
    by (auto simp: frame_dec_def newTunnelEndpoint_def split: prod.splits)
  from readFrame_InrD [OF r] e show "tunnel_fits m" "avail s = frame_wire key m @ avail s'" "fin s' = fin s"
    by simp_all
qed

text \<open>Sending several frames, stopping at the first error, and receiving them.\<close>

fun send_frames :: "tunnelEndpoint \<Rightarrow> tunnelFrame list \<Rightarrow> goerr option \<times> tunnelEndpoint" where
  "send_frames ep [] = (None, ep)"
| "send_frames ep (f # fs) =
     (case writeFrame ep f of (Some e, ep') \<Rightarrow> (Some e, ep') | (None, ep') \<Rightarrow> send_frames ep' fs)"

fun recv_frames :: "nat \<Rightarrow> tunnelEndpoint \<Rightarrow> tunnelFrame list \<times> goerr option \<times> tunnelEndpoint" where
  "recv_frames 0 ep = ([], None, ep)"
| "recv_frames (Suc n) ep =
     (case cli_readFrame ep of
        (Inl e, ep') \<Rightarrow> ([], Some e, ep')
      | (Inr f, ep') \<Rightarrow> (case recv_frames n ep' of (fs, r) \<Rightarrow> (f # fs, r)))"

lemma send_frames_ok:
  "send_frames ep fs = (None, ep') \<Longrightarrow>
     written (ep_out ep') = written (ep_out ep) @ concat (map (frame_wire (macKey ep)) fs) \<and> macKey ep' = macKey ep"
proof (induction fs arbitrary: ep)
  case (Cons f fs)
  then obtain ep1 where w: "writeFrame ep f = (None, ep1)" and s: "send_frames ep1 fs = (None, ep')"
    by (auto split: prod.splits option.splits)
  from writeFrame_okD [OF w] Cons.IH [OF s] show ?case by simp
qed simp

lemma readFrame_dec:
  "readFrame ep = (case frame_dec (macKey ep) (ep_in ep) of (r, s) \<Rightarrow> (r, ep\<lparr>ep_in := s\<rparr>))"
  by (simp add: frame_dec_def newTunnelEndpoint_def readFrame_def split: prod.splits sum.splits)

lemma recv_frames_read_msgs:
  "recv_frames n ep = (case read_msgs (frame_dec (macKey ep)) n (ep_in ep) of (fs, e, s) \<Rightarrow> (fs, e, ep\<lparr>ep_in := s\<rparr>))"
proof (induction n arbitrary: ep)
  case (Suc n)
  show ?case
    unfolding recv_frames.simps read_msgs.simps cli_endpoint_same readFrame_dec
    by (simp add: Suc.IH split: prod.splits sum.splits)
qed simp

section \<open>Properties\<close>

text \<open>
  C20. An endpoint accepts a frame exactly when its connection starts with the encoding of
  that frame (length, type, big-endian stream number, payload) followed by the HMAC-SHA256
  of type, stream number and payload under the endpoint's own key, within the frame size
  limit; it consumes exactly that encoding. Server and client read and write alike.
\<close>

theorem readFrame_authentic:
  "(readFrame ep = (Inr f, ep') \<longleftrightarrow>
     (let body = [frame_type f] @ PutUint32 (StreamID f) @ Payload f;
          raw = body @ hmac_sha256 (macKey ep) body
      in length raw \<le> unat MaxFrameSize \<and>
         avail (ep_in ep) = PutUint32 (word_of_nat (length raw)) @ raw @ avail (ep_in ep') \<and>
         fin (ep_in ep') = fin (ep_in ep) \<and> ep' = ep\<lparr>ep_in := ep_in ep'\<rparr>)) \<and>
   cli_readFrame ep = readFrame ep \<and> cli_writeFrame ep f = writeFrame ep f"
proof -
  have "readFrame ep = (Inr f, ep') \<longleftrightarrow>
      tunnel_fits f \<and> avail (ep_in ep) = frame_wire (macKey ep) f @ avail (ep_in ep') \<and>
      fin (ep_in ep') = fin (ep_in ep) \<and> ep' = ep\<lparr>ep_in := ep_in ep'\<rparr>" (is "?L \<longleftrightarrow> ?R")
  proof
    assume ?L
    from readFrame_InrD [OF this] show ?R by blast
  next
    assume R: ?R
    then have "ep\<lparr>ep_in := (ep_in ep)\<lparr>avail := avail (ep_in ep')\<rparr>\<rparr> = ep'"
      by (cases "ep_in ep"; cases "ep_in ep'") simp
    with R readFrame_wire [of f ep "avail (ep_in ep')"] show ?L by simp
  qed
  then show ?thesis
    by (simp add: cli_endpoint_same frame_wire_def frame_body_def Let_def add.commute add.left_commute)
qed

text \<open>
  The frames one endpoint sends are the frames the other endpoint receives, when both
  hold the same key: all of them, in order, when the whole byte stream arrives, and a prefix
  of them wherever the stream is cut.
\<close>

theorem tunnel_frames_delivered:
  assumes "send_frames ep fs = (None, ep')"
    and "list_all (\<lambda>f. length (Payload f) + 37 \<le> unat MaxFrameSize) fs"
    and "macKey peer = macKey ep"
  shows "\<exists>wire. written (ep_out ep') = written (ep_out ep) @ wire \<and>
     fst (recv_frames (length fs) (peer\<lparr>ep_in := \<lparr>avail = wire, fin = e\<rparr>\<rparr>)) = fs \<and>
     (\<forall>cut n. prefix cut wire \<longrightarrow> prefix (fst (recv_frames n (peer\<lparr>ep_in := \<lparr>avail = cut, fin = e\<rparr>\<rparr>))) fs)"
proof -
  let ?w = "concat (map (frame_wire (macKey ep)) fs)"
  have "written (ep_out ep') = written (ep_out ep) @ ?w"
    using send_frames_ok [OF assms(1)] by simp
  moreover have "fst (recv_frames (length fs) (peer\<lparr>ep_in := \<lparr>avail = ?w, fin = e\<rparr>\<rparr>)) = fs"
    using tframes.read_msgs_concat [OF assms(2), of "macKey ep" "[]" e] assms(3)
    by (simp add: recv_frames_read_msgs)
  moreover have "prefix (fst (recv_frames n (peer\<lparr>ep_in := \<lparr>avail = cut, fin = e\<rparr>\<rparr>))) fs" if "prefix cut ?w" for cut n
  proof -
    have "\<forall>m. tunnel_fits m \<longrightarrow> frame_wire (macKey ep) m \<noteq> []"
      by (simp add: frame_wire_def PutUint32_def)
    from tframes.read_msgs_prefix [OF assms(2) this, of "\<lparr>avail = cut, fin = e\<rparr>" n] that assms(3) show ?thesis
      by (simp add: recv_frames_read_msgs split: prod.splits)
  qed
  ultimately show ?thesis by blast
qed

theorem tunnel_frames_delivered_witness:
  "\<exists>ep'. send_frames (newTunnelEndpoint \<lparr>avail = [], fin = EOF\<rparr> \<lparr>written = [], room = None, werr = EOF, dead = False\<rparr> [1])
      [\<lparr>frame_type = 3, StreamID = 7, Payload = [42]\<rparr>, \<lparr>frame_type = 4, StreamID = 7, Payload = []\<rparr>] = (None, ep') \<and>
    (\<exists>wire. written (ep_out ep') = wire \<and>
       fst (recv_frames 2 ((newTunnelEndpoint \<lparr>avail = [], fin = EOF\<rparr>
              \<lparr>written = [], room = None, werr = EOF, dead = False\<rparr> [1])\<lparr>ep_in := \<lparr>avail = wire, fin = EOF\<rparr>\<rparr>))
         = [\<lparr>frame_type = 3, StreamID = 7, Payload = [42]\<rparr>, \<lparr>frame_type = 4, StreamID = 7, Payload = []\<rparr>])"
proof -
  let ?ep = "newTunnelEndpoint \<lparr>avail = [], fin = EOF\<rparr> \<lparr>written = [], room = None, werr = EOF, dead = False\<rparr> [1]"
  let ?fs = "[\<lparr>frame_type = 3, StreamID = 7, Payload = [42]\<rparr>, \<lparr>frame_type = 4, StreamID = 7, Payload = []\<rparr>]"
  obtain ep' where s: "send_frames ?ep ?fs = (None, ep')"
    by (simp add: newTunnelEndpoint_def writeFrame_eq WriteFrame_unbounded)
  have "written (ep_out ?ep) = []" by (simp add: newTunnelEndpoint_def)
  with tunnel_frames_delivered [OF s, of ?ep EOF] s show ?thesis
    by (auto simp: numeral_2_eq_2)
qed

end
