(* ===== verification/Tunnel.thy ===== *)
theory Tunnel
  imports Uri TunnelFrame
begin

text \<open>
  Negotiation of browser tunnels, \<^verbatim>\<open>server/tunnel.go\<close>: which URLs and targets are allowed,
  how listeners are bound on loopback addresses, how the URL given to the browser is
  rewritten to the addresses really bound, and the session table with \<^verbatim>\<open>Open\<close> and
  \<^verbatim>\<open>closeSession\<close>.
\<close>

section \<open>Requests and responses\<close>

definition DefaultConnectTimeout :: int where "DefaultConnectTimeout = 10 * 10 ^ 9"
definition DefaultIOTimeout :: int where "DefaultIOTimeout = 30 * 10 ^ 9"
definition DefaultTunnelAttachTimeout :: int where "DefaultTunnelAttachTimeout = DefaultConnectTimeout"
definition DefaultTunnelIdleTimeout :: int where "DefaultTunnelIdleTimeout = DefaultIOTimeout"

record TunnelTarget =
  ListenHost :: gostring
  ListenPort :: int
  DialAddr :: gostring

record TunnelOpenRequest =
  req_URL :: gostring
  req_Targets :: "TunnelTarget list"
  req_MACKey :: bytes
  req_AttachTimeout :: int
  req_IdleTimeout :: int

record TunnelOpenResponse =
  SessionID :: gostring
  OpenURL :: gostring
  resp_ListenPort :: int
  ListenAddrs :: "gostring list"
  AttachTimeout :: int
  IdleTimeout :: int

section \<open>URLs and targets\<close>

definition isLoopbackTunnelHost :: "gostring \<Rightarrow> bool" where
  "isLoopbackTunnelHost host0 =
     (let host = TrimSuffix (ToLower host0) ''.''
      in if host = ''localhost'' then True
         else case ParseIP host of Some ip \<Rightarrow> IP_IsLoopback ip | None \<Rightarrow> False)"

definition ParseTunnelURL :: "gostring \<Rightarrow> url res" where
  "ParseTunnelURL raw =
     (case ParseRequestURI raw of
        Inl err \<Rightarrow> Inl (Wrapf ''invalid tunnel target: '' err)
      | Inr parsed \<Rightarrow>
          if Host parsed = [] then Inl (Errorf ''tunnel target must be an absolute URL'')
          else (let scheme = ToLower (Scheme parsed)
                in if scheme \<noteq> ''http'' \<and> scheme \<noteq> ''https''
                   then Inl (Errorf ''tunnel target must use http or https'')
                   else if \<not> isLoopbackTunnelHost (Hostname parsed)
                   then Inl (Errorf ''tunnel target must use localhost or a loopback address'')
                   else Inr parsed))"

definition tunnelEffectivePort :: "url \<Rightarrow> int res" where
  "tunnelEffectivePort parsed =
     (if Port parsed \<noteq> [] then
        (case Atoi (Port parsed) of
           Inl err \<Rightarrow> Inl (Errorf (''tunnel target port '' @ Quote (Port parsed) @ '' is invalid''))
         | Inr n \<Rightarrow>
             if n < 1 \<or> n > 65535
             then Inl (Errorf (''tunnel target port '' @ Quote (Port parsed) @ '' is invalid''))
             else Inr n)
      else if ToLower (Scheme parsed) = ''http'' then Inr 80
      else if ToLower (Scheme parsed) = ''https'' then Inr 443
      else Inl (Errorf ''tunnel target must use http or https''))"

definition isLoopbackTunnelURL :: "url \<Rightarrow> bool" where
  "isLoopbackTunnelURL parsed =
     (let scheme = ToLower (Scheme parsed)
      in if scheme \<noteq> ''http'' \<and> scheme \<noteq> ''https'' then False
         else isLoopbackTunnelHost (Hostname parsed))"

definition loopback_error :: goerr where
  "loopback_error = Errorf ''tunnel target must use localhost or a loopback address''"

definition validateTunnelTarget :: "TunnelTarget \<Rightarrow> goerr option" where
  "validateTunnelTarget target =
     (if ListenPort target < 1 \<or> ListenPort target > 65535
      then Some (Errorf (''tunnel target port '' @ Itoa (ListenPort target) @ '' is invalid''))
      else case SplitHostPort (DialAddr target) of
             Inl err \<Rightarrow> Some (Wrapf (''tunnel dial address '' @ Quote (DialAddr target) @ '' is invalid: '') err)
           | Inr _ \<Rightarrow>
               if \<not> isLoopbackTunnelHost (ListenHost target) then Some loopback_error else None)"

text \<open>A \<^verbatim>\<open>net.TCPAddr\<close> without a zone.\<close>

record tcpaddr =
  addr_IP :: bytes
  addr_Port :: int

definition tcpaddr_String :: "tcpaddr \<Rightarrow> gostring" where
  "tcpaddr_String a = JoinHostPort (IP_String (addr_IP a)) (Itoa (addr_Port a))"

definition tunnelListenTargets :: "gostring \<Rightarrow> int \<Rightarrow> tcpaddr list res" where
  "tunnelListenTargets host0 port =
     (let host = TrimSuffix (ToLower host0) ''.''
      in if host = ''localhost''
         then Inr [\<lparr>addr_IP = the (ParseIP ''127.0.0.1''), addr_Port = port\<rparr>,
                   \<lparr>addr_IP = the (ParseIP ''::1''), addr_Port = port\<rparr>]
         else case ParseIP host of
                None \<Rightarrow> Inl loopback_error
              | Some ip \<Rightarrow>
                  if \<not> IP_IsLoopback ip then Inl loopback_error
                  else Inr [\<lparr>addr_IP = ip, addr_Port = port\<rparr>])"

section \<open>Listening sockets\<close>

text \<open>
  The operating system's side of \<^verbatim>\<open>net.ListenTCP\<close>: the addresses bound and the socket that
  holds each, an address the system refuses for its own reasons, and the port it picks for
  a bind to port 0. An IPv4 address is held in four bytes once bound, as the system
  reports it.
\<close>

record netstate =
  bound :: "tcpaddr \<rightharpoonup> nat"
  next_sock :: nat
  bind_fault :: "tcpaddr \<rightharpoonup> goerr"
  pick_port :: "(tcpaddr \<rightharpoonup> nat) \<Rightarrow> bytes \<Rightarrow> int option"

definition sock_IP :: "bytes \<Rightarrow> bytes" where
  "sock_IP ip = (case IP_To4 ip of Some b \<Rightarrow> b | None \<Rightarrow> ip)"

definition listenTCP :: "netstate \<Rightarrow> tcpaddr \<Rightarrow> (nat \<times> tcpaddr) res \<times> netstate" where
  "listenTCP ns a =
     (let ip = sock_IP (addr_IP a); err = Wrapf (''listen tcp '' @ tcpaddr_String a @ '': bind: '')
      in case bind_fault ns \<lparr>addr_IP = ip, addr_Port = addr_Port a\<rparr> of
           Some e \<Rightarrow> (Inl (err e), ns)
         | None \<Rightarrow>
             (case (if addr_Port a = 0 then pick_port ns (bound ns) ip else Some (addr_Port a)) of
                None \<Rightarrow> (Inl (err EADDRINUSE), ns)
              | Some p \<Rightarrow>
                  (let la = \<lparr>addr_IP = ip, addr_Port = p\<rparr>
                   in if bound ns la \<noteq> None then (Inl (err EADDRINUSE), ns)
                      else (Inr (next_sock ns, la),
                            ns\<lparr>bound := (bound ns)(la \<mapsto> next_sock ns), next_sock := next_sock ns + 1\<rparr>))))"

definition sock_Close :: "netstate \<Rightarrow> nat \<Rightarrow> netstate" where
  "sock_Close ns k = ns\<lparr>bound := (\<lambda>a. if bound ns a = Some k then None else bound ns a)\<rparr>"

section \<open>Binding the listeners of a session\<close>

record tunnelListener =
  listener :: nat
  laddr :: tcpaddr
  addr :: gostring
  dialAddr :: gostring
  fallback :: bool

text \<open>
  The functions take the tunnel's \<^verbatim>\<open>listenTCP\<close> field as an argument, which \<^verbatim>\<open>NewTunnel\<close> sets
  to \<^verbatim>\<open>net.ListenTCP\<close>.
\<close>

type_synonym 'n listen_fun = "'n \<Rightarrow> tcpaddr \<Rightarrow> (nat \<times> tcpaddr) res \<times> 'n"

definition listenTunnelAddr :: "'n listen_fun \<Rightarrow> 'n \<Rightarrow> tcpaddr \<Rightarrow> (nat \<times> tcpaddr \<times> bool) res \<times> 'n" where
  "listenTunnelAddr listen ns a =
     (case listen ns a of
        (Inr (k, la), ns1) \<Rightarrow> (Inr (k, la, False), ns1)
      | (Inl err, ns1) \<Rightarrow>
          if addr_Port a = 0 \<or> \<not> errors_Is err EADDRINUSE then (Inl err, ns1)
          else (case listen ns1 (a\<lparr>addr_Port := 0\<rparr>) of
                  (Inl fallbackErr, ns2) \<Rightarrow> (Inl (Joined [err, fallbackErr]), ns2)
                | (Inr (k, la), ns2) \<Rightarrow> (Inr (k, la, True), ns2)))"

fun bind_addrs ::
    "'n listen_fun \<Rightarrow> 'n \<Rightarrow> gostring \<Rightarrow> tcpaddr list \<Rightarrow> tunnelListener list \<times> goerr list \<times> 'n" where
  "bind_addrs listen ns dial [] = ([], [], ns)"
| "bind_addrs listen ns dial (a # as) =
     (case listenTunnelAddr listen ns a of
        (Inl err, ns1) \<Rightarrow>
          (case bind_addrs listen ns1 dial as of
             (ls, es, ns2) \<Rightarrow> (ls, Wrapf (tcpaddr_String a @ '': '') err # es, ns2))
      | (Inr (k, la, fb), ns1) \<Rightarrow>
          (case bind_addrs listen ns1 dial as of
             (ls, es, ns2) \<Rightarrow>
               (\<lparr>listener = k, laddr = la, addr = tcpaddr_String la, dialAddr = dial, fallback = fb\<rparr> # ls, es, ns2)))"

fun bind_targets :: "'n listen_fun \<Rightarrow> 'n \<Rightarrow> TunnelTarget list \<Rightarrow> tunnelListener list \<times> goerr list \<times> 'n" where
  "bind_targets listen ns [] = ([], [], ns)"
| "bind_targets listen ns (target # ts) =
     (case validateTunnelTarget target of
        Some err \<Rightarrow> (case bind_targets listen ns ts of (ls, es, ns2) \<Rightarrow> (ls, err # es, ns2))
      | None \<Rightarrow>
          (case tunnelListenTargets (ListenHost target) (ListenPort target) of
             Inl err \<Rightarrow> (case bind_targets listen ns ts of (ls, es, ns2) \<Rightarrow> (ls, err # es, ns2))
           | Inr addrs \<Rightarrow>
               (case bind_addrs listen ns (DialAddr target) addrs of
                  (ls1, es1, ns1) \<Rightarrow>
                    (case bind_targets listen ns1 ts of (ls2, es2, ns2) \<Rightarrow> (ls1 @ ls2, es1 @ es2, ns2)))))"

definition bindListeners ::
    "'n listen_fun \<Rightarrow> 'n \<Rightarrow> TunnelTarget list \<Rightarrow> (tunnelListener list \<times> gostring list) res \<times> 'n" where
  "bindListeners listen ns targets =
     (if targets = [] then (Inl (Errorf ''tunnel targets are required''), ns)
      else case bind_targets listen ns targets of
             (ls, es, ns1) \<Rightarrow>
               if ls = [] then (Inl (Wrapf ''unable to reserve tunnel listeners: '' (Joined es)), ns1)
               else (Inr (ls, map addr ls), ns1))"

section \<open>The URL for the browser\<close>

definition tunnelListenersUseFallback :: "tunnelListener list \<Rightarrow> bool" where
  "tunnelListenersUseFallback ls = list_ex fallback ls"

definition tunnelListenersNeedSingleStackRewrite :: "url \<Rightarrow> tunnelListener list \<Rightarrow> bool" where
  "tunnelListenersNeedSingleStackRewrite parsed ls =
     (if \<not> isLoopbackTunnelURL parsed \<or> \<not> EqualFold (Hostname parsed) ''localhost'' then False
      else if length ls \<noteq> 1 then False
      else IP_IsLoopback (addr_IP (laddr (hd ls))))"

definition rewriteTunnelOpenURL :: "url \<Rightarrow> tunnelListener list \<Rightarrow> gostring" where
  "rewriteTunnelOpenURL parsed ls =
     (if ls = [] then url_String parsed
      else if \<not> tunnelListenersUseFallback ls \<and> \<not> tunnelListenersNeedSingleStackRewrite parsed ls
      then url_String parsed
      else
        (let actualAddr = laddr (hd ls);
             actualHostPort = JoinHostPort (IP_String (addr_IP actualAddr)) (Itoa (addr_Port actualAddr))
         in if isLoopbackTunnelURL parsed then url_String (parsed\<lparr>Host := actualHostPort\<rparr>)
            else
              (let redirectValue = Query_Get (Query parsed) ''redirect_uri''
               in if redirectValue = [] then url_String parsed
                  else (case ParseTunnelURL redirectValue of
                          Inl err \<Rightarrow> url_String parsed
                        | Inr redirectURL \<Rightarrow>
                            (let redirectURL = redirectURL\<lparr>Host := actualHostPort\<rparr>;
                                 query = Query_Set (Query parsed) ''redirect_uri'' (url_String redirectURL)
                             in url_String (parsed\<lparr>RawQuery := Query_Encode query\<rparr>))))))"

section \<open>Sessions\<close>

text \<open>
  A browser connection: what the browser sends, what has been written to it, and whether
  it has been closed on this side, for writing or altogether.
\<close>

record bconn =
  b_in :: stream
  b_out :: sink
  b_closed :: bool

definition bconn_Close :: "bconn \<Rightarrow> bconn" where
  "bconn_Close c =
     c\<lparr>b_in := \<lparr>avail = [], fin = OpErrClosed\<rparr>,
       b_out := (b_out c)\<lparr>dead := True, werr := OpErrClosed\<rparr>, b_closed := True\<rparr>"

definition bconn_CloseWrite :: "bconn \<Rightarrow> bconn" where
  "bconn_CloseWrite c =
     (if b_closed c then c else c\<lparr>b_out := (b_out c)\<lparr>dead := True, werr := OsErr ''broken pipe''\<rparr>\<rparr>)"

definition bconn_Write :: "bconn \<Rightarrow> bytes \<Rightarrow> goerr option \<times> bconn" where
  "bconn_Write c p = (case Write p (b_out c) of (r, w) \<Rightarrow> (r, c\<lparr>b_out := w\<rparr>))"

text \<open>
  \<^verbatim>\<open>Read\<close> into a buffer of which the system fills at most \<open>k\<close> bytes: some bytes and no
  error, or no bytes and the error that ended the connection.
\<close>

definition bconn_Read :: "nat \<Rightarrow> bconn \<Rightarrow> bytes \<times> goerr option \<times> bconn" where
  "bconn_Read k c =
     (let s = b_in c
      in if avail s = [] then ([], Some (fin s), c)
         else (take k (avail s), None, c\<lparr>b_in := s\<lparr>avail := drop k (avail s)\<rparr>\<rparr>))"

text \<open>
  Streams and sessions are objects behind pointers; the pointers are natural numbers into
  the two heaps of the tunnel state. A timer is absent (nil), stopped, or armed with its
  deadline; a \<^verbatim>\<open>sync.Once\<close> or a channel that is only ever closed is a flag; the reason
  for closing is kept as a value, which the code renders for its log.
\<close>

record tunnelStream =
  st_id :: u32
  st_session :: nat
  browser :: bconn
  loggedIn :: bool
  loggedOut :: bool
  bytesIn :: "64 word"
  bytesOut :: "64 word"
  st_closed :: bool

datatype timer = Stopped | Armed int

datatype reason =
    NoReason
  | AttachTimedOut int
  | IdleTimedOut int
  | AttachInvalid
  | BrowserOpenFailed goerr
  | PeerReadFailed goerr
  | UnknownFrameType tunnelFrameType

record tunnelSession =
  sess_id :: gostring
  sess_url :: url
  openURL :: gostring
  listenAddrs :: "gostring list"
  listeners :: "tunnelListener list"
  attachTimer :: "timer option"
  idleTimer :: "timer option"
  closeReason :: reason
  attachTO :: int
  idleTO :: int
  createdAt :: int
  sess_macKey :: bytes
  peerReady :: bool
  launched :: bool
  peer :: "tunnelEndpoint option"
  streams :: "(u32 \<times> nat) list"
  nextStreamID :: u32
  sess_closed :: bool

text \<open>
  The goroutines the code starts: a listener waiting in \<^verbatim>\<open>AcceptTCP\<close>, the same one holding
  an accepted connection until the peer is ready, the copier of one stream, and the reader
  of the peer's frames.
\<close>

datatype task =
    Accepting nat tunnelListener
  | AwaitPeer nat tunnelListener bconn
  | Piping nat nat
  | ReadingPeer nat

record tunnel =
  sessions :: "gostring \<rightharpoonup> nat"
  sess :: "nat \<rightharpoonup> tunnelSession"
  strm :: "nat \<rightharpoonup> tunnelStream"
  next_ptr :: nat
  net :: netstate
  now :: int
  opened :: "(nat \<times> gostring) list"
  tasks :: "task set"

definition NewTunnel :: "netstate \<Rightarrow> int \<Rightarrow> tunnel" where
  "NewTunnel ns time =
     \<lparr>sessions = Map.empty, sess = Map.empty, strm = Map.empty, next_ptr = 0, net = ns, now = time,
      opened = [], tasks = {}\<rparr>"

definition stream_close :: "tunnelStream \<Rightarrow> tunnelStream" where
  "stream_close s = (if st_closed s then s else s\<lparr>browser := bconn_Close (browser s), st_closed := True\<rparr>)"

definition stop_timer :: "timer option \<Rightarrow> timer option" where
  "stop_timer t = map_option (\<lambda>_. Stopped) t"

definition startIdleTimer :: "int \<Rightarrow> tunnelSession \<Rightarrow> tunnelSession" where
  "startIdleTimer time s =
     (if idleTO s \<le> 0 then s else s\<lparr>idleTimer := Some (Armed (time + idleTO s))\<rparr>)"

definition touch :: "int \<Rightarrow> tunnelSession \<Rightarrow> tunnelSession" where
  "touch time s =
     (if idleTO s \<le> 0 then s
      else if idleTimer s \<noteq> None then s\<lparr>idleTimer := Some (Armed (time + idleTO s))\<rparr> else s)"

definition markPeerReady :: "tunnelSession \<Rightarrow> tunnelSession" where
  "markPeerReady s = s\<lparr>peerReady := True\<rparr>"

definition close_streams :: "nat list \<Rightarrow> (nat \<rightharpoonup> tunnelStream) \<Rightarrow> (nat \<rightharpoonup> tunnelStream)" where
  "close_streams qs h = foldl (\<lambda>h q. h(q := map_option stream_close (h q))) h qs"

definition session_close :: "nat \<Rightarrow> tunnel \<Rightarrow> tunnel" where
  "session_close p t =
     (case sess t p of
        None \<Rightarrow> t
      | Some s \<Rightarrow>
          if sess_closed s then t
          else t\<lparr>net := foldl sock_Close (net t) (map listener (listeners s)),
                 strm := close_streams (map snd (streams s)) (strm t),
                 sess := (sess t)(p \<mapsto> s\<lparr>attachTimer := stop_timer (attachTimer s),
                                        idleTimer := stop_timer (idleTimer s),
                                        peer := map_option endpoint_close (peer s),
                                        sess_closed := True\<rparr>)\<rparr>)"

definition closeSession :: "gostring \<Rightarrow> tunnel \<Rightarrow> tunnel" where
  "closeSession sid t =
     (case sessions t sid of
        None \<Rightarrow> t
      | Some p \<Rightarrow> session_close p (t\<lparr>sessions := (sessions t)(sid := None)\<rparr>))"

definition randomTunnelSessionID :: "bytes res \<Rightarrow> gostring res" where
  "randomTunnelSessionID raw = (case raw of Inl err \<Rightarrow> Inl err | Inr r \<Rightarrow> Inr (hex_EncodeToString r))"

definition nextID :: "tunnelSession \<Rightarrow> u32 \<times> tunnelSession" where
  "nextID s = (nextStreamID s + 1, s\<lparr>nextStreamID := nextStreamID s + 1\<rparr>)"

section \<open>Opening a session\<close>

definition request_attachTimeout :: "TunnelOpenRequest \<Rightarrow> int" where
  "request_attachTimeout req =
     (if req_AttachTimeout req \<le> 0 then DefaultTunnelAttachTimeout else req_AttachTimeout req)"

definition request_idleTimeout :: "TunnelOpenRequest \<Rightarrow> int" where
  "request_idleTimeout req =
     (if req_IdleTimeout req \<le> 0 then DefaultTunnelIdleTimeout else req_IdleTimeout req)"

text \<open>The session \<^verbatim>\<open>Open\<close> builds, with both timers started.\<close>

definition new_session ::
    "int \<Rightarrow> gostring \<Rightarrow> url \<Rightarrow> tunnelListener list \<Rightarrow> gostring list \<Rightarrow> TunnelOpenRequest \<Rightarrow> tunnelSession" where
  "new_session time sid parsed targets addrs req =
     startIdleTimer time
       \<lparr>sess_id = sid, sess_url = parsed, openURL = rewriteTunnelOpenURL parsed targets,
        listenAddrs = addrs, listeners = targets,
        attachTimer = Some (Armed (time + request_attachTimeout req)), idleTimer = None,
        closeReason = NoReason, attachTO = request_attachTimeout req, idleTO = request_idleTimeout req,
        createdAt = time, sess_macKey = req_MACKey req, peerReady = False,
        launched = False, peer = None, streams = [], nextStreamID = 0, sess_closed = False\<rparr>"

text \<open>\<open>newID\<close> is what \<^verbatim>\<open>t.newSessionID()\<close> returns.\<close>

definition Tunnel_Open ::
    "gostring res \<Rightarrow> TunnelOpenRequest \<Rightarrow> tunnel \<Rightarrow> TunnelOpenResponse res \<times> tunnel" where
  "Tunnel_Open newID req t =
     (case ParseOpenURI (req_URL req) of
        Inl err \<Rightarrow> (Inl err, t)
      | Inr parsed \<Rightarrow>
          if req_Targets req = [] then (Inl (Errorf ''tunnel targets are required''), t)
          else
            (case newID of
               Inl err \<Rightarrow> (Inl (Wrapf ''unable to create tunnel session id: '' err), t)
             | Inr sid \<Rightarrow>
                 (case bindListeners listenTCP (net t) (req_Targets req) of
                    (Inl err, ns) \<Rightarrow> (Inl err, t\<lparr>net := ns\<rparr>)
                  | (Inr (targets, addrs), ns) \<Rightarrow>
                      if length (req_MACKey req) \<noteq> tunnelMACKeySize
                      then (Inl (Errorf (''tunnel MAC key must be '' @ nat_itoa tunnelMACKeySize @ '' bytes'')),
                            t\<lparr>net := foldl sock_Close ns (map listener targets)\<rparr>)
                      else
                        (let p = next_ptr t;
                             session = new_session (now t) sid parsed targets addrs req
                         in (Inr \<lparr>SessionID = sid, OpenURL = openURL session,
                                  resp_ListenPort = (if targets = [] then 0 else addr_Port (laddr (hd targets))),
                                  ListenAddrs = listenAddrs session,
                                  AttachTimeout = attachTO session, IdleTimeout = idleTO session\<rparr>,
                             t\<lparr>net := ns, sess := (sess t)(p \<mapsto> session), next_ptr := p + 1,
                               sessions := (sessions t)(sid \<mapsto> p),
                               tasks := tasks t \<union> (\<lambda>l. Accepting p l) ` set targets\<rparr>)))))"

section \<open>Loopback addresses\<close>

lemma loopback_literals:
  "\<exists>ip. ParseIP ''127.0.0.1'' = Some ip \<and> IP_IsLoopback ip" "\<exists>ip. ParseIP ''::1'' = Some ip \<and> IP_IsLoopback ip"
proof -
  have ex: "\<exists>ip. x = Some ip \<and> IP_IsLoopback ip" if "(case x of None \<Rightarrow> False | Some ip \<Rightarrow> IP_IsLoopback ip)" for x
    using that by (cases x) auto
  show "\<exists>ip. ParseIP ''127.0.0.1'' = Some ip \<and> IP_IsLoopback ip" by (rule ex) code_simp
  show "\<exists>ip. ParseIP ''::1'' = Some ip \<and> IP_IsLoopback ip" by (rule ex) code_simp
qed

lemma IP_IsLoopback_sock [simp]: "IP_IsLoopback (sock_IP ip) = IP_IsLoopback ip"
  by (auto simp: sock_IP_def IP_IsLoopback_def IP_To4_def split: option.splits if_splits)

text \<open>The validator and the binder agree on which hosts are loopback hosts.\<close>

lemma tunnelListenTargets_iff:
  "isLoopbackTunnelHost h \<longleftrightarrow> (\<exists>addrs. tunnelListenTargets h port = Inr addrs)"
  by (auto simp: isLoopbackTunnelHost_def tunnelListenTargets_def Let_def split: option.splits)

lemma tunnelListenTargets_loopback:
  assumes "tunnelListenTargets h port = Inr addrs" and "a \<in> set addrs"
  shows "IP_IsLoopback (addr_IP a) \<and> addr_Port a = port"
  using assms loopback_literals
  by (auto simp: tunnelListenTargets_def Let_def split: if_splits option.splits)

section \<open>The socket layer\<close>

text \<open>
  What binding the listeners needs of the socket layer: a successful bind takes a free
  address for a socket never used before, on the requested IP address and, unless it is 0,
  the requested port; a failed one changes nothing; closing a socket frees its addresses.
\<close>

locale tcp_stack =
  fixes listen :: "'n listen_fun"
    and close_sock :: "'n \<Rightarrow> nat \<Rightarrow> 'n"
    and held :: "'n \<Rightarrow> tcpaddr \<rightharpoonup> nat"
    and used :: "'n \<Rightarrow> nat set"
    and ok :: "'n \<Rightarrow> bool"
  assumes listen_Inr: "ok ns \<Longrightarrow> listen ns a = (Inr (k, la), ns') \<Longrightarrow>
        ok ns' \<and> k \<notin> used ns \<and> used ns' = insert k (used ns) \<and> held ns la = None \<and> held ns' = (held ns)(la \<mapsto> k) \<and>
        addr_IP la = sock_IP (addr_IP a) \<and> (addr_Port a \<noteq> 0 \<longrightarrow> addr_Port la = addr_Port a)"
    and listen_Inl: "ok ns \<Longrightarrow> listen ns a = (Inl e, ns') \<Longrightarrow> ok ns' \<and> held ns' = held ns \<and> used ns' = used ns"
    and held_used: "ok ns \<Longrightarrow> ran (held ns) \<subseteq> used ns"
    and close_held: "held (close_sock ns k) = (\<lambda>a. if held ns a = Some k then None else held ns a)"
    and close_used: "used (close_sock ns k) = used ns"
    and close_ok: "ok ns \<Longrightarrow> ok (close_sock ns k)"

text \<open>The listeners \<open>ls\<close> are exactly what was bound between two states.\<close>

definition bound_by ::
    "('n \<Rightarrow> tcpaddr \<rightharpoonup> nat) \<Rightarrow> ('n \<Rightarrow> nat set) \<Rightarrow> 'n \<Rightarrow> tunnelListener list \<Rightarrow> 'n \<Rightarrow> bool" where
  "bound_by held used ns ls ns' \<longleftrightarrow>
     (\<forall>l \<in> set ls. held ns' (laddr l) = Some (listener l) \<and> listener l \<notin> used ns \<and> held ns (laddr l) = None) \<and>
     (\<forall>a. held ns' a \<noteq> held ns a \<longrightarrow> (\<exists>l \<in> set ls. a = laddr l)) \<and> used ns' = used ns \<union> listener ` set ls"

lemma bound_by_trans:
  assumes "bound_by held used ns ls1 ns1" and "bound_by held used ns1 ls2 ns2"
  shows "bound_by held used ns (ls1 @ ls2) ns2"
proof -
  have keep: "held ns2 a = held ns1 a" if "held ns1 a \<noteq> None" for a
    using assms(2) that unfolding bound_by_def by metis
  have keep0: "held ns1 a = held ns a" if "held ns a \<noteq> None" for a
    using assms(1) that unfolding bound_by_def by metis
  have u: "used ns1 = used ns \<union> listener ` set ls1" "used ns2 = used ns1 \<union> listener ` set ls2"
    using assms by (simp_all add: bound_by_def)
  have "held ns2 (laddr l) = Some (listener l) \<and> listener l \<notin> used ns \<and> held ns (laddr l) = None"
    if "l \<in> set ls1 \<or> l \<in> set ls2" for l
    using that
  proof
    assume "l \<in> set ls1"
    then show ?thesis using assms(1) keep unfolding bound_by_def by simp
  next
    assume "l \<in> set ls2"
    then have l: "held ns2 (laddr l) = Some (listener l)" "listener l \<notin> used ns1" "held ns1 (laddr l) = None"
      using assms(2) unfolding bound_by_def by simp_all
    moreover have "held ns (laddr l) = None"
      using l(3) keep0 by metis
    ultimately show ?thesis using u by auto
  qed
  moreover have "\<exists>l \<in> set (ls1 @ ls2). a = laddr l" if "held ns2 a \<noteq> held ns a" for a
    using that assms unfolding bound_by_def by (metis Un_iff set_append)
  ultimately show ?thesis
    unfolding bound_by_def using u by (auto simp: image_Un)
qed

context tcp_stack
begin

lemma listenTunnelAddr_bound:
  assumes "ok ns" and "listenTunnelAddr listen ns a = (r, ns')"
  shows "ok ns' \<and> (case r of
      Inl e \<Rightarrow> held ns' = held ns \<and> used ns' = used ns
    | Inr (k, la, fb) \<Rightarrow>
        k \<notin> used ns \<and> used ns' = insert k (used ns) \<and> held ns la = None \<and> held ns' = (held ns)(la \<mapsto> k) \<and>
        addr_IP la = sock_IP (addr_IP a) \<and> (\<not> fb \<and> addr_Port a \<noteq> 0 \<longrightarrow> addr_Port la = addr_Port a))"
proof (cases "listen ns a")
  case (Pair r1 ns1)
  show ?thesis
  proof (cases r1)
    case (Inr kla)
    obtain k la where [simp]: "kla = (k, la)" by (cases kla)
    have "r = Inr (k, la, False)" and "ns' = ns1"
      using assms(2) Pair Inr by (simp_all add: listenTunnelAddr_def)
    then show ?thesis
      using listen_Inr [OF assms(1), of a k la ns1] Pair Inr by simp
  next
    case (Inl e)
    have n1: "ok ns1" "held ns1 = held ns" "used ns1 = used ns"
      using listen_Inl [OF assms(1), of a e ns1] Pair Inl by simp_all
    show ?thesis
    proof (cases "addr_Port a = 0 \<or> \<not> errors_Is e EADDRINUSE")
      case True
      then have "r = Inl e" "ns' = ns1"
        using assms(2) Pair Inl by (auto simp: listenTunnelAddr_def)
      with n1 show ?thesis by simp
    next
      case False
      then show ?thesis
        using assms(2) Pair Inl n1 listen_Inr [OF n1(1), of "a\<lparr>addr_Port := 0\<rparr>"]
          listen_Inl [OF n1(1), of "a\<lparr>addr_Port := 0\<rparr>"]
        by (auto simp: listenTunnelAddr_def split: prod.splits sum.splits)
    qed
  qed
qed

lemma bind_addrs_bound:
  assumes "ok ns" and "bind_addrs listen ns dial as = (ls, es, ns')"
  shows "ok ns' \<and> bound_by held used ns ls ns' \<and>
     (\<forall>l \<in> set ls. dialAddr l = dial \<and> addr l = tcpaddr_String (laddr l) \<and>
        (\<exists>a \<in> set as. addr_IP (laddr l) = sock_IP (addr_IP a) \<and>
           (\<not> fallback l \<and> addr_Port a \<noteq> 0 \<longrightarrow> addr_Port (laddr l) = addr_Port a)))"
  using assms
proof (induction as arbitrary: ns ls es ns')
  case Nil
  then show ?case by (simp add: bound_by_def)
next
  case (Cons a as)
  obtain r ns1 where r: "listenTunnelAddr listen ns a = (r, ns1)" by fastforce
  note l1 = listenTunnelAddr_bound [OF Cons.prems(1) r]
  obtain ls2 es2 ns2 where rest: "bind_addrs listen ns1 dial as = (ls2, es2, ns2)" by (metis prod_cases3)
  have ih: "ok ns2 \<and> bound_by held used ns1 ls2 ns2 \<and>
     (\<forall>l \<in> set ls2. dialAddr l = dial \<and> addr l = tcpaddr_String (laddr l) \<and>
        (\<exists>a \<in> set as. addr_IP (laddr l) = sock_IP (addr_IP a) \<and>
           (\<not> fallback l \<and> addr_Port a \<noteq> 0 \<longrightarrow> addr_Port (laddr l) = addr_Port a)))"
    using Cons.IH [OF _ rest] l1 by blast
  show ?case
  proof (cases r)
    case (Inl e)
    with Cons.prems(2) r rest have "ls = ls2" "ns' = ns2" by auto
    moreover have "bound_by held used ns ls2 ns2"
      using ih l1 Inl by (simp add: bound_by_def)
    ultimately show ?thesis using ih by auto
  next
    case (Inr klf)
    obtain k la fb where [simp]: "klf = (k, la, fb)" by (cases klf)
    let ?l = "\<lparr>listener = k, laddr = la, addr = tcpaddr_String la, dialAddr = dial, fallback = fb\<rparr>"
    have ls: "ls = [?l] @ ls2" "ns' = ns2"
      using Cons.prems(2) r rest Inr by auto
    have "bound_by held used ns [?l] ns1"
      using l1 Inr by (auto simp: bound_by_def)
    from bound_by_trans [OF this] ih have "bound_by held used ns ([?l] @ ls2) ns2" by blast
    with ih l1 Inr show ?thesis unfolding ls by auto
  qed
qed

lemma bind_targets_bound:
  assumes "ok ns" and "bind_targets listen ns ts = (ls, es, ns')"
  shows "ok ns' \<and> bound_by held used ns ls ns' \<and>
     (\<forall>l \<in> set ls. IP_IsLoopback (addr_IP (laddr l)) \<and> addr l = tcpaddr_String (laddr l) \<and>
        (\<exists>tg \<in> set ts. dialAddr l = DialAddr tg \<and> validateTunnelTarget tg = None \<and>
           (\<not> fallback l \<longrightarrow> addr_Port (laddr l) = ListenPort tg)))"
  using assms
proof (induction ts arbitrary: ns ls es ns')
  case Nil
  then show ?case by (simp add: bound_by_def)
next
  case (Cons tg ts)
  show ?case
  proof (cases "validateTunnelTarget tg")
    case (Some e)
    with Cons.prems obtain es2 where "bind_targets listen ns ts = (ls, es2, ns')"
      by (auto split: prod.splits)
    from Cons.IH [OF Cons.prems(1) this] show ?thesis by auto
  next
    case None
    then have "isLoopbackTunnelHost (ListenHost tg)" and port: "1 \<le> ListenPort tg"
      by (auto simp: validateTunnelTarget_def split: if_splits sum.splits)
    then obtain as where as: "tunnelListenTargets (ListenHost tg) (ListenPort tg) = Inr as"
      using tunnelListenTargets_iff by blast
    obtain ls1 es1 ns1 where b1: "bind_addrs listen ns (DialAddr tg) as = (ls1, es1, ns1)" by (metis prod_cases3)
    obtain ls2 es2 ns2 where b2: "bind_targets listen ns1 ts = (ls2, es2, ns2)" by (metis prod_cases3)
    have ls: "ls = ls1 @ ls2" "ns' = ns2"
      using Cons.prems(2) None as b1 b2 by auto
    note A = bind_addrs_bound [OF Cons.prems(1) b1]
    from A have "ok ns1" by blast
    note B = Cons.IH [OF this b2]
    have "IP_IsLoopback (addr_IP (laddr l)) \<and> addr l = tcpaddr_String (laddr l) \<and> dialAddr l = DialAddr tg \<and>
          (\<not> fallback l \<longrightarrow> addr_Port (laddr l) = ListenPort tg)" if "l \<in> set ls1" for l
      using A that tunnelListenTargets_loopback [OF as] port by fastforce
    with A B bound_by_trans [of held used ns ls1 ns1 ls2 ns2] None show ?thesis
      unfolding ls by auto
  qed
qed

lemma foldl_close_held:
  "held (foldl close_sock ns ks) a = (if \<exists>k \<in> set ks. held ns a = Some k then None else held ns a)"
  by (induction ks arbitrary: ns) (auto simp: close_held)

lemma foldl_close_ok: "ok ns \<Longrightarrow> ok (foldl close_sock ns ks)"
  by (induction ks arbitrary: ns) (auto simp: close_ok)

lemma foldl_close_used: "used (foldl close_sock ns ks) = used ns"
  by (induction ks arbitrary: ns) (auto simp: close_used)

lemma unbind_all:
  assumes "ok ns" and "bound_by held used ns ls ns'"
  shows "held (foldl close_sock ns' (map listener ls)) = held ns"
proof
  fix a
  show "held (foldl close_sock ns' (map listener ls)) a = held ns a"
  proof (cases "\<exists>l \<in> set ls. a = laddr l")
    case True
    then obtain l where l: "l \<in> set ls" "a = laddr l" by blast
    with assms(2) have "held ns' a = Some (listener l)" "held ns a = None"
      by (auto simp: bound_by_def)
    with l show ?thesis unfolding foldl_close_held by auto
  next
    case False
    with assms(2) have same: "held ns' a = held ns a"
      unfolding bound_by_def by blast
    have "held ns a \<noteq> Some (listener l)" if "l \<in> set ls" for l
      using assms(2) held_used [OF assms(1)] that unfolding bound_by_def ran_def by auto
    with same show ?thesis unfolding foldl_close_held by auto
  qed
qed

end

definition net_ok :: "netstate \<Rightarrow> bool" where
  "net_ok ns \<longleftrightarrow> (\<forall>a k. bound ns a = Some k \<longrightarrow> k < next_sock ns)"

definition used_socks :: "netstate \<Rightarrow> nat set" where
  "used_socks ns = {..<next_sock ns}"

interpretation tcp: tcp_stack listenTCP sock_Close bound used_socks net_ok
proof
  fix ns a k la ns'
  assume "net_ok ns" and "listenTCP ns a = (Inr (k, la), ns')"
  then show "net_ok ns' \<and> k \<notin> used_socks ns \<and> used_socks ns' = insert k (used_socks ns) \<and> bound ns la = None \<and>
        bound ns' = (bound ns)(la \<mapsto> k) \<and>
        addr_IP la = sock_IP (addr_IP a) \<and> (addr_Port a \<noteq> 0 \<longrightarrow> addr_Port la = addr_Port a)"
    by (auto simp: listenTCP_def net_ok_def used_socks_def Let_def less_Suc_eq lessThan_Suc split: option.splits if_splits)
next
  fix ns a e ns'
  assume "net_ok ns" and "listenTCP ns a = (Inl e, ns')"
  then show "net_ok ns' \<and> bound ns' = bound ns \<and> used_socks ns' = used_socks ns"
    by (auto simp: listenTCP_def Let_def split: option.splits if_splits)
qed (auto simp: sock_Close_def net_ok_def used_socks_def ran_def)

section \<open>Lemmas on opening and closing\<close>

lemma bindListeners_Inr:
  assumes "net_ok ns" and "bindListeners listenTCP ns ts = (Inr (ls, addrs), ns')"
  shows "net_ok ns' \<and> bound_by bound used_socks ns ls ns' \<and> ls \<noteq> [] \<and> addrs = map (\<lambda>l. tcpaddr_String (laddr l)) ls \<and>
     (\<forall>l \<in> set ls. IP_IsLoopback (addr_IP (laddr l)) \<and> addr l = tcpaddr_String (laddr l) \<and>
        (\<exists>tg \<in> set ts. dialAddr l = DialAddr tg \<and> validateTunnelTarget tg = None \<and>
           (\<not> fallback l \<longrightarrow> addr_Port (laddr l) = ListenPort tg)))"
proof -
  obtain ls' es ns1 where b: "bind_targets listenTCP ns ts = (ls', es, ns1)" by (metis prod_cases3)
  with assms(2) have "ls' = ls" "ns1 = ns'" "ls \<noteq> []" "addrs = map addr ls"
    by (auto simp: bindListeners_def split: if_splits)
  with tcp.bind_targets_bound [OF assms(1) b] show ?thesis by simp
qed

lemma bindListeners_Inl:
  assumes "net_ok ns" and "bindListeners listenTCP ns ts = (Inl e, ns')"
  shows "net_ok ns' \<and> bound ns' = bound ns \<and> used_socks ns' = used_socks ns"
proof -
  obtain ls es ns1 where b: "bind_targets listenTCP ns ts = (ls, es, ns1)" by (metis prod_cases3)
  with assms(2) have "ts = [] \<and> ns' = ns \<or> ls = [] \<and> ns1 = ns'"
    by (auto simp: bindListeners_def split: if_splits)
  with tcp.bind_targets_bound [OF assms(1) b] assms(1) show ?thesis
    by (auto simp: bound_by_def)
qed

lemma new_session_simps [simp]:
  "sess_id (new_session time sid u ls as req) = sid" "sess_url (new_session time sid u ls as req) = u"
  "openURL (new_session time sid u ls as req) = rewriteTunnelOpenURL u ls"
  "listenAddrs (new_session time sid u ls as req) = as" "listeners (new_session time sid u ls as req) = ls"
  "attachTimer (new_session time sid u ls as req) = Some (Armed (time + request_attachTimeout req))"
  "idleTimer (new_session time sid u ls as req) = Some (Armed (time + request_idleTimeout req))"
  "attachTO (new_session time sid u ls as req) = request_attachTimeout req"
  "idleTO (new_session time sid u ls as req) = request_idleTimeout req"
  "sess_macKey (new_session time sid u ls as req) = req_MACKey req"
  "\<not> peerReady (new_session time sid u ls as req)" "\<not> launched (new_session time sid u ls as req)"
  "peer (new_session time sid u ls as req) = None" "streams (new_session time sid u ls as req) = []"
  "\<not> sess_closed (new_session time sid u ls as req)"
  by (auto simp: new_session_def startIdleTimer_def request_idleTimeout_def DefaultTunnelIdleTimeout_def DefaultIOTimeout_def)

lemma Tunnel_Open_Inr:
  assumes "Tunnel_Open newID req t = (Inr resp, t')"
  obtains parsed sid ls addrs ns where "ParseOpenURI (req_URL req) = Inr parsed" "newID = Inr sid"
    "bindListeners listenTCP (net t) (req_Targets req) = (Inr (ls, addrs), ns)" "length (req_MACKey req) = 32"
    "resp = \<lparr>SessionID = sid, OpenURL = rewriteTunnelOpenURL parsed ls, resp_ListenPort = addr_Port (laddr (hd ls)),
             ListenAddrs = addrs, AttachTimeout = request_attachTimeout req, IdleTimeout = request_idleTimeout req\<rparr>"
    "t' = t\<lparr>net := ns, sess := (sess t)(next_ptr t \<mapsto> new_session (now t) sid parsed ls addrs req),
            next_ptr := next_ptr t + 1, sessions := (sessions t)(sid \<mapsto> next_ptr t),
            tasks := tasks t \<union> (\<lambda>l. Accepting (next_ptr t) l) ` set ls\<rparr>"
proof -
  have ne: "ls \<noteq> []" if "bindListeners listenTCP ns ts = (Inr (ls, addrs), ns')" for ns ts ls addrs ns'
    using that by (auto simp: bindListeners_def split: prod.splits if_splits)
  from assms obtain parsed sid ls addrs ns where
    *: "ParseOpenURI (req_URL req) = Inr parsed" "newID = Inr sid"
    "bindListeners listenTCP (net t) (req_Targets req) = (Inr (ls, addrs), ns)" "length (req_MACKey req) = 32"
    by (auto simp: Tunnel_Open_def tunnelMACKeySize_def split: sum.splits if_splits prod.splits)
  moreover from * assms ne [OF *(3)] have "req_Targets req \<noteq> []"
    by (auto simp: Tunnel_Open_def)
  ultimately show thesis
    using assms ne [OF *(3)] by (intro that) (auto simp: Tunnel_Open_def tunnelMACKeySize_def Let_def)
qed

lemma Tunnel_Open_Inl:
  assumes "net_ok (net t)" and "Tunnel_Open newID req t = (Inl e, t')"
  shows "t' = t\<lparr>net := net t'\<rparr> \<and> net_ok (net t') \<and> bound (net t') = bound (net t) \<and>
     used_socks (net t) \<subseteq> used_socks (net t')"
proof -
  have "(\<exists>err ns. bindListeners listenTCP (net t) (req_Targets req) = (Inl err, ns) \<and> t' = t\<lparr>net := ns\<rparr>) \<or>
        (\<exists>ls addrs ns. bindListeners listenTCP (net t) (req_Targets req) = (Inr (ls, addrs), ns) \<and>
            t' = t\<lparr>net := foldl sock_Close ns (map listener ls)\<rparr>) \<or> t' = t"
    using assms(2) by (auto simp: Tunnel_Open_def Let_def split: sum.splits if_splits prod.splits)
  then show ?thesis
    using assms(1) bindListeners_Inl [OF assms(1)] bindListeners_Inr [OF assms(1)] tcp.unbind_all [OF assms(1)]
      tcp.foldl_close_ok tcp.foldl_close_used
    by (elim disjE exE conjE) (auto simp: bound_by_def)
qed

section \<open>Properties\<close>

text \<open>
  C19. A tunnel that is opened listens on loopback addresses only: every listener of the
  new session is bound by the session's own socket on a loopback IP address, belongs to a
  valid target of the request, has the requested port unless that was taken, and is served;
  the session is registered under the returned identifier with a MAC key of 32 bytes, and
  the response names the addresses really bound.
\<close>

theorem Tunnel_Open_loopback_only:
  assumes "net_ok (net t)" and "Tunnel_Open newID req t = (Inr resp, t')"
  shows "\<exists>p s. sessions t' (SessionID resp) = Some p \<and> sess t' p = Some s \<and> listeners s \<noteq> [] \<and>
     length (sess_macKey s) = 32 \<and> OpenURL resp = openURL s \<and>
     ListenAddrs resp = map (\<lambda>l. tcpaddr_String (laddr l)) (listeners s) \<and>
     (\<forall>l \<in> set (listeners s).
        IP_IsLoopback (addr_IP (laddr l)) \<and> bound (net t') (laddr l) = Some (listener l) \<and>
        Accepting p l \<in> tasks t' \<and>
        (\<exists>tg \<in> set (req_Targets req). validateTunnelTarget tg = None \<and> dialAddr l = DialAddr tg \<and>
           (fallback l \<or> addr_Port (laddr l) = ListenPort tg)))"
proof -
  from assms(2) obtain parsed sid ls addrs ns where
    b: "bindListeners listenTCP (net t) (req_Targets req) = (Inr (ls, addrs), ns)" and "length (req_MACKey req) = 32"
    and "resp = \<lparr>SessionID = sid, OpenURL = rewriteTunnelOpenURL parsed ls, resp_ListenPort = addr_Port (laddr (hd ls)),
             ListenAddrs = addrs, AttachTimeout = request_attachTimeout req, IdleTimeout = request_idleTimeout req\<rparr>"
    and "t' = t\<lparr>net := ns, sess := (sess t)(next_ptr t \<mapsto> new_session (now t) sid parsed ls addrs req),
            next_ptr := next_ptr t + 1, sessions := (sessions t)(sid \<mapsto> next_ptr t),
            tasks := tasks t \<union> (\<lambda>l. Accepting (next_ptr t) l) ` set ls\<rparr>"
    by (rule Tunnel_Open_Inr)
  with bindListeners_Inr [OF assms(1) b] show ?thesis
    by (fastforce simp: bound_by_def)
qed

text \<open>
  C27. When opening a tunnel fails, nothing is left behind: no session is registered, no
  goroutine started, and every address bound on the way is free again.
\<close>

theorem Tunnel_Open_error_clean:
  assumes "net_ok (net t)" and "Tunnel_Open newID req t = (Inl err, t')"
  shows "sessions t' = sessions t \<and> sess t' = sess t \<and> tasks t' = tasks t \<and> opened t' = opened t \<and>
     bound (net t') = bound (net t)"
proof -
  from Tunnel_Open_Inl [OF assms] obtain ns where "t' = t\<lparr>net := ns\<rparr>" "bound (net t') = bound (net t)" by metis
  then show ?thesis by simp
qed

definition example_net :: netstate where
  "example_net = \<lparr>bound = Map.empty, next_sock = 0, bind_fault = Map.empty, pick_port = (\<lambda>_ _. Some 97)\<rparr>"

definition example_request :: TunnelOpenRequest where
  "example_request =
     \<lparr>req_URL = ''http://localhost:81/'',
      req_Targets = [\<lparr>ListenHost = ''127.0.0.1'', ListenPort = 81, DialAddr = ''127.0.0.1:81''\<rparr>],
      req_MACKey = replicate 32 7, req_AttachTimeout = 0, req_IdleTimeout = 0\<rparr>"

lemma example_net_ok: "net_ok (net (NewTunnel example_net 0))"
  by (simp add: NewTunnel_def example_net_def net_ok_def)

lemma res_Inr: "\<not> isl (fst x) \<Longrightarrow> \<exists>v. x = (Inr v, snd x)" and res_Inl: "isl (fst x) \<Longrightarrow> \<exists>v. x = (Inl v, snd x)"
  by (cases x; cases "fst x"; simp)+

theorem Tunnel_Open_loopback_only_witness:
  "\<exists>resp p s. fst (Tunnel_Open (Inr ''a1'') example_request (NewTunnel example_net 0)) = Inr resp \<and>
     sess (snd (Tunnel_Open (Inr ''a1'') example_request (NewTunnel example_net 0))) p = Some s \<and> listeners s \<noteq> [] \<and>
     (\<forall>l \<in> set (listeners s). IP_IsLoopback (addr_IP (laddr l)))"
proof -
  let ?o = "Tunnel_Open (Inr ''a1'') example_request (NewTunnel example_net 0)"
  have "\<not> isl (fst ?o)" by code_simp
  then obtain resp where o: "?o = (Inr resp, snd ?o)" using res_Inr by blast
  then have "fst ?o = Inr resp" by (metis fst_conv)
  with Tunnel_Open_loopback_only [OF example_net_ok o] show ?thesis by blast
qed

theorem Tunnel_Open_error_clean_witness:
  "sessions (snd (Tunnel_Open (Inr ''a1'') (example_request\<lparr>req_MACKey := [1, 2]\<rparr>) (NewTunnel example_net 0)))
     = sessions (NewTunnel example_net 0) \<and>
   bound (net (snd (Tunnel_Open (Inr ''a1'') (example_request\<lparr>req_MACKey := [1, 2]\<rparr>) (NewTunnel example_net 0))))
     = bound (net (NewTunnel example_net 0))"
proof -
  let ?o = "Tunnel_Open (Inr ''a1'') (example_request\<lparr>req_MACKey := [1, 2]\<rparr>) (NewTunnel example_net 0)"
  have "isl (fst ?o)" by code_simp
  then obtain e where "?o = (Inl e, snd ?o)" using res_Inl by blast
  from Tunnel_Open_error_clean [OF example_net_ok this] show ?thesis by blast
qed



text \<open>
  Stream numbers do not repeat: the numbers a session hands out one after the other are
  distinct for any run of at most \<open>2 ^ 32\<close> streams, and wrap around to the first one after
  that.
\<close>

fun alloc_ids :: "nat \<Rightarrow> tunnelSession \<Rightarrow> u32 list" where
  "alloc_ids 0 s = []"
| "alloc_ids (Suc n) s = (case nextID s of (i, s') \<Rightarrow> i # alloc_ids n s')"

lemma alloc_ids_eq: "alloc_ids n s = map (\<lambda>i. nextStreamID s + 1 + word_of_nat i) [0..<n]"
proof (induction n arbitrary: s)
  case (Suc n)
  have "[0..<Suc n] = 0 # map Suc [0..<n]"
    by (simp add: map_Suc_upt upt_conv_Cons)
  then show ?case
    by (simp add: nextID_def Suc.IH comp_def algebra_simps)
qed simp

theorem nextID_distinct:
  "(n \<le> 2 ^ 32 \<longrightarrow> distinct (alloc_ids n s)) \<and>
   (n > 2 ^ 32 \<longrightarrow> alloc_ids n s ! (2 ^ 32) = alloc_ids n s ! 0)"
proof -
  have "inj_on (\<lambda>i. nextStreamID s + 1 + word_of_nat i) {0..<n}" if "n \<le> 2 ^ 32"
  proof (rule inj_onI)
    fix i j assume "i \<in> {0..<n}" "j \<in> {0..<n}"
      and "nextStreamID s + 1 + word_of_nat i = nextStreamID s + 1 + word_of_nat j"
    then have "unat (word_of_nat i :: u32) = unat (word_of_nat j :: u32)" "i < 2 ^ 32" "j < 2 ^ 32"
      using that by auto
    then show "i = j" by (simp add: unat_of_nat)
  qed
  moreover have "word_of_nat (2 ^ 32) = (0 :: u32)"
    using word_of_nat_eq_0_iff [where 'a = 32, of "2 ^ 32"] by simp
  ultimately show ?thesis
    by (auto simp: alloc_ids_eq distinct_map simp del: of_nat_power)
qed

theorem nextID_distinct_witness:
  "distinct (alloc_ids 3 (new_session 0 ''a1'' empty_url [] [] example_request))"
  using nextID_distinct [of 3] by simp

text \<open>
  A browser shorthand without a scheme, which \<^verbatim>\<open>ParseOpenURI\<close> accepts because
  \<^verbatim>\<open>URI.Open\<close> puts \<^verbatim>\<open>https://\<close> in front of it, is not normalised by \<^verbatim>\<open>Tunnel.Open\<close>: the URL
  it hands to the opener still has no scheme.
\<close>

theorem Tunnel_Open_keeps_shorthand:
  assumes "Tunnel_Open newID req t = (Inr resp, t')"
    and "ParseOpenURI (req_URL req) = Inr parsed" and "Scheme parsed = []"
  shows "\<exists>u. OpenURL resp = url_String u \<and> Scheme u = [] \<and> Path u = Path parsed \<and> Host u = Host parsed"
proof -
  from assms(1) obtain parsed' ls where "ParseOpenURI (req_URL req) = Inr parsed'" "OpenURL resp = rewriteTunnelOpenURL parsed' ls"
    by (rule Tunnel_Open_Inr) simp
  with assms(2) have o: "OpenURL resp = rewriteTunnelOpenURL parsed ls" by simp
  have "\<not> isLoopbackTunnelURL parsed"
    using assms(3) by (simp add: isLoopbackTunnelURL_def ToLower_def)
  then have "\<exists>q. rewriteTunnelOpenURL parsed ls = url_String (parsed\<lparr>RawQuery := q\<rparr>)"
    by (auto simp: rewriteTunnelOpenURL_def Let_def intro: exI [of _ "RawQuery parsed"] split: sum.splits)
  then obtain q where "rewriteTunnelOpenURL parsed ls = url_String (parsed\<lparr>RawQuery := q\<rparr>)" by blast
  with o assms(3) show ?thesis
    by (intro exI [of _ "parsed\<lparr>RawQuery := q\<rparr>"]) simp
qed

theorem Tunnel_Open_keeps_shorthand_witness:
  "\<exists>resp. fst (Tunnel_Open (Inr ''a1'') (example_request\<lparr>req_URL := ''notepad.exe''\<rparr>) (NewTunnel example_net 0)) = Inr resp \<and>
     OpenURL resp = ''notepad.exe'' \<and> \<not> safe_target (OpenURL resp) \<and>
     (\<exists>u. OpenURL resp = url_String u \<and> Scheme u = [])"
proof -
  let ?r = "example_request\<lparr>req_URL := ''notepad.exe''\<rparr>"
  let ?o = "Tunnel_Open (Inr ''a1'') ?r (NewTunnel example_net 0)"
  define u where "u = projr (ParseOpenURI ''notepad.exe'')"
  have p: "ParseOpenURI (req_URL ?r) = Inr u" unfolding u_def by code_simp
  have q: "Scheme u = []" unfolding u_def by code_simp
  have "map_sum id OpenURL (fst ?o) = Inr ''notepad.exe''" by code_simp
  then obtain resp where o: "?o = (Inr resp, snd ?o)" and n: "OpenURL resp = ''notepad.exe''"
    by (cases ?o; cases "fst ?o") auto
  then have "fst ?o = Inr resp" by (metis fst_conv)
  moreover have "\<not> safe_target ''notepad.exe''"
    by (auto simp: safe_target_def append_eq_Cons_conv Cons_eq_append_conv)
  ultimately show ?thesis
    using Tunnel_Open_keeps_shorthand [OF o p q] n by auto
qed

end
