(* ===== verification/GoJson.thy ===== *)
theory GoJson
  imports GoStrings
begin

text \<open>
  The part of \<^verbatim>\<open>encoding/json\<close> the tunnel uses: objects whose members are strings, written
  by \<^verbatim>\<open>json.Marshal\<close> and read by \<^verbatim>\<open>json.Unmarshal\<close>, over byte strings in UTF-8.
\<close>

section \<open>UTF-8\<close>

text \<open>
  The length of the valid multi-byte rune a string starts with, 0 if it starts with none
  (\<^verbatim>\<open>utf8.DecodeRune\<close>): no overlong forms, no surrogates, nothing above U+10FFFF.
\<close>

definition cont_byte :: "nat \<Rightarrow> bool" where
  "cont_byte n = (0x80 \<le> n \<and> n \<le> 0xBF)"

fun rune_len :: "nat list \<Rightarrow> nat" where
  "rune_len (a # b # r) =
     (if 0xC2 \<le> a \<and> a \<le> 0xDF then (if cont_byte b then 2 else 0)
      else if 0xE0 \<le> a \<and> a \<le> 0xEF then
        (case r of c # _ \<Rightarrow>
           if cont_byte b \<and> cont_byte c \<and> (a = 0xE0 \<longrightarrow> b \<ge> 0xA0) \<and> (a = 0xED \<longrightarrow> b \<le> 0x9F) then 3 else 0
         | [] \<Rightarrow> 0)
      else if 0xF0 \<le> a \<and> a \<le> 0xF4 then
        (case r of c # d # _ \<Rightarrow>
           if cont_byte b \<and> cont_byte c \<and> cont_byte d \<and> (a = 0xF0 \<longrightarrow> b \<ge> 0x90) \<and> (a = 0xF4 \<longrightarrow> b \<le> 0x8F)
           then 4 else 0
         | _ \<Rightarrow> 0)
      else 0)"
| "rune_len _ = 0"

abbreviation codes :: "gostring \<Rightarrow> nat list" where
  "codes s \<equiv> map of_char s"

definition hex4 :: "nat \<Rightarrow> gostring" where
  "hex4 n = [hex_digit (n div 4096 mod 16), hex_digit (n div 256 mod 16), hex_digit (n div 16 mod 16), hex_digit (n mod 16)]"

section \<open>Writing\<close>

text \<open>\<^verbatim>\<open>htmlSafeSet\<close>: printable ASCII other than the quote, the backslash and the HTML characters.\<close>

definition json_safe :: "char \<Rightarrow> bool" where
  "json_safe c = (let n = (of_char c :: nat) in 32 \<le> n \<and> n < 128 \<and> n \<notin> {34, 38, 60, 62, 92})"

definition json_escape :: "nat \<Rightarrow> gostring" where
  "json_escape n =
     (let esc = (\<lambda>d. [CHR 0x5C, d])
      in if n = 34 then esc (char_of (34 :: nat)) else if n = 92 then esc CHR 0x5C
         else if n = 8 then esc CHR ''b'' else if n = 12 then esc CHR ''f'' else if n = 10 then esc CHR ''n''
         else if n = 13 then esc CHR ''r'' else if n = 9 then esc CHR ''t''
         else [CHR 0x5C, CHR ''u''] @ hex4 n)"

function json_string_body :: "gostring \<Rightarrow> gostring" where
  "json_string_body [] = []"
| "json_string_body (c # s) =
     (if (of_char c :: nat) < 128
      then (if json_safe c then [c] else json_escape (of_char c)) @ json_string_body s
      else (let k = rune_len (codes (c # s))
            in if k = 0 then [CHR 0x5C] @ ''ufffd'' @ json_string_body s
               else if codes (take k (c # s)) = [0xE2, 0x80, 0xA8] then [CHR 0x5C] @ ''u2028'' @ json_string_body (drop k (c # s))
               else if codes (take k (c # s)) = [0xE2, 0x80, 0xA9] then [CHR 0x5C] @ ''u2029'' @ json_string_body (drop k (c # s))
               else take k (c # s) @ json_string_body (drop k (c # s))))"
  by pat_completeness auto
termination
  by (relation "measure length") auto

definition json_string :: "gostring \<Rightarrow> gostring" where
  "json_string s = [char_of (34 :: nat)] @ json_string_body s @ [char_of (34 :: nat)]"

text \<open>A struct whose fields are strings, as its member names and values in order.\<close>

definition json_Marshal :: "(gostring \<times> gostring) list \<Rightarrow> gostring" where
  "json_Marshal fs = ''{'' @ Join (map (\<lambda>(k, v). json_string k @ '':'' @ json_string v) fs) '','' @ ''}''"

section \<open>Reading\<close>

text \<open>\<^verbatim>\<open>utf8.AppendRune\<close> for a code point that is not a surrogate.\<close>

definition utf8_enc :: "nat \<Rightarrow> gostring" where
  "utf8_enc n =
     map char_of
       (if n < 0x80 then [n]
        else if n < 0x800 then [0xC0 + n div 64, 0x80 + n mod 64]
        else if n < 0x10000 then [0xE0 + n div 4096, 0x80 + n div 64 mod 64, 0x80 + n mod 64]
        else [0xF0 + n div 262144, 0x80 + n div 4096 mod 64, 0x80 + n div 64 mod 64, 0x80 + n mod 64])"

definition RuneError :: gostring where
  "RuneError = utf8_enc 0xFFFD"

text \<open>\<^verbatim>\<open>getu4\<close>: the value of four hexadecimal digits.\<close>

fun hex4_val :: "gostring \<Rightarrow> nat option" where
  "hex4_val (a # b # c # d # _) =
     (case (from_hex_char a, from_hex_char b, from_hex_char c, from_hex_char d) of
        (Some p, Some q, Some r, Some s) \<Rightarrow> Some (4096 * p + 256 * q + 16 * r + s)
      | _ \<Rightarrow> None)"
| "hex4_val _ = None"

text \<open>
  What a \<^verbatim>\<open>\u\<close> escape with value \<open>n\<close> stands for, with the text after it: a pair of
  surrogates is one code point, a lone one is the replacement character. The second
  component says how much of the text after it belongs to the escape.
\<close>

definition u_escape :: "nat \<Rightarrow> gostring \<Rightarrow> gostring \<times> nat" where
  "u_escape n s =
     (if 0xD800 \<le> n \<and> n < 0xE000 then
        (case (if take 2 s = [CHR 0x5C, CHR ''u''] then hex4_val (drop 2 s) else None) of
           Some m \<Rightarrow>
             if n < 0xDC00 \<and> 0xDC00 \<le> m \<and> m < 0xE000
             then (utf8_enc (0x10000 + 1024 * (n - 0xD800) + (m - 0xDC00)), 6)
             else (RuneError, 0)
         | None \<Rightarrow> (RuneError, 0))
      else (utf8_enc n, 0))"

text \<open>The characters that may follow a backslash, other than \<^verbatim>\<open>u\<close>.\<close>

definition simple_escape :: "char \<Rightarrow> char option" where
  "simple_escape c =
     (if of_char c \<in> {34, 92, 47 :: nat} then Some c
      else if c = CHR ''b'' then Some (char_of (8 :: nat)) else if c = CHR ''f'' then Some (char_of (12 :: nat))
      else if c = CHR ''n'' then Some (char_of (10 :: nat)) else if c = CHR ''r'' then Some (char_of (13 :: nat))
      else if c = CHR ''t'' then Some (char_of (9 :: nat)) else None)"

text \<open>One character of a string, or one escape that starts with \<open>c\<close>: its value and the text after it.\<close>

definition json_char :: "char \<Rightarrow> gostring \<Rightarrow> (gostring \<times> gostring) option" where
  "json_char c s =
     (let n = (of_char c :: nat)
      in if n < 32 then None
         else if n = 92 then
           (case s of
              [] \<Rightarrow> None
            | d # s' \<Rightarrow>
                if d = CHR ''u'' then
                  (case hex4_val s' of
                     None \<Rightarrow> None
                   | Some m \<Rightarrow> (case u_escape m (drop 4 s') of (v, k) \<Rightarrow> Some (v, drop k (drop 4 s'))))
                else (case simple_escape d of None \<Rightarrow> None | Some e \<Rightarrow> Some ([e], s')))
         else if n < 128 then Some ([c], s)
         else (let k = rune_len (codes (c # s))
               in if k = 0 then Some (RuneError, s) else Some (take k (c # s), drop (k - 1) s)))"

lemma json_char_shorter: "json_char c s = Some (v, r) \<Longrightarrow> length r \<le> length s"
  by (auto simp: json_char_def Let_def split: if_splits list.splits option.splits prod.splits)

text \<open>
  A string after its opening quote: its value and the text after the closing quote. Control
  characters and bad escapes are errors, bytes that are not UTF-8 are replaced.
\<close>

function json_unquote :: "gostring \<Rightarrow> (gostring \<times> gostring) option" where
  "json_unquote [] = None"
| "json_unquote (c # s) =
     (if of_char c = (34 :: nat) then Some ([], s)
      else case json_char c s of
             None \<Rightarrow> None
           | Some (v, r) \<Rightarrow> map_option (apfst ((@) v)) (json_unquote r))"
  by pat_completeness auto
termination
  by (relation "measure length") (auto dest: json_char_shorter)

datatype json =
    JNull
  | JBool bool
  | JNumber gostring
  | JString gostring
  | JArray "json list"
  | JObject "(gostring \<times> json) list"

definition json_space :: "char \<Rightarrow> bool" where
  "json_space c \<longleftrightarrow> of_char c \<in> {32, 9, 13, 10 :: nat}"

abbreviation skip :: "gostring \<Rightarrow> gostring" where
  "skip \<equiv> dropWhile json_space"

text \<open>A number and the text after it: no leading zeros, digits on both sides of a point.\<close>

definition json_frac :: "gostring \<Rightarrow> gostring option" where
  "json_frac s =
     (case s of
        c # r \<Rightarrow>
          if c = CHR ''.'' then (if takeWhile is_digit r = [] then None else Some (dropWhile is_digit r))
          else Some s
      | [] \<Rightarrow> Some s)"

definition json_exp :: "gostring \<Rightarrow> gostring option" where
  "json_exp s =
     (case s of
        c # r \<Rightarrow>
          if c = CHR ''e'' \<or> c = CHR ''E'' then
            (let r = (if r \<noteq> [] \<and> (hd r = CHR ''+'' \<or> hd r = CHR ''-'') then tl r else r)
             in if takeWhile is_digit r = [] then None else Some (dropWhile is_digit r))
          else Some s
      | [] \<Rightarrow> Some s)"

definition json_number :: "gostring \<Rightarrow> (gostring \<times> gostring) option" where
  "json_number s =
     (let t = (if HasPrefix s ''-'' then tl s else s); ds = takeWhile is_digit t
      in if ds = [] then None
         else (let r = (if hd ds = CHR ''0'' then tl t else dropWhile is_digit t)
               in case json_frac r of
                    None \<Rightarrow> None
                  | Some r1 \<Rightarrow>
                      (case json_exp r1 of
                         None \<Rightarrow> None
                       | Some r2 \<Rightarrow> Some (take (length s - length r2) s, r2))))"

text \<open>
  A value and the text after it, at nesting depth \<open>d\<close> of at most 10000. A value
  takes at most two calls for each character, so twice the length of the text, and one, is
  enough fuel (\<open>json_fuel\<close> below).
\<close>

fun json_value :: "nat \<Rightarrow> nat \<Rightarrow> gostring \<Rightarrow> (json \<times> gostring) option"
  and json_elements :: "nat \<Rightarrow> nat \<Rightarrow> gostring \<Rightarrow> (json list \<times> gostring) option"
  and json_members :: "nat \<Rightarrow> nat \<Rightarrow> gostring \<Rightarrow> ((gostring \<times> json) list \<times> gostring) option" where
  "json_value 0 d s = None"
| "json_value (Suc n) d s =
     (case skip s of
        [] \<Rightarrow> None
      | c # r \<Rightarrow>
          if c = CHR ''{'' then
            (if d \<ge> 10000 then None
             else if HasPrefix (skip r) ''}'' then Some (JObject [], tl (skip r))
             else map_option (apfst JObject) (json_members n (d + 1) r))
          else if c = CHR ''['' then
            (if d \<ge> 10000 then None
             else if HasPrefix (skip r) '']'' then Some (JArray [], tl (skip r))
             else map_option (apfst JArray) (json_elements n (d + 1) r))
          else if of_char c = (34 :: nat) then map_option (apfst JString) (json_unquote r)
          else if HasPrefix (c # r) ''true'' then Some (JBool True, drop 3 r)
          else if HasPrefix (c # r) ''false'' then Some (JBool False, drop 4 r)
          else if HasPrefix (c # r) ''null'' then Some (JNull, drop 3 r)
          else map_option (apfst JNumber) (json_number (c # r)))"
| "json_elements 0 d s = None"
| "json_elements (Suc n) d s =
     (case json_value n d s of
        None \<Rightarrow> None
      | Some (v, r) \<Rightarrow>
          (case skip r of
             [] \<Rightarrow> None
           | c # r' \<Rightarrow>
               if c = CHR '']'' then Some ([v], r')
               else if c = CHR '','' then map_option (apfst ((#) v)) (json_elements n d r')
               else None))"
| "json_members 0 d s = None"
| "json_members (Suc n) d s =
     (case skip s of
        [] \<Rightarrow> None
      | q # s1 \<Rightarrow>
          (if of_char q \<noteq> (34 :: nat) then None
           else
             (case json_unquote s1 of
                None \<Rightarrow> None
              | Some (k, s2) \<Rightarrow>
                  (case skip s2 of
                     [] \<Rightarrow> None
                   | c # s3 \<Rightarrow>
                       (if c \<noteq> CHR '':'' then None
                        else
                          (case json_value n d s3 of
                             None \<Rightarrow> None
                           | Some (v, r) \<Rightarrow>
                               (case skip r of
                                  [] \<Rightarrow> None
                                | e # r' \<Rightarrow>
                                    if e = CHR ''}'' then Some ([(k, v)], r')
                                    else if e = CHR '','' then map_option (apfst ((#) (k, v))) (json_members n d r')
                                    else None)))))))"

text \<open>The whole input is one value, with space around it.\<close>

definition json_parse :: "gostring \<Rightarrow> json option" where
  "json_parse s =
     (case json_value (2 * length s + 1) 0 s of
        Some (v, r) \<Rightarrow> if skip r = [] then Some v else None
      | None \<Rightarrow> None)"

text \<open>
  Storing a value into a struct with one string field: members are matched to the field's
  name in any letter case, in order; \<^verbatim>\<open>null\<close> changes nothing; a value of another type is an
  error that is reported after the rest was stored.
\<close>

definition json_type_error :: goerr where
  "json_type_error = Errorf ''json: cannot unmarshal value into Go struct field''"

fun store_members :: "gostring \<Rightarrow> gostring \<Rightarrow> goerr option \<Rightarrow> (gostring \<times> json) list \<Rightarrow> gostring \<times> goerr option" where
  "store_members name old err [] = (old, err)"
| "store_members name old err ((k, v) # ms) =
     (if \<not> EqualFold k name then store_members name old err ms
      else case v of
        JString s \<Rightarrow> store_members name s err ms
      | JNull \<Rightarrow> store_members name old err ms
      | _ \<Rightarrow> store_members name old (if err = None then Some json_type_error else err) ms)"

definition json_Unmarshal :: "gostring \<Rightarrow> gostring \<Rightarrow> gostring res" where
  "json_Unmarshal name s =
     (case json_parse s of
        None \<Rightarrow> Inl (Errorf ''json: syntax error'')
      | Some JNull \<Rightarrow> Inr []
      | Some (JObject ms) \<Rightarrow>
          (case store_members name [] None ms of
             (v, None) \<Rightarrow> Inr v
           | (v, Some err) \<Rightarrow> Inl err)
      | Some _ \<Rightarrow> Inl json_type_error)"

lemma json_string_safe: "list_all json_safe s \<Longrightarrow> json_string_body s = s"
  by (induction s) (auto simp: json_safe_def Let_def)

text \<open>What is read of a text leaves a shorter one.\<close>

lemma length_skip: "length (skip s) \<le> length s"
  by (rule length_dropWhile_le)

lemma skip_Cons_shorter: "skip s = c # r \<Longrightarrow> length r < length s"
  using length_skip [of s] by simp

lemma json_unquote_shorter: "json_unquote s = Some (v, r) \<Longrightarrow> length r < length s"
proof (induction s arbitrary: v r rule: json_unquote.induct)
  case (2 c s)
  then show ?case
    by (fastforce dest: json_char_shorter split: if_splits option.splits)
qed simp

lemma json_frac_exp_shorter:
  "json_frac s = Some r \<Longrightarrow> length r \<le> length s" "json_exp s = Some r \<Longrightarrow> length r \<le> length s"
proof -
  have d: "length (dropWhile P xs) \<le> Suc (length xs)" "length (dropWhile P (tl xs)) \<le> Suc (length xs)" for P and xs :: gostring
    using length_dropWhile_le [of P xs] length_dropWhile_le [of P "tl xs"] by auto
  show "json_frac s = Some r \<Longrightarrow> length r \<le> length s" "json_exp s = Some r \<Longrightarrow> length r \<le> length s"
    using d by (auto simp: json_frac_def json_exp_def Let_def split: list.splits if_splits)
qed

lemma json_number_shorter:
  assumes "json_number s = Some (v, r)"
  shows "length r < length s"
proof -
  define t where "t = (if HasPrefix s ''-'' then tl s else s)"
  define q where "q = (if hd (takeWhile is_digit t) = CHR ''0'' then tl t else dropWhile is_digit t)"
  from assms obtain r1 where r: "takeWhile is_digit t \<noteq> []" "json_frac q = Some r1" "json_exp r1 = Some r"
    by (auto simp: json_number_def Let_def t_def q_def split: if_splits option.splits)
  have "t \<noteq> []" using r(1) by auto
  moreover have "length (dropWhile is_digit t) < length t"
    using r(1) by (metis length_append length_greater_0_conv less_add_same_cancel2 takeWhile_dropWhile_id)
  ultimately have "length q < length t" by (auto simp: q_def)
  moreover have "length t \<le> length s" by (simp add: t_def)
  moreover have "length r \<le> length q"
    using json_frac_exp_shorter(1) [OF r(2)] json_frac_exp_shorter(2) [OF r(3)] by simp
  ultimately show ?thesis by simp
qed

lemma json_shorter:
  "json_value n d s = Some (v, r) \<Longrightarrow> length r < length s"
  "json_elements n d s = Some (vs, r) \<Longrightarrow> length r < length s"
  "json_members n d s = Some (ms, r) \<Longrightarrow> length r < length s"
proof (induction n d s and n d s and n d s arbitrary: v r and vs r and ms r rule: json_value_json_elements_json_members.induct)
  case (2 n d s)
  then obtain c q where c: "skip s = c # q" by (auto split: list.splits)
  have l: "length q < length s" "length (tl (skip q)) \<le> length q"
    using skip_Cons_shorter [OF c] length_skip [of q] by auto
  consider "c = CHR ''{''" | "c = CHR ''[''" | "c \<noteq> CHR ''{''" "c \<noteq> CHR ''[''" by blast
  then show ?case
  proof cases
    case 1
    with 2 c l show ?thesis by (fastforce split: if_splits)
  next
    case 2
    with 2 "2.prems" "2.IH" c l show ?thesis by (fastforce split: if_splits)
  next
    case 3
    have "length r < length q \<or> length r < Suc (length q) \<or> r = drop 3 q \<or> r = drop 4 q"
      using 3 "2.prems" c by (auto split: if_splits dest: json_unquote_shorter json_number_shorter)
    with l show ?thesis by auto
  qed
next
  case (4 n d s)
  then obtain v q c q' where q: "json_value n d s = Some (v, q)" "skip q = c # q'"
    by (auto split: option.splits prod.splits list.splits)
  then have "length q' < length s" using 4(1) skip_Cons_shorter [OF q(2)] by force
  with 4 q show ?case by (fastforce split: if_splits)
next
  case (6 n d s)
  from "6.prems" obtain c1 s1 k s2 c3 s3 v q c q' where q: "skip s = c1 # s1" "json_unquote s1 = Some (k, s2)"
      "skip s2 = c3 # s3" "of_char c1 = (34 :: nat)" "c3 = CHR '':''" "json_value n d s3 = Some (v, q)" "skip q = c # q'"
    by (auto split: option.splits prod.splits list.splits if_splits)
  then have "length q < length s3" using "6.IH"(1) by force
  with q have "length q' < length s"
    using skip_Cons_shorter [OF q(1)] skip_Cons_shorter [OF q(3)] skip_Cons_shorter [OF q(7)] json_unquote_shorter [OF q(2)] by linarith
  with "6.prems" "6.IH"(2) q show ?case by (fastforce split: if_splits)
qed auto

lemma json_fuel:
  "2 * length s + 1 \<le> n \<Longrightarrow> 2 * length s + 1 \<le> m \<Longrightarrow> json_value n d s = json_value m d s"
  "2 * length s + 2 \<le> n \<Longrightarrow> 2 * length s + 2 \<le> m \<Longrightarrow> json_elements n d s = json_elements m d s"
  "2 * length s + 2 \<le> n \<Longrightarrow> 2 * length s + 2 \<le> m \<Longrightarrow> json_members n d s = json_members m d s"
proof (induction n d s and n d s and n d s arbitrary: m and m and m rule: json_value_json_elements_json_members.induct)
  case (2 n d s)
  obtain k where m: "m = Suc k" using "2.prems" by (cases m) auto
  show ?case
  proof (cases "skip s")
    case (Cons c r)
    have "2 * length r + 2 \<le> n" "2 * length r + 2 \<le> k"
      using skip_Cons_shorter [OF Cons] "2.prems" m by auto
    note fuel = this
    have "json_members n (d + 1) r = json_members k (d + 1) r"
      if "c = CHR ''{''" "\<not> 10000 \<le> d" "\<not> HasPrefix (skip r) ''}''"
      using "2.IH"(1) [OF Cons that fuel] .
    moreover have "json_elements n (d + 1) r = json_elements k (d + 1) r"
      if "c = CHR ''[''" "\<not> 10000 \<le> d" "\<not> HasPrefix (skip r) '']''"
      using "2.IH"(2) [OF Cons _ that fuel] that(1) by simp
    ultimately show ?thesis
      unfolding m json_value.simps Cons list.case by (simp cong: if_cong del: One_nat_def add_Suc_right)
  next
    case Nil
    then show ?thesis unfolding m json_value.simps by (simp only: list.case)
  qed
next
  case (4 n d s)
  obtain k where m: "m = Suc k" using "4.prems" by (cases m) auto
  have v: "json_value n d s = json_value k d s"
    using "4.prems" m by (intro "4.IH"(1)) auto
  have "json_elements n d r' = json_elements k d r'" if "json_value n d s = Some (v, r)" "skip r = CHR '','' # r'" for v r r'
    using "4.IH"(2) [OF that(1) refl that(2)] "4.prems" m json_shorter(1) [OF that(1)] skip_Cons_shorter [OF that(2)]
    by auto
  then show ?case
    unfolding m json_elements.simps v [symmetric] by (auto simp del: dropWhile_eq_Nil_conv split: option.splits list.splits)
next
  case (6 n d s)
  obtain k where m: "m = Suc k" using "6.prems" by (cases m) auto
  have v: "json_value n d s3 = json_value k d s3"
    if "skip s = c1 # s1" "of_char c1 = (34 :: nat)" "json_unquote s1 = Some (a, s2)" "skip s2 = CHR '':'' # s3" for c1 s1 a s2 s3
    using "6.IH"(1) [OF that(1) _ that(3) refl that(4)] that(2) "6.prems" m
      skip_Cons_shorter [OF that(1)] skip_Cons_shorter [OF that(4)] json_unquote_shorter [OF that(3)] by auto
  have "json_members n d r' = json_members k d r'"
    if "skip s = c1 # s1" "of_char c1 = (34 :: nat)" "json_unquote s1 = Some (a, s2)" "skip s2 = CHR '':'' # s3"
      "json_value n d s3 = Some (b, r)" "skip r = CHR '','' # r'" for c1 s1 a s2 s3 b r r'
    using "6.IH"(2) [OF that(1) _ that(3) refl that(4) _ that(5) refl that(6)] that(2) "6.prems" m
      skip_Cons_shorter [OF that(1)] skip_Cons_shorter [OF that(4)] json_unquote_shorter [OF that(3)]
      json_shorter(1) [OF that(5)] skip_Cons_shorter [OF that(6)] by auto
  with v show ?case
    unfolding m json_members.simps by (auto simp del: dropWhile_eq_Nil_conv split: option.splits list.splits)
qed auto

section \<open>What is written is read\<close>

function valid_utf8 :: "gostring \<Rightarrow> bool" where
  "valid_utf8 [] = True"
| "valid_utf8 (c # s) =
     (if (of_char c :: nat) < 128 then valid_utf8 s
      else if rune_len (codes (c # s)) = 0 then False
      else valid_utf8 (drop (rune_len (codes (c # s))) (c # s)))"
  by pat_completeness auto
termination
  by (relation "measure length") auto

lemma rune_len_bounds: "rune_len xs \<noteq> 0 \<Longrightarrow> 2 \<le> rune_len xs \<and> rune_len xs \<le> length xs"
  by (induction xs rule: rune_len.induct) (auto split: if_splits list.splits)

lemma rune_len_take: "rune_len xs = k \<Longrightarrow> k \<noteq> 0 \<Longrightarrow> rune_len (take k xs @ ys) = k"
  by (induction xs rule: rune_len.induct) (auto simp: numeral_eq_Suc split: if_splits list.splits)

lemma hex4_val_hex4: "n < 65536 \<Longrightarrow> hex4_val (hex4 n @ t) = Some n"
proof -
  assume "n < 65536"
  have "n div 256 = n div 16 div 16" "n div 4096 = n div 256 div 16"
    by (simp_all add: div_mult2_eq [symmetric])
  moreover have "n div 4096 mod 16 = n div 4096"
    using \<open>n < 65536\<close> by simp
  ultimately have "4096 * (n div 4096 mod 16) + 256 * (n div 256 mod 16) + 16 * (n div 16 mod 16) + n mod 16 = n"
    using mult_div_mod_eq [of 16 n] mult_div_mod_eq [of 16 "n div 16"] mult_div_mod_eq [of 16 "n div 256"] by linarith
  then show ?thesis
    using \<open>n < 65536\<close> by (simp add: hex4_def)
qed

lemma json_char_u: "n < 0xD800 \<Longrightarrow> json_char CHR 0x5C (CHR ''u'' # hex4 n @ t) = Some (utf8_enc n, t)"
proof -
  assume n: "n < 0xD800"
  have "length (hex4 n) = 4" by (simp add: hex4_def)
  with n hex4_val_hex4 [of n t] show ?thesis
    by (simp add: json_char_def Let_def u_escape_def)
qed

lemma json_char_escape:
  assumes "n < 32 \<or> n \<in> {34, 38, 60, 62, 92}"
  shows "json_char CHR 0x5C (tl (json_escape n) @ t) = Some ([char_of n], t)"
proof (cases "n \<in> {34, 92, 8, 12, 10, 13, 9}")
  case True
  have "char_of (34 :: nat) = CHR 0x22" "char_of (92 :: nat) = CHR 0x5C" by code_simp+
  with True show ?thesis
    by (auto simp: json_escape_def json_char_def simple_escape_def)
next
  case False
  then have "tl (json_escape n) = CHR ''u'' # hex4 n"
    by (simp add: json_escape_def Let_def)
  moreover have "utf8_enc n = [char_of n]"
    using assms by (auto simp: utf8_enc_def)
  ultimately show ?thesis
    using json_char_u [of n t] assms by auto
qed

lemma unquote_escape:
  assumes "n < 128" and "\<not> json_safe (char_of n)"
  shows "json_unquote (json_escape n @ t) = map_option (apfst ((@) [char_of n])) (json_unquote t)"
proof -
  have "n < 32 \<or> n \<in> {34, 38, 60, 62, 92}"
    using assms by (auto simp: json_safe_def Let_def)
  note c = json_char_escape [OF this, of t]
  have "json_escape n = CHR 0x5C # tl (json_escape n)"
    by (simp add: json_escape_def Let_def)
  then obtain u where "json_escape n = CHR 0x5C # u" by blast
  with c show ?thesis by simp
qed

lemma unquote_rune:
  assumes "rune_len (codes s) = k" and "k \<noteq> 0" and "\<not> (of_char (hd s) :: nat) < 128"
  shows "json_unquote (take k s @ t) = map_option (apfst ((@) (take k s))) (json_unquote t)"
proof -
  from assms(1,2) have b: "2 \<le> k" "k \<le> length s"
    using rune_len_bounds [of "codes s"] by auto
  then obtain c r where s: "s = c # r" by (cases s) auto
  have t: "take k s @ t = c # (take (k - 1) r @ t)"
    using b s by (cases k) auto
  have "rune_len (codes (take k s @ t)) = k"
    using rune_len_take [OF assms(1,2), of "codes t"] by (simp add: take_map)
  moreover have "take k (c # take (k - 1) r @ t) = take k s"
    using b unfolding t [symmetric] by simp
  ultimately have "json_char c (take (k - 1) r @ t) = Some (take k s, t)"
    using assms(2,3) b s t by (simp add: json_char_def Let_def)
  moreover have "of_char c \<noteq> (34 :: nat)" using assms(3) s by auto
  ultimately show ?thesis unfolding t by simp
qed

lemma unquote_u2028:
  "json_unquote ([CHR 0x5C] @ ''u2028'' @ t) = map_option (apfst ((@) (map char_of [0xE2, 0x80, 0xA8 :: nat]))) (json_unquote t)"
  "json_unquote ([CHR 0x5C] @ ''u2029'' @ t) = map_option (apfst ((@) (map char_of [0xE2, 0x80, 0xA9 :: nat]))) (json_unquote t)"
proof -
  have "hex_digit 0 = CHR ''0''" "hex_digit 2 = CHR ''2''" "hex_digit 8 = CHR ''8''" "hex_digit 9 = CHR ''9''"
    by code_simp+
  then have "hex4 0x2028 = ''2028''" "hex4 0x2029 = ''2029''"
    by (simp_all add: hex4_def)
  moreover have "utf8_enc 0x2028 = map char_of [0xE2, 0x80, 0xA8 :: nat]" "utf8_enc 0x2029 = map char_of [0xE2, 0x80, 0xA9 :: nat]"
    by (simp_all add: utf8_enc_def)
  ultimately show "json_unquote ([CHR 0x5C] @ ''u2028'' @ t) = map_option (apfst ((@) (map char_of [0xE2, 0x80, 0xA8 :: nat]))) (json_unquote t)"
    "json_unquote ([CHR 0x5C] @ ''u2029'' @ t) = map_option (apfst ((@) (map char_of [0xE2, 0x80, 0xA9 :: nat]))) (json_unquote t)"
    using json_char_u [of "0x2028" t] json_char_u [of "0x2029" t] by simp_all
qed

lemma codes_inverse: "codes s = ns \<Longrightarrow> s = map char_of ns"
  by (auto simp: comp_def)

lemma json_unquote_string_body:
  "valid_utf8 s \<Longrightarrow> json_unquote (json_string_body s @ char_of (34 :: nat) # r) = Some (s, r)"
proof (induction s rule: json_string_body.induct)
  case 1
  then show ?case by simp
next
  case (2 c s)
  define k where "k = rune_len (codes (c # s))"
  show ?case
  proof (cases "(of_char c :: nat) < 128")
    case True
    show ?thesis
    proof (cases "json_safe c")
      case safe: True
      then have "json_char c t = Some ([c], t)" "of_char c \<noteq> (34 :: nat)" for t
        by (auto simp: json_safe_def json_char_def Let_def)
      with 2 True safe show ?thesis by simp
    next
      case False
      with unquote_escape [of "of_char c"] 2 True show ?thesis by simp
    qed
  next
    case False
    with 2(6) have k0: "k \<noteq> 0" and v: "valid_utf8 (drop k (c # s))"
      by (auto simp: k_def split: if_splits)
    have rec: "json_unquote (json_string_body (drop k (c # s)) @ char_of (34 :: nat) # r) = Some (drop k (c # s), r)"
      using 2(3-5) False k0 v unfolding k_def by metis
    have tk: "take k (c # s) @ drop k (c # s) = c # s" by (rule append_take_drop_id)
    consider "codes (take k (c # s)) = [0xE2, 0x80, 0xA8]" | "codes (take k (c # s)) = [0xE2, 0x80, 0xA9]"
      | "codes (take k (c # s)) \<noteq> [0xE2, 0x80, 0xA8]" "codes (take k (c # s)) \<noteq> [0xE2, 0x80, 0xA9]"
      by blast
    then show ?thesis
    proof cases
      case 1
      have "json_string_body (c # s) = [CHR 0x5C] @ ''u2028'' @ json_string_body (drop k (c # s))"
        using False k0 1 by (simp only: json_string_body.simps Let_def k_def [symmetric] if_False if_True refl)
      then show ?thesis
        using unquote_u2028(1) codes_inverse [OF 1] rec tk by (simp del: json_string_body.simps)
    next
      case 2
      have "json_string_body (c # s) = [CHR 0x5C] @ ''u2029'' @ json_string_body (drop k (c # s))"
        using False k0 2 by (simp only: json_string_body.simps Let_def k_def [symmetric] if_False if_True refl) simp
      then show ?thesis
        using unquote_u2028(2) codes_inverse [OF 2] rec tk by (simp del: json_string_body.simps)
    next
      case 3
      have "json_string_body (c # s) = take k (c # s) @ json_string_body (drop k (c # s))"
        using False k0 3 by (simp only: json_string_body.simps Let_def k_def [symmetric] if_False if_True refl)
      then show ?thesis
        using unquote_rune [OF k_def [symmetric] k0] False rec tk by (simp del: json_string_body.simps)
    qed
  qed
qed

lemma valid_utf8_safe: "list_all json_safe s \<Longrightarrow> valid_utf8 s"
  by (induction s) (auto simp: json_safe_def Let_def)

lemma valid_utf8_ascii: "list_all (\<lambda>c. (of_char c :: nat) < 128) s \<Longrightarrow> valid_utf8 s"
  by (induction s) auto

text \<open>
  What \<open>json_Marshal\<close> writes for a struct with string fields is read back as an object with
  the same members, whatever follows it.
\<close>

abbreviation json_pair :: "gostring \<times> gostring \<Rightarrow> gostring" where
  "json_pair \<equiv> \<lambda>(k, v). json_string k @ '':'' @ json_string v"

lemma json_members_Marshal:
  assumes "ms \<noteq> []" and "\<forall>(k, v) \<in> set ms. valid_utf8 k \<and> valid_utf8 v" and "Suc (length ms) \<le> n"
  shows "json_members n d (Join (map json_pair ms) '','' @ CHR ''}'' # r) = Some (map (apsnd JString) ms, r)"
  using assms
proof (induction ms arbitrary: n)
  case (Cons m ms)
  obtain k v where m: "m = (k, v)" by force
  obtain n' where n: "n = Suc (Suc n')"
    using Cons.prems(3) by (metis Suc_le_D Suc_le_mono length_Cons)
  have q: "char_of (34 :: nat) = CHR 0x22" by code_simp
  have sp: "\<not> json_space c" if "c \<in> {CHR ''{'', CHR ''}'', CHR '':'', CHR '','', CHR 0x22}" for c
    using that by (auto simp: json_space_def)
  have kv: "valid_utf8 k" "valid_utf8 v" using Cons.prems(2) m by auto
  have u: "json_unquote (json_string_body x @ CHR 0x22 # t) = Some (x, t)" if "valid_utf8 x" for x t
    using json_unquote_string_body [OF that, of t] by (simp only: q)
  note st = json_string_def q n m
  show ?case
  proof (cases "ms = []")
    case True
    with kv show ?thesis by (simp add: st sp u HasPrefix_def)
  next
    case False
    then have ih: "json_members (Suc n') d (Join (map json_pair ms) '','' @ CHR ''}'' # r) = Some (map (apsnd JString) ms, r)"
      using Cons n by (intro Cons.IH) auto
    from False have "Join (map json_pair (m # ms)) '','' = json_pair m @ CHR '','' # Join (map json_pair ms) '',''"
      by (cases ms) simp_all
    with kv ih show ?thesis by (simp add: st sp u HasPrefix_def del: json_members.simps(2) add: json_members.simps(2) [of "Suc n'"])
  qed
qed simp

lemma json_value_Marshal:
  assumes "ms \<noteq> []" and "\<forall>(k, v) \<in> set ms. valid_utf8 k \<and> valid_utf8 v" and "Suc (Suc (length ms)) \<le> n" and "d < 10000"
  shows "json_value n d (json_Marshal ms @ r) = Some (JObject (map (apsnd JString) ms), r)"
proof -
  obtain n' where n: "n = Suc n'" "Suc (length ms) \<le> n'"
    using assms(3) by (metis Suc_le_D Suc_le_mono)
  let ?t = "Join (map json_pair ms) '','' @ CHR ''}'' # r"
  obtain t where t: "?t = CHR 0x22 # t"
  proof -
    have "char_of (34 :: nat) = CHR 0x22" by code_simp
    with that assms(1) show thesis by (cases ms; cases "tl ms") (auto simp: json_string_def)
  qed
  have "\<not> json_space CHR 0x22" "\<not> json_space CHR ''{''" by (simp_all add: json_space_def)
  with json_members_Marshal [OF assms(1,2) n(2), of "Suc d" r] assms(4) n(1) t show ?thesis
    by (simp add: json_Marshal_def HasPrefix_def)
qed

lemma json_fuel_Marshal: "Suc (Suc (length ms)) \<le> 2 * length (json_Marshal ms @ r) + 1" if "ms \<noteq> []"
proof -
  have "length ms \<le> Suc (length (Join (map json_pair ms) '',''))"
  proof (induction ms)
    case (Cons m ms)
    then show ?case by (cases ms; cases m) (auto simp: json_string_def)
  qed simp
  with that show ?thesis by (cases ms) (auto simp: json_Marshal_def)
qed

lemma json_read_Marshal:
  assumes "ms \<noteq> []" and "\<forall>(k, v) \<in> set ms. valid_utf8 k \<and> valid_utf8 v"
  shows "json_value (2 * length (json_Marshal ms @ r) + 1) 0 (json_Marshal ms @ r) = Some (JObject (map (apsnd JString) ms), r)"
  using json_value_Marshal [OF assms json_fuel_Marshal [OF assms(1)]] by simp

lemma json_Unmarshal_Marshal:
  assumes "list_all json_safe name" and "valid_utf8 v"
  shows "json_Unmarshal name (json_Marshal [(name, v)]) = Inr v"
proof -
  have "json_parse (json_Marshal [(name, v)]) = Some (JObject [(name, JString v)])"
    using json_read_Marshal [of "[(name, v)]" "[]"] valid_utf8_safe [OF assms(1)] assms(2)
    by (simp add: json_parse_def del: json_value.simps)
  then show ?thesis
    by (simp add: json_Unmarshal_def)
qed

end
