(* ===== verification/TunnelTransport.thy ===== *)
theory TunnelTransport
  imports Tunnel GoJson
begin

text \<open>
  The running tunnel: \<^verbatim>\<open>attach\<close> of \<^verbatim>\<open>server/server.go\<close> and the goroutines of
  \<^verbatim>\<open>server/tunnel_transport.go\<close>. Each handler, and each turn of a goroutine's loop between
  two blocking calls, is a function on the tunnel state; the step relation interleaves them
  in any order, together with timers that fire and requests that arrive.
\<close>

section \<open>Streams\<close>

definition newTunnelStream :: "nat \<Rightarrow> u32 \<Rightarrow> bconn \<Rightarrow> tunnelStream" where
  "newTunnelStream p sid c =
     \<lparr>st_id = sid, st_session = p, browser = c, loggedIn = False, loggedOut = False,
      bytesIn = 0, bytesOut = 0, st_closed = False\<rparr>"

text \<open>Browser connections come from \<^verbatim>\<open>AcceptTCP\<close>, so they can be closed for writing only.\<close>

definition stream_closeWrite :: "tunnelStream \<Rightarrow> tunnelStream" where
  "stream_closeWrite s = s\<lparr>browser := bconn_CloseWrite (browser s)\<rparr>"

definition update_sess :: "nat \<Rightarrow> (tunnelSession \<Rightarrow> tunnelSession) \<Rightarrow> tunnel \<Rightarrow> tunnel" where
  "update_sess p f t = t\<lparr>sess := (sess t)(p := map_option f (sess t p))\<rparr>"

definition update_strm :: "nat \<Rightarrow> (tunnelStream \<Rightarrow> tunnelStream) \<Rightarrow> tunnel \<Rightarrow> tunnel" where
  "update_strm q f t = t\<lparr>strm := (strm t)(q := map_option f (strm t q))\<rparr>"

definition touch_sess :: "nat \<Rightarrow> tunnel \<Rightarrow> tunnel" where
  "touch_sess p t = update_sess p (touch (now t)) t"

definition getStream :: "nat \<Rightarrow> u32 \<Rightarrow> tunnel \<Rightarrow> nat option" where
  "getStream p i t = (case sess t p of None \<Rightarrow> None | Some s \<Rightarrow> map_of (streams s) i)"

definition dropStream :: "nat \<Rightarrow> u32 \<Rightarrow> tunnel \<Rightarrow> tunnel" where
  "dropStream p i t =
     (case getStream p i t of
        None \<Rightarrow> t
      | Some q \<Rightarrow>
          update_strm q stream_close
            (update_sess p (\<lambda>s. s\<lparr>streams := filter (\<lambda>e. fst e \<noteq> i) (streams s)\<rparr>) t))"

text \<open>\<^verbatim>\<open>session.peer.writeFrame\<close>; every caller runs after the peer is set.\<close>

definition peer_writeFrame :: "nat \<Rightarrow> tunnelFrame \<Rightarrow> tunnel \<Rightarrow> goerr option \<times> tunnel" where
  "peer_writeFrame p f t =
     (case sess t p of
        Some s \<Rightarrow>
          (case peer s of
             Some ep \<Rightarrow> (case writeFrame ep f of (r, ep') \<Rightarrow> (r, update_sess p (\<lambda>s. s\<lparr>peer := Some ep'\<rparr>) t))
           | None \<Rightarrow> (Some (Errorf ''nil peer''), t))
      | None \<Rightarrow> (Some (Errorf ''nil session''), t))"

definition close_by_id :: "nat \<Rightarrow> tunnel \<Rightarrow> tunnel" where
  "close_by_id p t = (case sess t p of None \<Rightarrow> t | Some s \<Rightarrow> closeSession (sess_id s) t)"

section \<open>Attaching a peer\<close>

text \<open>
  What becomes of a new connection: it is closed, it becomes the peer of a session, or it
  is handed to the RPC server with a reader that starts over (the first two are \<^verbatim>\<open>true, nil\<close>
  in the code, the last one \<^verbatim>\<open>false\<close> with the reader).
\<close>

datatype attach_result = ConnClosed | Attached | NotHandled stream

text \<open>With the session \<open>s\<close> of the identifier found at \<open>p\<close>: validate the frame and take the connection.\<close>

definition attach_session ::
    "(gostring \<Rightarrow> goerr option) \<Rightarrow> gostring \<Rightarrow> nat \<Rightarrow> tunnelSession \<Rightarrow> stream \<Rightarrow> sink \<Rightarrow> tunnel \<Rightarrow> attach_result \<times> tunnel" where
  "attach_session opener sessionID p s replay conn t =
     (case readFrame (newTunnelEndpoint replay conn (sess_macKey s)) of
        (r, endpoint) \<Rightarrow>
          if (case r of Inl _ \<Rightarrow> True
              | Inr frame \<Rightarrow> frame_type frame \<noteq> tunnelFrameAttach \<or> string_of (Payload frame) \<noteq> sessionID)
          then (ConnClosed, closeSession sessionID (update_sess p (\<lambda>s. s\<lparr>closeReason := AttachInvalid\<rparr>) t))
          else
            (let t1 = update_sess p (\<lambda>s. s\<lparr>attachTimer := stop_timer (attachTimer s)\<rparr>) t
             in if peer s \<noteq> None then (ConnClosed, t1)
                else
                  (let t2 = touch_sess p (update_sess p (\<lambda>s. markPeerReady (s\<lparr>peer := Some endpoint\<rparr>)) t1);
                       t3 = (if launched s then t2
                             else
                               (let t' = (update_sess p (\<lambda>s. s\<lparr>launched := True\<rparr>) t2)\<lparr>opened := opened t @ [(p, openURL s)]\<rparr>
                                in case opener (openURL s) of
                                     None \<Rightarrow> t'
                                   | Some err \<Rightarrow>
                                       closeSession sessionID (update_sess p (\<lambda>s. s\<lparr>closeReason := BrowserOpenFailed err\<rparr>) t')))
                   in (Attached, t3\<lparr>tasks := insert (ReadingPeer p) (tasks t3)\<rparr>))))"

definition attach ::
    "(gostring \<Rightarrow> goerr option) \<Rightarrow> stream \<Rightarrow> sink \<Rightarrow> tunnel \<Rightarrow> attach_result \<times> tunnel" where
  "attach opener br conn t =
     (if length (avail br) < 4 then (ConnClosed, t)
      else
        (let frameLen = unat (BE_Uint32 (take 4 (avail br)))
         in if frameLen \<le> 0 \<or> frameLen > unat MaxFrameSize then (NotHandled br, t)
            else case ReadFrame br of
              (Inl err, _) \<Rightarrow> (ConnClosed, t)
            | (Inr raw, br') \<Rightarrow>
                (let replay = br'\<lparr>avail := appendFrame raw @ avail br'\<rparr>
                 in if length raw < 1 + 4 + tunnelMACSize then (NotHandled replay, t)
                    else if raw ! 0 \<noteq> tunnelFrameAttach then (NotHandled replay, t)
                    else
                      (let sessionIDBytes = take (length raw - tunnelMACSize - 5) (drop 5 raw);
                           sessionID = string_of sessionIDBytes
                       in if sessionIDBytes = [] then (ConnClosed, t)
                          else (case sessions t sessionID of
                                  None \<Rightarrow> (ConnClosed, t)
                                | Some p \<Rightarrow>
                                    (case sess t p of
                                       None \<Rightarrow> (ConnClosed, t)
                                     | Some s \<Rightarrow> attach_session opener sessionID p s replay conn t))))))"

section \<open>The goroutines\<close>

text \<open>
  \<^verbatim>\<open>serveBrowserListener\<close>: accepting a connection or failing to; then, with the connection
  in hand, going on when the peer is ready or giving up when the session is closed.
\<close>

definition serve_accept :: "nat \<Rightarrow> tunnelListener \<Rightarrow> bconn \<Rightarrow> tunnel \<Rightarrow> tunnel" where
  "serve_accept p l c t = t\<lparr>tasks := insert (AwaitPeer p l c) (tasks t - {Accepting p l})\<rparr>"

definition serve_accept_failed :: "nat \<Rightarrow> tunnelListener \<Rightarrow> tunnel \<Rightarrow> tunnel" where
  "serve_accept_failed p l t = t\<lparr>tasks := tasks t - {Accepting p l}\<rparr>"

definition serve_session_closed :: "nat \<Rightarrow> tunnelListener \<Rightarrow> bconn \<Rightarrow> tunnel \<Rightarrow> tunnel" where
  "serve_session_closed p l c t = t\<lparr>tasks := tasks t - {AwaitPeer p l c}\<rparr>"

definition serve_peer_ready :: "nat \<Rightarrow> tunnelListener \<Rightarrow> bconn \<Rightarrow> tunnel \<Rightarrow> tunnel" where
  "serve_peer_ready p l c t =
     (case sess t p of
        None \<Rightarrow> t
      | Some s \<Rightarrow>
          (case nextID s of
             (streamID, s1) \<Rightarrow>
               (let q = next_ptr t;
                    t1 = t\<lparr>tasks := tasks t - {AwaitPeer p l c}, next_ptr := q + 1,
                           strm := (strm t)(q \<mapsto> newTunnelStream p streamID c),
                           sess := (sess t)(p \<mapsto> s1\<lparr>streams := (streamID, q) # filter (\<lambda>e. fst e \<noteq> streamID) (streams s1)\<rparr>)\<rparr>;
                    t2 = touch_sess p t1;
                    payload = bytes_of (json_Marshal [(''dial_addr'', dialAddr l)])
                in case peer_writeFrame p \<lparr>frame_type = tunnelFrameOpen, StreamID = streamID, Payload = payload\<rparr> t2 of
                     (Some err, t3) \<Rightarrow> close_by_id p (update_strm q stream_close t3)
                   | (None, t3) \<Rightarrow> t3\<lparr>tasks := insert (Accepting p l) (insert (Piping p q) (tasks t3))\<rparr>)))"

text \<open>
  One turn of \<^verbatim>\<open>pipeBrowserToPeer\<close> with a buffer of 32 KiB, of which the system fills \<open>k\<close>
  bytes at most; the deferred \<^verbatim>\<open>dropStream\<close> runs when the loop ends.
\<close>

definition pipe_end :: "nat \<Rightarrow> nat \<Rightarrow> u32 \<Rightarrow> tunnel \<Rightarrow> tunnel" where
  "pipe_end p q i t = dropStream p i (t\<lparr>tasks := tasks t - {Piping p q}\<rparr>)"

definition pipeBrowserToPeer :: "nat \<Rightarrow> nat \<Rightarrow> nat \<Rightarrow> tunnel \<Rightarrow> tunnel" where
  "pipeBrowserToPeer k p q t =
     (case strm t q of
        None \<Rightarrow> t
      | Some st \<Rightarrow>
          (case bconn_Read (min k (32 * 1024)) (browser st) of
             (buf, Some err, c) \<Rightarrow>
               (let f = (if err = EOF then tunnelFrameEOF else tunnelFrameClose)
                in pipe_end p q (st_id st)
                     (snd (peer_writeFrame p \<lparr>frame_type = f, StreamID = st_id st, Payload = []\<rparr> t)))
           | (buf, None, c) \<Rightarrow>
               (let t1 = touch_sess p (update_strm q (\<lambda>s. s\<lparr>browser := c, loggedOut := True,
                                          bytesOut := bytesOut s + word_of_nat (length buf)\<rparr>) t)
                in case peer_writeFrame p \<lparr>frame_type = tunnelFrameData, StreamID = st_id st, Payload = buf\<rparr> t1 of
                     (None, t2) \<Rightarrow> t2
                   | (Some err, t2) \<Rightarrow>
                       pipe_end p q (st_id st) (close_by_id p (update_strm q stream_close t2)))))"

text \<open>One turn of \<^verbatim>\<open>readPeerFrames\<close>; it ends on an error or a frame type it does not know.\<close>

definition read_end :: "nat \<Rightarrow> reason \<Rightarrow> tunnel \<Rightarrow> tunnel" where
  "read_end p why t =
     close_by_id p (update_sess p (\<lambda>s. s\<lparr>closeReason := why\<rparr>) (t\<lparr>tasks := tasks t - {ReadingPeer p}\<rparr>))"

definition handle_data :: "nat \<Rightarrow> tunnelFrame \<Rightarrow> tunnel \<Rightarrow> tunnel" where
  "handle_data p frame t =
     (case getStream p (StreamID frame) t of
        None \<Rightarrow> t
      | Some q \<Rightarrow>
          (case strm t q of
             None \<Rightarrow> t
           | Some st \<Rightarrow>
               (case bconn_Write (browser st) (Payload frame) of
                  (Some err, c) \<Rightarrow>
                    dropStream p (StreamID frame)
                      (update_strm q (\<lambda>s. stream_close (s\<lparr>browser := c\<rparr>)) t)
                | (None, c) \<Rightarrow>
                    update_strm q (\<lambda>s. s\<lparr>browser := c, loggedIn := True,
                                         bytesIn := bytesIn s + word_of_nat (length (Payload frame))\<rparr>) t)))"

definition readPeerFrames :: "nat \<Rightarrow> tunnel \<Rightarrow> tunnel" where
  "readPeerFrames p t0 =
     (case sess t0 p of
        None \<Rightarrow> t0
      | Some s \<Rightarrow>
          (case peer s of
             None \<Rightarrow> t0
           | Some ep \<Rightarrow>
               (case readFrame ep of
                  (r, ep') \<Rightarrow>
                    (let t = update_sess p (\<lambda>s. s\<lparr>peer := Some ep'\<rparr>) t0
                     in case r of
                          Inl err \<Rightarrow> read_end p (PeerReadFailed err) t
                        | Inr frame \<Rightarrow>
                            if frame_type frame = tunnelFrameAttach then t
                            else if frame_type frame = tunnelFrameData then handle_data p frame (touch_sess p t)
                            else if frame_type frame = tunnelFrameEOF then
                              (let t = touch_sess p t
                               in case getStream p (StreamID frame) t of
                                    None \<Rightarrow> t
                                  | Some q \<Rightarrow> update_strm q stream_closeWrite t)
                            else if frame_type frame = tunnelFrameClose then
                              (let t = touch_sess p t
                               in case getStream p (StreamID frame) t of
                                    None \<Rightarrow> t
                                  | Some q \<Rightarrow> dropStream p (StreamID frame) (update_strm q stream_close t))
                            else if frame_type frame = tunnelFramePing then
                              snd (peer_writeFrame p \<lparr>frame_type = tunnelFramePong, StreamID = 0, Payload = []\<rparr> t)
                            else if frame_type frame = tunnelFramePong \<or> frame_type frame = tunnelFrameError then t
                            else read_end p (UnknownFrameType (frame_type frame)) t))))"

section \<open>Timers\<close>

definition attach_timeout :: "nat \<Rightarrow> tunnel \<Rightarrow> tunnel" where
  "attach_timeout p t =
     close_by_id p (update_sess p (\<lambda>s. s\<lparr>attachTimer := stop_timer (attachTimer s), closeReason := AttachTimedOut (attachTO s)\<rparr>) t)"

definition idle_timeout :: "nat \<Rightarrow> tunnel \<Rightarrow> tunnel" where
  "idle_timeout p t =
     close_by_id p (update_sess p (\<lambda>s. s\<lparr>idleTimer := stop_timer (idleTimer s), closeReason := IdleTimedOut (idleTO s)\<rparr>) t)"

section \<open>Steps\<close>

text \<open>
  All interleavings of the handlers: first the goroutines and timers of the sessions, where
  \<open>Lose\<close> is the loss of bytes a closed connection had not yet handed to its reader.
\<close>

inductive task_step :: "tunnel \<Rightarrow> tunnel \<Rightarrow> bool" where
  Accept: "Accepting p l \<in> tasks t \<Longrightarrow> bound (net t) (laddr l) = Some (listener l) \<Longrightarrow>
           task_step t (serve_accept p l c t)"
| AcceptFailed: "Accepting p l \<in> tasks t \<Longrightarrow> task_step t (serve_accept_failed p l t)"
| PeerReady: "AwaitPeer p l c \<in> tasks t \<Longrightarrow> sess t p = Some s \<Longrightarrow> peerReady s \<Longrightarrow>
           task_step t (serve_peer_ready p l c t)"
| SessionClosed: "AwaitPeer p l c \<in> tasks t \<Longrightarrow> sess t p = Some s \<Longrightarrow> sess_closed s \<Longrightarrow>
           task_step t (serve_session_closed p l c t)"
| Pipe: "Piping p q \<in> tasks t \<Longrightarrow> 0 < k \<Longrightarrow> task_step t (pipeBrowserToPeer k p q t)"
| ReadPeer: "ReadingPeer p \<in> tasks t \<Longrightarrow> task_step t (readPeerFrames p t)"
| AttachTimeout: "sess t p = Some s \<Longrightarrow> attachTimer s = Some (Armed d) \<Longrightarrow> d \<le> now t \<Longrightarrow>
           task_step t (attach_timeout p t)"
| IdleTimeout: "sess t p = Some s \<Longrightarrow> idleTimer s = Some (Armed d) \<Longrightarrow> d \<le> now t \<Longrightarrow>
           task_step t (idle_timeout p t)"
| Tick: "0 \<le> d \<Longrightarrow> task_step t (t\<lparr>now := now t + d\<rparr>)"
| Lose: "sess t p = Some s \<Longrightarrow> peer s = Some ep \<Longrightarrow> ep_closed ep \<Longrightarrow>
           task_step t (update_sess p (\<lambda>s. s\<lparr>peer := Some (ep\<lparr>ep_in := (ep_in ep)\<lparr>avail := take n (avail (ep_in ep))\<rparr>\<rparr>)\<rparr>) t)"

text \<open>With them the calls of \<^verbatim>\<open>Open\<close> and the connections that \<^verbatim>\<open>attach\<close> looks at. A session
  identifier is 16 random bytes and is taken to be one never used before.\<close>

inductive tstep :: "(gostring \<Rightarrow> goerr option) \<Rightarrow> tunnel \<Rightarrow> tunnel \<Rightarrow> bool" for opener where
  Open: "\<forall>sid p s. newID = Inr sid \<longrightarrow> sess t p = Some s \<longrightarrow> sess_id s \<noteq> sid \<Longrightarrow>
           tstep opener t (snd (Tunnel_Open newID req t))"
| Attach: "tstep opener t (snd (attach opener br conn t))"
| Task: "task_step t t' \<Longrightarrow> tstep opener t t'"

section \<open>The invariant\<close>

definition ep_ok :: "bytes \<Rightarrow> tunnelEndpoint \<Rightarrow> bool" where
  "ep_ok key ep \<longleftrightarrow> macKey ep = key \<and> (ep_closed ep \<longrightarrow> dead (ep_out ep))"

definition st_ok :: "tunnelStream \<Rightarrow> bool" where
  "st_ok st \<longleftrightarrow> (st_closed st \<longrightarrow> b_closed (browser st) \<and> dead (b_out (browser st)))"

definition sess_inv :: "tunnel \<Rightarrow> nat \<Rightarrow> tunnelSession \<Rightarrow> bool" where
  "sess_inv t p s \<longleftrightarrow>
     length (sess_macKey s) = 32 \<and>
     (\<forall>l \<in> set (listeners s). IP_IsLoopback (addr_IP (laddr l)) \<and> listener l < next_sock (net t)) \<and>
     (\<forall>ep. peer s = Some ep \<longrightarrow> ep_ok (sess_macKey s) ep \<and> (sess_closed s \<longrightarrow> ep_closed ep)) \<and>
     peerReady s = (peer s \<noteq> None) \<and> launched s = (peer s \<noteq> None) \<and>
     filter (\<lambda>e. fst e = p) (opened t) = (if launched s then [(p, openURL s)] else []) \<and>
     distinct (map fst (streams s)) \<and>
     (\<forall>i q. (i, q) \<in> set (streams s) \<longrightarrow>
        (\<exists>st. strm t q = Some st \<and> st_id st = i \<and> st_session st = p \<and> (sess_closed s \<longrightarrow> st_closed st))) \<and>
     (\<forall>l \<in> set (listeners s).
        if sess_closed s then listener l \<notin> ran (bound (net t)) else bound (net t) (laddr l) = Some (listener l)) \<and>
     (\<not> sess_closed s \<longrightarrow> sessions t (sess_id s) = Some p)"

fun task_ok :: "tunnel \<Rightarrow> task \<Rightarrow> bool" where
  "task_ok t (Accepting p l) = (\<exists>s. sess t p = Some s \<and> l \<in> set (listeners s))"
| "task_ok t (AwaitPeer p l c) = (\<exists>s. sess t p = Some s \<and> l \<in> set (listeners s))"
| "task_ok t (Piping p q) = ((\<exists>s. sess t p = Some s \<and> peer s \<noteq> None) \<and> (\<exists>st. strm t q = Some st \<and> st_session st = p))"
| "task_ok t (ReadingPeer p) = (\<exists>s. sess t p = Some s \<and> peer s \<noteq> None)"

definition tinv :: "tunnel \<Rightarrow> bool" where
  "tinv t \<longleftrightarrow>
     net_ok (net t) \<and>
     (\<forall>p s. sess t p = Some s \<longrightarrow> p < next_ptr t \<and> sess_inv t p s) \<and>
     (\<forall>q st. strm t q = Some st \<longrightarrow> q < next_ptr t \<and> st_ok st) \<and>
     (\<forall>sid p. sessions t sid = Some p \<longrightarrow> (\<exists>s. sess t p = Some s \<and> sess_id s = sid \<and> \<not> sess_closed s)) \<and>
     (\<forall>p p' s s' l l'. sess t p = Some s \<longrightarrow> sess t p' = Some s' \<longrightarrow> l \<in> set (listeners s) \<longrightarrow>
        l' \<in> set (listeners s') \<longrightarrow> listener l = listener l' \<longrightarrow> p = p') \<and>
     (\<forall>e \<in> set (opened t). fst e < next_ptr t) \<and>
     (\<forall>k \<in> tasks t. task_ok t k)"

lemma sess_invI:
  assumes "length (sess_macKey s) = 32"
    and "\<And>l. l \<in> set (listeners s) \<Longrightarrow> IP_IsLoopback (addr_IP (laddr l)) \<and> listener l < next_sock (net t)"
    and "\<And>ep. peer s = Some ep \<Longrightarrow> ep_ok (sess_macKey s) ep \<and> (sess_closed s \<longrightarrow> ep_closed ep)"
    and "peerReady s = (peer s \<noteq> None)" and "launched s = (peer s \<noteq> None)"
    and "filter (\<lambda>e. fst e = p) (opened t) = (if launched s then [(p, openURL s)] else [])"
    and "distinct (map fst (streams s))"
    and "\<And>i q. (i, q) \<in> set (streams s) \<Longrightarrow>
        \<exists>st. strm t q = Some st \<and> st_id st = i \<and> st_session st = p \<and> (sess_closed s \<longrightarrow> st_closed st)"
    and "\<And>l. l \<in> set (listeners s) \<Longrightarrow> sess_closed s \<Longrightarrow> listener l \<notin> ran (bound (net t))"
    and "\<And>l. l \<in> set (listeners s) \<Longrightarrow> \<not> sess_closed s \<Longrightarrow> bound (net t) (laddr l) = Some (listener l)"
    and "\<not> sess_closed s \<Longrightarrow> sessions t (sess_id s) = Some p"
  shows "sess_inv t p s"
  unfolding sess_inv_def using assms by auto

lemma sess_invD:
  assumes "sess_inv t p s"
  shows "length (sess_macKey s) = 32"
    and "l \<in> set (listeners s) \<Longrightarrow> IP_IsLoopback (addr_IP (laddr l)) \<and> listener l < next_sock (net t)"
    and "peer s = Some ep \<Longrightarrow> ep_ok (sess_macKey s) ep \<and> (sess_closed s \<longrightarrow> ep_closed ep)"
    and "peerReady s = (peer s \<noteq> None)" and "launched s = (peer s \<noteq> None)"
    and "filter (\<lambda>e. fst e = p) (opened t) = (if launched s then [(p, openURL s)] else [])"
    and "distinct (map fst (streams s))"
    and "(i, q) \<in> set (streams s) \<Longrightarrow>
        \<exists>st. strm t q = Some st \<and> st_id st = i \<and> st_session st = p \<and> (sess_closed s \<longrightarrow> st_closed st)"
    and "l \<in> set (listeners s) \<Longrightarrow> sess_closed s \<Longrightarrow> listener l \<notin> ran (bound (net t))"
    and "l \<in> set (listeners s) \<Longrightarrow> \<not> sess_closed s \<Longrightarrow> bound (net t) (laddr l) = Some (listener l)"
    and "\<not> sess_closed s \<Longrightarrow> sessions t (sess_id s) = Some p"
  using assms unfolding sess_inv_def by (simp_all split: if_splits)

lemma tinvI:
  assumes "net_ok (net t)"
    and "\<And>p s. sess t p = Some s \<Longrightarrow> p < next_ptr t"
    and "\<And>p s. sess t p = Some s \<Longrightarrow> sess_inv t p s"
    and "\<And>q st. strm t q = Some st \<Longrightarrow> q < next_ptr t \<and> st_ok st"
    and "\<And>sid p. sessions t sid = Some p \<Longrightarrow> \<exists>s. sess t p = Some s \<and> sess_id s = sid \<and> \<not> sess_closed s"
    and "\<And>p p' s s' l l'. sess t p = Some s \<Longrightarrow> sess t p' = Some s' \<Longrightarrow> l \<in> set (listeners s) \<Longrightarrow>
        l' \<in> set (listeners s') \<Longrightarrow> listener l = listener l' \<Longrightarrow> p = p'"
    and "\<And>e. e \<in> set (opened t) \<Longrightarrow> fst e < next_ptr t"
    and "\<And>k. k \<in> tasks t \<Longrightarrow> task_ok t k"
  shows "tinv t"
  unfolding tinv_def using assms by blast

lemma tinvD:
  assumes "tinv t"
  shows "net_ok (net t)"
    and "sess t p = Some s \<Longrightarrow> p < next_ptr t"
    and "sess t p = Some s \<Longrightarrow> sess_inv t p s"
    and "strm t q = Some st \<Longrightarrow> q < next_ptr t \<and> st_ok st"
    and "sessions t sid = Some p \<Longrightarrow> \<exists>s. sess t p = Some s \<and> sess_id s = sid \<and> \<not> sess_closed s"
    and "sess t p = Some s \<Longrightarrow> sess t p' = Some s' \<Longrightarrow> l \<in> set (listeners s) \<Longrightarrow>
        l' \<in> set (listeners s') \<Longrightarrow> listener l = listener l' \<Longrightarrow> p = p'"
    and "e \<in> set (opened t) \<Longrightarrow> fst e < next_ptr t"
    and "k \<in> tasks t \<Longrightarrow> task_ok t k"
  using assms unfolding tinv_def by blast+

section \<open>What keeps the invariant\<close>

text \<open>Changes of one session that the rest of the state does not notice.\<close>

definition sess_upd :: "tunnelSession \<Rightarrow> tunnelSession \<Rightarrow> bool" where
  "sess_upd s s' \<longleftrightarrow>
     sess_id s' = sess_id s \<and> sess_macKey s' = sess_macKey s \<and> listeners s' = listeners s \<and>
     openURL s' = openURL s \<and> peerReady s' = peerReady s \<and> launched s' = launched s \<and>
     sess_closed s' = sess_closed s \<and> set (streams s') \<subseteq> set (streams s) \<and>
     (distinct (map fst (streams s)) \<longrightarrow> distinct (map fst (streams s'))) \<and>
     (peer s' = peer s \<or>
      (\<exists>ep ep'. peer s = Some ep \<and> peer s' = Some ep' \<and> macKey ep' = macKey ep \<and>
         ep_closed ep' = ep_closed ep \<and> (dead (ep_out ep) \<longrightarrow> dead (ep_out ep'))))"

definition strm_upd :: "tunnelStream \<Rightarrow> tunnelStream \<Rightarrow> bool" where
  "strm_upd st st' \<longleftrightarrow>
     st_id st' = st_id st \<and> st_session st' = st_session st \<and> (st_closed st \<longrightarrow> st_closed st') \<and> (st_ok st \<longrightarrow> st_ok st')"

lemma sess_upd_peer: "sess_upd s s' \<Longrightarrow> (peer s' = None) = (peer s = None)"
  by (auto simp: sess_upd_def)

lemma sess_inv_upd:
  assumes "sess_inv t p s" and "sess_upd s s'"
  shows "sess_inv t p s'"
proof -
  note I = sess_invD [OF assms(1)]
  have same: "sess_id s' = sess_id s" "sess_macKey s' = sess_macKey s" "listeners s' = listeners s"
      "openURL s' = openURL s" "peerReady s' = peerReady s" "launched s' = launched s" "sess_closed s' = sess_closed s"
    using assms(2) by (auto simp: sess_upd_def)
  have pn: "(peer s' = None) = (peer s = None)"
    using assms(2) by (rule sess_upd_peer)
  show ?thesis
  proof (rule sess_invI)
    show "ep_ok (sess_macKey s') ep' \<and> (sess_closed s' \<longrightarrow> ep_closed ep')" if "peer s' = Some ep'" for ep'
    proof -
      have "peer s' = peer s \<or>
        (\<exists>ep ep'. peer s = Some ep \<and> peer s' = Some ep' \<and> macKey ep' = macKey ep \<and>
          ep_closed ep' = ep_closed ep \<and> (dead (ep_out ep) \<longrightarrow> dead (ep_out ep')))"
        using assms(2) unfolding sess_upd_def by blast
      with that obtain ep where "peer s = Some ep" "macKey ep' = macKey ep" "ep_closed ep' = ep_closed ep"
        "dead (ep_out ep) \<longrightarrow> dead (ep_out ep')" by (elim disjE) auto
      with I(3) [of ep] same show ?thesis by (simp add: ep_ok_def)
    qed
    show "distinct (map fst (streams s'))"
      using assms(2) I(7) by (simp add: sess_upd_def)
    show "\<exists>st. strm t q = Some st \<and> st_id st = i \<and> st_session st = p \<and> (sess_closed s' \<longrightarrow> st_closed st)"
      if "(i, q) \<in> set (streams s')" for i q
      using that assms(2) I(8) [of i q] by (auto simp: sess_upd_def)
  qed (use I same pn in simp_all)
qed

lemma tinv_update_sess:
  assumes "tinv t" and "\<And>s. sess t p = Some s \<Longrightarrow> sess_upd s (f s)"
  shows "tinv (update_sess p f t)"
proof (cases "sess t p")
  case None
  then have "update_sess p f t = t"
    by (simp add: update_sess_def fun_upd_idem)
  with assms(1) show ?thesis by simp
next
  case (Some s0)
  let ?t = "update_sess p f t"
  have sess: "sess ?t = (sess t)(p \<mapsto> f s0)"
    by (simp add: update_sess_def Some)
  have rest: "net ?t = net t" "strm ?t = strm t" "sessions ?t = sessions t" "next_ptr ?t = next_ptr t"
      "opened ?t = opened t" "tasks ?t = tasks t"
    by (simp_all add: update_sess_def)
  have si: "sess_inv ?t p' s = sess_inv t p' s" for p' s
    by (simp add: sess_inv_def rest)
  have u: "sess_upd s0 (f s0)" by (rule assms(2) [OF Some])
  have old: "\<exists>s. sess t p' = Some s \<and> sess_id s' = sess_id s \<and> listeners s' = listeners s \<and> sess_closed s' = sess_closed s \<and>
      (peer s' = None) = (peer s = None) \<and> sess_inv t p' s'" if "sess ?t p' = Some s'" for p' s'
  proof (cases "p' = p")
    case True
    with that sess have "s' = f s0" by simp
    with True u Some sess_inv_upd [OF tinvD(3) [OF assms(1) Some] u] sess_upd_peer [OF u] show ?thesis
      by (simp add: sess_upd_def)
  next
    case False
    with that sess tinvD(3) [OF assms(1)] show ?thesis by auto
  qed
  have new: "\<exists>s'. sess ?t p' = Some s' \<and> sess_id s' = sess_id s \<and> listeners s' = listeners s \<and> sess_closed s' = sess_closed s \<and>
      (peer s' = None) = (peer s = None)" if "sess t p' = Some s" for p' s
    using that u Some sess sess_upd_peer [OF u] by (cases "p' = p") (simp_all add: sess_upd_def)
  show ?thesis
  proof (rule tinvI)
    show "net_ok (net ?t)" using tinvD(1) [OF assms(1)] rest by simp
    show "p' < next_ptr ?t" if "sess ?t p' = Some s'" for p' s'
      using old [OF that] tinvD(2) [OF assms(1)] rest by metis
    show "sess_inv ?t p' s'" if "sess ?t p' = Some s'" for p' s'
      using old [OF that] si by blast
    show "q < next_ptr ?t \<and> st_ok st" if "strm ?t q = Some st" for q st
      using that tinvD(4) [OF assms(1)] rest by simp
    show "\<exists>s. sess ?t p' = Some s \<and> sess_id s = sid \<and> \<not> sess_closed s" if "sessions ?t sid = Some p'" for sid p'
      using that rest tinvD(5) [OF assms(1)] new by metis
    show "p1 = p2" if "sess ?t p1 = Some s1" "sess ?t p2 = Some s2" "l \<in> set (listeners s1)" "l' \<in> set (listeners s2)"
      "listener l = listener l'" for p1 p2 s1 s2 l l'
      using old [OF that(1)] old [OF that(2)] that(3-5) tinvD(6) [OF assms(1)] by metis
    show "fst e < next_ptr ?t" if "e \<in> set (opened ?t)" for e
      using that rest tinvD(7) [OF assms(1)] by simp
    show "task_ok ?t k" if "k \<in> tasks ?t" for k
      using that rest tinvD(8) [OF assms(1), of k] new by (cases k) fastforce+
  qed
qed

lemma tinv_update_strm:
  assumes "tinv t" and "\<And>st. strm t q = Some st \<Longrightarrow> strm_upd st (f st)"
  shows "tinv (update_strm q f t)"
proof -
  let ?t = "update_strm q f t"
  have rest: "net ?t = net t" "sess ?t = sess t" "sessions ?t = sessions t" "next_ptr ?t = next_ptr t"
      "opened ?t = opened t" "tasks ?t = tasks t"
    by (simp_all add: update_strm_def)
  have new: "\<exists>st'. strm ?t q' = Some st' \<and> strm_upd st st'" if "strm t q' = Some st" for q' st
    using that assms(2) by (auto simp: update_strm_def strm_upd_def)
  have old: "\<exists>st. strm t q' = Some st \<and> strm_upd st st'" if "strm ?t q' = Some st'" for q' st'
    using that assms(2) by (auto simp: update_strm_def strm_upd_def split: if_splits)
  have si: "sess_inv ?t p s" if "sess_inv t p s" for p s
  proof -
    have "\<exists>st. strm ?t q' = Some st \<and> st_id st = i \<and> st_session st = p \<and> (sess_closed s \<longrightarrow> st_closed st)"
      if "(i, q') \<in> set (streams s)" for i q'
    proof -
      from sess_invD(8) [OF \<open>sess_inv t p s\<close> that] obtain st where "strm t q' = Some st" "st_id st = i" "st_session st = p"
        "sess_closed s \<longrightarrow> st_closed st" by blast
      with new [of q' st] show ?thesis by (auto simp: strm_upd_def)
    qed
    with sess_invD [OF that] show ?thesis
      by (intro sess_invI) (simp_all add: rest)
  qed
  show ?thesis
  proof (rule tinvI)
    show "q' < next_ptr ?t \<and> st_ok st" if "strm ?t q' = Some st" for q' st
      using old [OF that] tinvD(4) [OF assms(1)] rest by (auto simp: strm_upd_def)
    show "task_ok ?t k" if "k \<in> tasks ?t" for k
      using that rest tinvD(8) [OF assms(1), of k] new by (cases k) (fastforce simp: strm_upd_def)+
  qed (use assms(1) rest tinvD [OF assms(1)] si in auto)
qed

lemma tinv_tasks:
  assumes "tinv t" and "\<And>k. k \<in> T \<Longrightarrow> task_ok t k"
  shows "tinv (t\<lparr>tasks := T\<rparr>)"
proof -
  have si: "sess_inv (t\<lparr>tasks := T\<rparr>) p s = sess_inv t p s" for p s
    by (simp add: sess_inv_def)
  have tk: "task_ok (t\<lparr>tasks := T\<rparr>) k = task_ok t k" for k
    by (cases k) simp_all
  from assms show ?thesis by (simp add: tinv_def si tk)
qed

lemma tinv_now: "tinv t \<Longrightarrow> tinv (t\<lparr>now := x\<rparr>)"
proof -
  have si: "sess_inv (t\<lparr>now := x\<rparr>) p s = sess_inv t p s" for p s
    by (simp add: sess_inv_def)
  have tk: "task_ok (t\<lparr>now := x\<rparr>) k = task_ok t k" for k
    by (cases k) simp_all
  show "tinv t \<Longrightarrow> tinv (t\<lparr>now := x\<rparr>)" by (simp add: tinv_def si tk)
qed

text \<open>Closing a session.\<close>

lemma stream_close_idem [simp]: "stream_close (stream_close st) = stream_close st"
  by (simp add: stream_close_def)

lemma stream_close_simps [simp]:
  "st_closed (stream_close st)" "st_id (stream_close st) = st_id st" "st_session (stream_close st) = st_session st"
  by (simp_all add: stream_close_def)

lemma strm_upd_close: "strm_upd st (stream_close st)"
  by (auto simp: strm_upd_def st_ok_def stream_close_def bconn_Close_def)

lemma close_streams_apply:
  "close_streams qs h q = (if q \<in> set qs then map_option stream_close (h q) else h q)"
  unfolding close_streams_def
  by (induction qs arbitrary: h) (auto simp: option.map_comp comp_def)

lemma next_sock_close [simp]: "next_sock (foldl sock_Close ns ks) = next_sock ns"
  by (induction ks arbitrary: ns) (simp_all add: sock_Close_def)

lemma endpoint_close_ok: "ep_ok key ep \<Longrightarrow> ep_ok key (endpoint_close ep) \<and> ep_closed (endpoint_close ep)"
  by (auto simp: ep_ok_def endpoint_close_def)

lemma tinv_session_close:
  assumes T: "tinv t" and p: "sess t p = Some s" and open_s: "\<not> sess_closed s" and sid: "sess_id s = sid"
  shows "tinv (session_close p (t\<lparr>sessions := (sessions t)(sid := None)\<rparr>))" (is "tinv ?t")
proof -
  let ?s = "s\<lparr>attachTimer := stop_timer (attachTimer s), idleTimer := stop_timer (idleTimer s),
              peer := map_option endpoint_close (peer s), sess_closed := True\<rparr>"
  let ?ks = "map listener (listeners s)" and ?qs = "map snd (streams s)"
  have eqs: "sess ?t = (sess t)(p \<mapsto> ?s)" "strm ?t = close_streams ?qs (strm t)"
      "net ?t = foldl sock_Close (net t) ?ks" "sessions ?t = (sessions t)(sid := None)"
      "next_ptr ?t = next_ptr t" "opened ?t = opened t" "tasks ?t = tasks t"
    using p open_s by (simp_all add: session_close_def)
  note I = sess_invD [OF tinvD(3) [OF T p]]
  have bd: "bound (net ?t) a = (if \<exists>k \<in> set ?ks. bound (net t) a = Some k then None else bound (net t) a)" for a
    unfolding eqs by (rule tcp.foldl_close_held)
  have rn: "k \<notin> ran (bound (net ?t))" if "k \<notin> ran (bound (net t)) \<or> k \<in> set ?ks" for k
    using that bd by (auto simp: ran_def split: if_splits)
  have st: "\<exists>st'. strm ?t q = Some st' \<and> strm_upd st st' \<and> (q \<in> set ?qs \<longrightarrow> st_closed st')" if "strm t q = Some st" for q st
    using that strm_upd_close [of st] by (auto simp: eqs close_streams_apply strm_upd_def)
  have other: "sess_inv ?t p' s'" if q: "sess t p' = Some s'" and ne: "p' \<noteq> p" for p' s'
  proof -
    note J = sess_invD [OF tinvD(3) [OF T q]]
    show ?thesis
    proof (rule sess_invI)
      show "IP_IsLoopback (addr_IP (laddr l)) \<and> listener l < next_sock (net ?t)" if "l \<in> set (listeners s')" for l
        using J(2) [OF that] by (simp add: eqs)
      show "\<exists>st. strm ?t q = Some st \<and> st_id st = i \<and> st_session st = p' \<and> (sess_closed s' \<longrightarrow> st_closed st)"
        if "(i, q) \<in> set (streams s')" for i q
        using J(8) [OF that] st unfolding strm_upd_def by metis
      show "listener l \<notin> ran (bound (net ?t))" if "l \<in> set (listeners s')" "sess_closed s'" for l
        using J(9) [OF that] rn by blast
      show "bound (net ?t) (laddr l) = Some (listener l)" if l: "l \<in> set (listeners s')" "\<not> sess_closed s'" for l
      proof -
        have "listener l \<notin> set ?ks"
          using tinvD(6) [OF T q p l(1)] ne by auto
        then show ?thesis using J(10) [OF l] bd by auto
      qed
      show "sessions ?t (sess_id s') = Some p'" if "\<not> sess_closed s'"
        using J(11) [OF that] I(11) open_s sid ne by (auto simp: eqs)
    qed (use J in \<open>simp_all add: eqs\<close>)
  qed
  have this_one: "sess_inv ?t p ?s"
  proof (rule sess_invI)
    show "ep_ok (sess_macKey ?s) ep \<and> (sess_closed ?s \<longrightarrow> ep_closed ep)" if "peer ?s = Some ep" for ep
      using that I(3) endpoint_close_ok by fastforce
    show "\<exists>st. strm ?t q = Some st \<and> st_id st = i \<and> st_session st = p \<and> (sess_closed ?s \<longrightarrow> st_closed st)"
      if "(i, q) \<in> set (streams ?s)" for i q
    proof -
      from that have "q \<in> set ?qs" by force
      moreover from that I(8) [of i q] obtain st where "strm t q = Some st" "st_id st = i" "st_session st = p" by auto
      ultimately show ?thesis using st [of q] by (auto simp: strm_upd_def)
    qed
    show "listener l \<notin> ran (bound (net ?t))" if "l \<in> set (listeners ?s)" "sess_closed ?s" for l
      by (rule rn) (use that in auto)
  qed (use I in \<open>simp_all add: eqs\<close>)
  have old: "\<exists>s. sess t p' = Some s \<and> listeners s' = listeners s" if "sess ?t p' = Some s'" for p' s'
    using that p by (auto simp: eqs split: if_splits)
  have new: "\<exists>s''. sess ?t p' = Some s'' \<and> listeners s'' = listeners s' \<and> (peer s'' = None) = (peer s' = None)"
    if "sess t p' = Some s'" for p' s'
    using that p by (auto simp: eqs)
  show ?thesis
  proof (rule tinvI)
    show "net_ok (net ?t)"
      unfolding eqs by (rule tcp.foldl_close_ok [OF tinvD(1) [OF T]])
    show "p' < next_ptr ?t" if "sess ?t p' = Some s'" for p' s'
      using old [OF that] tinvD(2) [OF T] by (auto simp: eqs)
    show "sess_inv ?t p' s'" if "sess ?t p' = Some s'" for p' s'
      using that other [of p' s'] this_one by (cases "p' = p") (simp_all add: eqs)
    show "q < next_ptr ?t \<and> st_ok st" if "strm ?t q = Some st" for q st
    proof -
      obtain st0 where st0: "strm t q = Some st0"
        using \<open>strm ?t q = Some st\<close> by (auto simp: eqs close_streams_apply split: if_splits)
      with tinvD(4) [OF T st0] st [OF st0] that show ?thesis by (auto simp: eqs strm_upd_def)
    qed
    show "\<exists>s. sess ?t p' = Some s \<and> sess_id s = sid' \<and> \<not> sess_closed s" if "sessions ?t sid' = Some p'" for sid' p'
    proof -
      from that have q: "sessions t sid' = Some p'" "sid' \<noteq> sid" by (auto simp: eqs split: if_splits)
      from tinvD(5) [OF T q(1)] q(2) p sid show ?thesis by (auto simp: eqs)
    qed
    show "p1 = p2" if "sess ?t p1 = Some s1" "sess ?t p2 = Some s2" "l \<in> set (listeners s1)" "l' \<in> set (listeners s2)"
      "listener l = listener l'" for p1 p2 s1 s2 l l'
      using old [OF that(1)] old [OF that(2)] that(3-5) tinvD(6) [OF T] by metis
    show "fst e < next_ptr ?t" if "e \<in> set (opened ?t)" for e
      using that tinvD(7) [OF T] by (simp add: eqs)
    show "task_ok ?t k" if "k \<in> tasks ?t" for k
    proof -
      from that have "task_ok t k" using tinvD(8) [OF T] by (simp add: eqs)
      then show ?thesis
        using new st by (cases k) (fastforce simp: strm_upd_def)+
    qed
  qed
qed

lemma tinv_closeSession:
  assumes "tinv t"
  shows "tinv (closeSession sid t)"
proof (cases "sessions t sid")
  case None
  with assms show ?thesis by (simp add: closeSession_def)
next
  case (Some p)
  from tinvD(5) [OF assms Some] obtain s where "sess t p = Some s" "\<not> sess_closed s" "sess_id s = sid" by blast
  from tinv_session_close [OF assms this] Some show ?thesis by (simp add: closeSession_def)
qed

lemma tinv_close_by_id: "tinv t \<Longrightarrow> tinv (close_by_id p t)"
  by (simp add: close_by_id_def tinv_closeSession split: option.splits)

text \<open>The small operations.\<close>

lemma tinv_fewer_tasks: "tinv t \<Longrightarrow> T \<subseteq> tasks t \<Longrightarrow> tinv (t\<lparr>tasks := T\<rparr>)"
  by (rule tinv_tasks) (auto dest: tinvD(8))

lemma tinv_touch_sess: "tinv t \<Longrightarrow> tinv (touch_sess p t)"
  unfolding touch_sess_def by (rule tinv_update_sess) (auto simp: sess_upd_def touch_def)

lemma writeFrame_dead_keeps: "writeFrame ep f = (r, ep') \<Longrightarrow> dead (ep_out ep) \<Longrightarrow> dead (ep_out ep')"
  using writeFrame_dead [of ep f] by auto

lemma tinv_peer_writeFrame:
  assumes "tinv t" and "peer_writeFrame p f t = (r, t')"
  shows "tinv t'"
proof (cases "\<exists>s ep. sess t p = Some s \<and> peer s = Some ep")
  case True
  then obtain s ep where s: "sess t p = Some s" "peer s = Some ep" by blast
  obtain r' ep' where w: "writeFrame ep f = (r', ep')" by fastforce
  have t': "t' = update_sess p (\<lambda>s. s\<lparr>peer := Some ep'\<rparr>) t"
    using assms(2) s w by (simp add: peer_writeFrame_def)
  show ?thesis
    unfolding t' using s writeFrame_keeps [OF w] writeFrame_dead_keeps [OF w]
    by (intro tinv_update_sess [OF assms(1)]) (simp add: sess_upd_def)
next
  case False
  with assms(2) have "t' = t"
    by (auto simp: peer_writeFrame_def split: option.splits)
  with assms(1) show ?thesis by simp
qed

lemma tinv_snd_peer_writeFrame: "tinv t \<Longrightarrow> tinv (snd (peer_writeFrame p f t))"
  by (metis prod.collapse tinv_peer_writeFrame)

lemma tinv_dropStream: "tinv t \<Longrightarrow> tinv (dropStream p i t)"
  unfolding dropStream_def
  by (auto split: option.splits intro!: tinv_update_strm tinv_update_sess strm_upd_close
      simp: sess_upd_def distinct_map_filter)

lemma strm_upd_browser:
  assumes "\<not> st_closed st \<or> (b_closed c \<and> dead (b_out c))"
  shows "strm_upd st (st\<lparr>browser := c, loggedIn := a, bytesIn := b\<rparr>)"
    and "strm_upd st (st\<lparr>browser := c, loggedOut := a, bytesOut := b\<rparr>)" and "strm_upd st (st\<lparr>browser := c\<rparr>)"
  using assms by (auto simp: strm_upd_def st_ok_def)

lemma bconn_Write_closed:
  "bconn_Write c p = (r, c') \<Longrightarrow> b_closed c \<and> dead (b_out c) \<Longrightarrow> b_closed c' \<and> dead (b_out c')"
  by (auto simp: bconn_Write_def Write_dead)

lemma bconn_Read_closed: "bconn_Read k c = (buf, r, c') \<Longrightarrow> b_closed c' = b_closed c \<and> b_out c' = b_out c"
  by (auto simp: bconn_Read_def Let_def split: if_splits)

lemma strm_upd_trans: "strm_upd a b \<Longrightarrow> strm_upd b c \<Longrightarrow> strm_upd a c"
  by (simp add: strm_upd_def)

lemma tinv_handle_data:
  assumes "tinv t"
  shows "tinv (handle_data p f t)"
proof (cases "\<exists>q st. getStream p (StreamID f) t = Some q \<and> strm t q = Some st")
  case True
  then obtain q st where q: "getStream p (StreamID f) t = Some q" "strm t q = Some st" by blast
  obtain r c where w: "bconn_Write (browser st) (Payload f) = (r, c)" by fastforce
  have ok: "\<not> st_closed st \<or> (b_closed c \<and> dead (b_out c))"
    using tinvD(4) [OF assms q(2)] bconn_Write_closed [OF w] by (auto simp: st_ok_def)
  have "strm_upd st (stream_close (st\<lparr>browser := c\<rparr>))"
    using strm_upd_browser(3) [OF ok] strm_upd_close strm_upd_trans by blast
  then have "tinv (update_strm q (\<lambda>s. stream_close (s\<lparr>browser := c\<rparr>)) t)"
    using q by (intro tinv_update_strm [OF assms]) simp
  moreover have "tinv (update_strm q (\<lambda>s. s\<lparr>browser := c, loggedIn := True, bytesIn := bytesIn s + n\<rparr>) t)" for n
    using q strm_upd_browser(1) [OF ok] by (intro tinv_update_strm [OF assms]) simp
  ultimately show ?thesis
    using q w by (auto simp: handle_data_def tinv_dropStream split: option.splits)
next
  case False
  with assms show ?thesis by (auto simp: handle_data_def split: option.splits)
qed

lemma tinv_closeReason: "tinv t \<Longrightarrow> tinv (update_sess p (\<lambda>s. s\<lparr>closeReason := why\<rparr>) t)"
  by (rule tinv_update_sess) (auto simp: sess_upd_def)

lemma tinv_read_end: "tinv t \<Longrightarrow> tinv (read_end p why t)"
  unfolding read_end_def by (intro tinv_close_by_id tinv_closeReason tinv_fewer_tasks) auto

lemma strm_upd_closeWrite: "st_ok st \<Longrightarrow> strm_upd st (stream_closeWrite st)"
  by (auto simp: strm_upd_def st_ok_def stream_closeWrite_def bconn_CloseWrite_def)

lemma readFrame_keeps:
  "readFrame ep = (r, ep') \<Longrightarrow> macKey ep' = macKey ep \<and> ep_closed ep' = ep_closed ep \<and> ep_out ep' = ep_out ep"
  by (auto simp: readFrame_def split: prod.splits sum.splits)

lemma tinv_readPeerFrames:
  assumes "tinv t"
  shows "tinv (readPeerFrames p t)"
proof (cases "\<exists>s ep. sess t p = Some s \<and> peer s = Some ep")
  case True
  then obtain s ep where s: "sess t p = Some s" "peer s = Some ep" by blast
  obtain r ep' where rd: "readFrame ep = (r, ep')" by fastforce
  note ep' = readFrame_keeps [OF rd]
  define t1 where "t1 = update_sess p (\<lambda>s. s\<lparr>peer := Some ep'\<rparr>) t"
  have T1: "tinv t1"
    unfolding t1_def using s ep' by (intro tinv_update_sess [OF assms]) (simp add: sess_upd_def)
  then have T2: "tinv (touch_sess p t1)" by (rule tinv_touch_sess)
  have cw: "tinv (update_strm q stream_closeWrite t')" if "tinv t'" for q t'
    using that by (intro tinv_update_strm) (auto intro: strm_upd_closeWrite dest: tinvD(4))
  have cl: "tinv (dropStream p i (update_strm q stream_close t'))" if "tinv t'" for i q t'
    using that by (intro tinv_dropStream tinv_update_strm strm_upd_close)
  show ?thesis
    using s rd T1 T2 unfolding readPeerFrames_def
    by (simp add: t1_def [symmetric] Let_def tinv_read_end tinv_handle_data tinv_snd_peer_writeFrame cw cl
        split: sum.splits option.splits)
next
  case False
  with assms show ?thesis by (auto simp: readPeerFrames_def split: option.splits)
qed

lemma tinv_pipe_end: "tinv t \<Longrightarrow> tinv (pipe_end p q i t)"
  unfolding pipe_end_def by (intro tinv_dropStream tinv_fewer_tasks) auto

lemma tinv_pipeBrowserToPeer:
  assumes "tinv t"
  shows "tinv (pipeBrowserToPeer k p q t)"
proof (cases "strm t q")
  case None
  with assms show ?thesis by (simp add: pipeBrowserToPeer_def)
next
  case (Some st)
  obtain buf r c where rd: "bconn_Read (min k (32 * 1024)) (browser st) = (buf, r, c)" by (metis prod_cases3)
  have ok: "\<not> st_closed st \<or> (b_closed c \<and> dead (b_out c))"
    using tinvD(4) [OF assms Some] bconn_Read_closed [OF rd] by (auto simp: st_ok_def)
  have T1: "tinv (update_strm q (\<lambda>s. s\<lparr>browser := c, loggedOut := True, bytesOut := bytesOut s + n\<rparr>) t)" for n
    using Some strm_upd_browser(2) [OF ok] by (intro tinv_update_strm [OF assms]) simp
  have cl: "tinv (pipe_end p q i (close_by_id p (update_strm q stream_close t')))" if "tinv t'" for i t'
    using that by (intro tinv_pipe_end tinv_close_by_id tinv_update_strm strm_upd_close)
  show ?thesis
    using Some rd assms T1
    by (auto simp: pipeBrowserToPeer_def Let_def tinv_pipe_end tinv_snd_peer_writeFrame cl
        dest: tinv_peer_writeFrame [OF tinv_touch_sess [OF T1]] split: option.splits prod.splits)
qed

text \<open>A new stream.\<close>

lemma tinv_new_stream:
  assumes T: "tinv t" and p: "sess t p = Some s" and f: "i \<notin> fst ` set ss" and ss: "set ss \<subseteq> set (streams s)"
    and d: "distinct (map fst ss)"
    and st0: "st_id st0 = i" "st_session st0 = p" "st_ok st0" "sess_closed s \<longrightarrow> st_closed st0"
    and ns: "s' = s\<lparr>nextStreamID := n, streams := (i, next_ptr t) # ss\<rparr>" and tk: "T' \<subseteq> tasks t"
  shows "tinv (t\<lparr>tasks := T', next_ptr := next_ptr t + 1, strm := (strm t)(next_ptr t \<mapsto> st0),
                 sess := (sess t)(p \<mapsto> s')\<rparr>)" (is "tinv ?t")
proof -
  have fresh: "strm t (next_ptr t) = None"
    using tinvD(4) [OF T, of "next_ptr t"] by (cases "strm t (next_ptr t)") auto
  have keep: "strm ?t q = Some st" if "strm t q = Some st" for q st
    using that fresh by auto
  have si: "sess_inv ?t p' s''" if "sess t p' = Some s''" "p' \<noteq> p" for p' s''
  proof -
    note I = sess_invD [OF tinvD(3) [OF T that(1)]]
    show ?thesis
    proof (rule sess_invI)
      show "\<exists>st. strm ?t q = Some st \<and> st_id st = j \<and> st_session st = p' \<and> (sess_closed s'' \<longrightarrow> st_closed st)"
        if "(j, q) \<in> set (streams s'')" for j q
        using I(8) [OF that] keep by blast
    qed (use I in simp_all)
  qed
  have "sess_inv ?t p s'"
  proof (rule sess_invI)
    note I = sess_invD [OF tinvD(3) [OF T p]]
    show "\<exists>st. strm ?t q = Some st \<and> st_id st = j \<and> st_session st = p \<and> (sess_closed s' \<longrightarrow> st_closed st)"
      if "(j, q) \<in> set (streams s')" for j q
    proof (cases "(j, q) = (i, next_ptr t)")
      case True
      then show ?thesis using st0 ns by simp
    next
      case False
      with that ns ss have "(j, q) \<in> set (streams s)" by auto
      from I(8) [OF this] obtain st where "strm t q = Some st" "st_id st = j" "st_session st = p" "sess_closed s \<longrightarrow> st_closed st"
        by blast
      with keep [of q st] ns show ?thesis by simp
    qed
  qed (use sess_invD [OF tinvD(3) [OF T p]] ns f d in \<open>auto simp: image_iff\<close>)
  note this_one = this
  have old: "\<exists>s0. sess t p' = Some s0 \<and> listeners s1 = listeners s0" if "sess ?t p' = Some s1" for p' s1
    using that p ns by (auto split: if_splits)
  show ?thesis
  proof (rule tinvI)
    show "sess_inv ?t p' s1" if "sess ?t p' = Some s1" for p' s1
      using that si [of p' s1] this_one by (cases "p' = p") simp_all
    show "p' < next_ptr ?t" if "sess ?t p' = Some s1" for p' s1
      using old [OF that] tinvD(2) [OF T] by (auto simp: less_Suc_eq)
    show "q < next_ptr ?t \<and> st_ok st" if "strm ?t q = Some st" for q st
      using that tinvD(4) [OF T] st0 by (auto simp: less_Suc_eq split: if_splits)
    show "\<exists>s. sess ?t p' = Some s \<and> sess_id s = sid' \<and> \<not> sess_closed s" if "sessions ?t sid' = Some p'" for sid' p'
    proof -
      from that tinvD(5) [OF T, of sid' p'] obtain s0 where "sess t p' = Some s0" "sess_id s0 = sid'" "\<not> sess_closed s0" by auto
      with p ns show ?thesis by (cases "p' = p") auto
    qed
    show "p1 = p2" if "sess ?t p1 = Some s1" "sess ?t p2 = Some s2" "l \<in> set (listeners s1)" "l' \<in> set (listeners s2)"
      "listener l = listener l'" for p1 p2 s1 s2 l l'
      using old [OF that(1)] old [OF that(2)] that(3-5) tinvD(6) [OF T] by metis
    show "fst e < next_ptr ?t" if "e \<in> set (opened ?t)" for e
      using that tinvD(7) [OF T, of e] by simp
    show "task_ok ?t k" if "k \<in> tasks ?t" for k
      using that tk tinvD(8) [OF T, of k] p ns fresh by (cases k) auto
  qed (use tinvD(1) [OF T] in simp)
qed

lemma tinv_serve_peer_ready:
  assumes T: "tinv t" and p: "sess t p = Some s" and l: "AwaitPeer p l c \<in> tasks t" and r: "peerReady s"
  shows "tinv (serve_peer_ready p l c t)"
proof -
  note I = sess_invD [OF tinvD(3) [OF T p]]
  obtain ep where ep: "peer s = Some ep" using I(4) r by auto
  define q i where "q = next_ptr t" and "i = nextStreamID s + 1"
  define s' where "s' = s\<lparr>nextStreamID := i, streams := (i, q) # filter (\<lambda>e. fst e \<noteq> i) (streams s)\<rparr>"
  define T' where "T' = tasks t - {AwaitPeer p l c}"
  define mk where "mk st0 = t\<lparr>tasks := T', next_ptr := q + 1, strm := (strm t)(q \<mapsto> st0), sess := (sess t)(p \<mapsto> s')\<rparr>" for st0
  define f where "f = \<lparr>frame_type = tunnelFrameOpen, StreamID = i, Payload = bytes_of (json_Marshal [(''dial_addr'', dialAddr l)])\<rparr>"
  let ?st = "newTunnelStream p i c"
  have mk: "tinv (mk st0)" if "st_id st0 = i" "st_session st0 = p" "st_ok st0" "sess_closed s \<longrightarrow> st_closed st0" for st0
    unfolding mk_def q_def
    by (rule tinv_new_stream [OF T p, where n = i and i = i and ss = "filter (\<lambda>e. fst e \<noteq> i) (streams s)"])
       (use that I(7) in \<open>auto simp: s'_def q_def T'_def distinct_map_filter\<close>)
  have def: "serve_peer_ready p l c t =
      (case peer_writeFrame p f (touch_sess p (mk ?st)) of
         (Some err, t3) \<Rightarrow> close_by_id p (update_strm q stream_close t3)
       | (None, t3) \<Rightarrow> t3\<lparr>tasks := insert (Accepting p l) (insert (Piping p q) (tasks t3))\<rparr>)"
    unfolding mk_def s'_def q_def i_def T'_def f_def
    using p by (simp add: serve_peer_ready_def nextID_def Let_def)
  show ?thesis
  proof (cases "sess_closed s")
    case False
    have M: "tinv (touch_sess p (mk ?st))"
      by (intro tinv_touch_sess mk) (simp_all add: newTunnelStream_def st_ok_def False)
    obtain e ep' where wf: "writeFrame ep f = (e, ep')" by fastforce
    define t3 where "t3 = update_sess p (\<lambda>s. s\<lparr>peer := Some ep'\<rparr>) (touch_sess p (mk ?st))"
    have "sess (touch_sess p (mk ?st)) p = Some (touch (now t) s')" "peer (touch (now t) s') = Some ep"
      using ep by (simp_all add: touch_sess_def update_sess_def mk_def touch_def s'_def)
    with wf have w: "peer_writeFrame p f (touch_sess p (mk ?st)) = (e, t3)"
      by (simp add: peer_writeFrame_def t3_def)
    note M3 = tinv_peer_writeFrame [OF M w]
    have "sess t3 p = Some ((touch (now t) s')\<lparr>peer := Some ep'\<rparr>)" "strm t3 q = Some ?st"
      by (simp_all add: t3_def touch_sess_def update_sess_def mk_def)
    moreover obtain s0 where "sess t p = Some s0" "l \<in> set (listeners s0)"
      using tinvD(8) [OF T l] by auto
    ultimately have "task_ok t3 (Accepting p l)" "task_ok t3 (Piping p q)"
      using p by (simp_all add: touch_def s'_def newTunnelStream_def)
    then have "tinv (t3\<lparr>tasks := insert (Accepting p l) (insert (Piping p q) (tasks t3))\<rparr>)"
      using tinvD(8) [OF M3] by (intro tinv_tasks [OF M3]) auto
    with w M3 show ?thesis
      by (auto simp: def intro!: tinv_close_by_id tinv_update_strm strm_upd_close split: option.splits)
  next
    case True
    then have "dead (ep_out ep)" using I(3) [OF ep] by (simp add: ep_ok_def)
    then obtain e where w: "writeFrame ep f = (Some e, ep)" using writeFrame_dead by blast
    let ?t2 = "touch_sess p (mk ?st)"
    have s2: "sess ?t2 p = Some (touch (now t) s')" "peer (touch (now t) s') = Some ep"
      using ep by (simp_all add: touch_sess_def update_sess_def mk_def touch_def s'_def)
    have "update_sess p (\<lambda>s. s\<lparr>peer := Some ep\<rparr>) ?t2 = ?t2"
    proof -
      have "(sess ?t2)(p := map_option (\<lambda>s. s\<lparr>peer := Some ep\<rparr>) (sess ?t2 p)) = sess ?t2"
        using s2 by (intro fun_upd_idem) (cases "touch (now t) s'", simp)
      then show ?thesis by (simp add: update_sess_def)
    qed
    then have "serve_peer_ready p l c t = close_by_id p (update_strm q stream_close ?t2)"
      using s2 w by (simp add: def peer_writeFrame_def)
    also have "update_strm q stream_close ?t2 = touch_sess p (mk (stream_close ?st))"
      by (simp add: update_strm_def touch_sess_def update_sess_def mk_def)
    finally show ?thesis
      by (simp, intro tinv_close_by_id tinv_touch_sess mk)
         (simp_all add: newTunnelStream_def st_ok_def stream_close_def bconn_Close_def)
  qed
qed

text \<open>A new session.\<close>

lemma tinv_net:
  assumes T: "tinv t" and N: "net_ok ns" "bound ns = bound (net t)" "used_socks (net t) \<subseteq> used_socks ns"
  shows "tinv (t\<lparr>net := ns\<rparr>)" (is "tinv ?t")
proof -
  have le: "next_sock (net t) \<le> next_sock ns" using N(3) by (simp add: used_socks_def)
  have si: "sess_inv ?t p s" if "sess_inv t p s" for p s
  proof (rule sess_invI)
    show "IP_IsLoopback (addr_IP (laddr l)) \<and> listener l < next_sock (net ?t)" if "l \<in> set (listeners s)" for l
      using sess_invD(2) [OF \<open>sess_inv t p s\<close> that] le by simp
  qed (use sess_invD [OF that] N in simp_all)
  have "task_ok ?t k = task_ok t k" for k by (cases k) simp_all
  with tinvD [OF T] si N show ?thesis
    by (intro tinvI) simp_all
qed

lemma tinv_new_session:
  assumes T: "tinv t" and N: "net_ok ns" and B: "bound_by bound used_socks (net t) ls ns"
    and lp: "\<forall>l \<in> set ls. IP_IsLoopback (addr_IP (laddr l))" and key: "length (req_MACKey req) = 32"
    and fresh_id: "\<And>p s. sess t p = Some s \<Longrightarrow> sess_id s \<noteq> sid"
  shows "tinv (t\<lparr>net := ns, sess := (sess t)(next_ptr t \<mapsto> new_session time sid u ls as req),
                 next_ptr := next_ptr t + 1, sessions := (sessions t)(sid \<mapsto> next_ptr t),
                 tasks := tasks t \<union> (\<lambda>l. Accepting (next_ptr t) l) ` set ls\<rparr>)" (is "tinv ?t")
proof -
  let ?p = "next_ptr t" and ?s = "new_session time sid u ls as req"
  have none: "sess t ?p = None" using tinvD(2) [OF T, of ?p] by (cases "sess t ?p") auto
  have used: "used_socks ns = used_socks (net t) \<union> listener ` set ls" using B by (simp add: bound_by_def)
  then have "used_socks (net t) \<subseteq> used_socks ns" by blast
  then have le: "next_sock (net t) \<le> next_sock ns" by (simp add: used_socks_def)
  have new: "listener l \<notin> used_socks (net t)" "bound ns (laddr l) = Some (listener l)" "listener l < next_sock ns"
    if "l \<in> set ls" for l
  proof -
    show "listener l \<notin> used_socks (net t)" "bound ns (laddr l) = Some (listener l)"
      using B that by (simp_all add: bound_by_def)
    have "listener l \<in> used_socks ns" using used that by blast
    then show "listener l < next_sock ns" by (simp add: used_socks_def)
  qed
  have bnd: "bound ns a = bound (net t) a" if "bound (net t) a \<noteq> None" for a
    using B that unfolding bound_by_def by metis
  have rn: "k \<notin> ran (bound ns)" if "k \<notin> ran (bound (net t))" "k \<in> used_socks (net t)" for k
  proof
    assume "k \<in> ran (bound ns)"
    then obtain a where a: "bound ns a = Some k" by (auto simp: ran_def)
    with that(1) have "bound ns a \<noteq> bound (net t) a" by (auto simp: ran_def)
    with B obtain l where "l \<in> set ls" "a = laddr l" unfolding bound_by_def by blast
    with a new that(2) show False by auto
  qed
  have other: "sess_inv ?t p s" if q: "sess t p = Some s" for p s
  proof -
    note I = sess_invD [OF tinvD(3) [OF T q]]
    show ?thesis
    proof (rule sess_invI)
      show "IP_IsLoopback (addr_IP (laddr l)) \<and> listener l < next_sock (net ?t)" if "l \<in> set (listeners s)" for l
        using I(2) [OF that] le by simp
      show "listener l \<notin> ran (bound (net ?t))" if "l \<in> set (listeners s)" "sess_closed s" for l
        using I(9) [OF that] I(2) [OF that(1)] rn by (simp add: used_socks_def)
      show "bound (net ?t) (laddr l) = Some (listener l)" if "l \<in> set (listeners s)" "\<not> sess_closed s" for l
        using I(10) [OF that] bnd by simp
      show "sessions ?t (sess_id s) = Some p" if "\<not> sess_closed s"
        using I(11) [OF that] fresh_id [OF q] by simp
    qed (use I in simp_all)
  qed
  have this_one: "sess_inv ?t ?p ?s"
  proof (rule sess_invI)
    have "filter (\<lambda>e. fst e = ?p) (opened t) = []"
      using tinvD(7) [OF T] by (force simp: filter_empty_conv)
    then show "filter (\<lambda>e. fst e = ?p) (opened ?t) = (if launched ?s then [(?p, openURL ?s)] else [])" by simp
  qed (use lp key new in simp_all)
  have lis: "listener l < next_sock (net t)" if "sess t p = Some s" "l \<in> set (listeners s)" for p s l
    using sess_invD(2) [OF tinvD(3) [OF T that(1)] that(2)] by blast
  show ?thesis
  proof (rule tinvI)
    show "net_ok (net ?t)" using N by simp
    show "p < next_ptr ?t" if "sess ?t p = Some s" for p s
      using that tinvD(2) [OF T, of p s] by (auto split: if_splits)
    show "sess_inv ?t p s" if "sess ?t p = Some s" for p s
      using that other [of p s] this_one by (cases "p = ?p") simp_all
    show "q < next_ptr ?t \<and> st_ok st" if "strm ?t q = Some st" for q st
      using that tinvD(4) [OF T, of q st] by simp
    show "\<exists>s. sess ?t p = Some s \<and> sess_id s = sid' \<and> \<not> sess_closed s" if "sessions ?t sid' = Some p" for sid' p
      using that tinvD(5) [OF T, of sid' p] none by (auto split: if_splits)
    show "p1 = p2" if "sess ?t p1 = Some s1" "sess ?t p2 = Some s2" "l \<in> set (listeners s1)" "l' \<in> set (listeners s2)"
      "listener l = listener l'" for p1 p2 s1 s2 l l'
    proof (cases "p1 = ?p \<or> p2 = ?p")
      case False
      with that tinvD(6) [OF T, of p1 s1 p2 s2 l l'] show ?thesis by simp
    next
      case True
      have fr: "\<forall>l \<in> set ls. next_sock (net t) \<le> listener l"
        using new(1) by (auto simp: used_socks_def not_less)
      have "l \<in> set ls" if "p1 = ?p" using that \<open>sess ?t p1 = Some s1\<close> \<open>l \<in> set (listeners s1)\<close> by auto
      moreover have "l' \<in> set ls" if "p2 = ?p" using that \<open>sess ?t p2 = Some s2\<close> \<open>l' \<in> set (listeners s2)\<close> by auto
      moreover have "listener l < next_sock (net t)" if "p1 \<noteq> ?p"
        using that \<open>sess ?t p1 = Some s1\<close> \<open>l \<in> set (listeners s1)\<close> lis [of p1 s1 l] by simp
      moreover have "listener l' < next_sock (net t)" if "p2 \<noteq> ?p"
        using that \<open>sess ?t p2 = Some s2\<close> \<open>l' \<in> set (listeners s2)\<close> lis [of p2 s2 l'] by simp
      ultimately show ?thesis using True fr that(5) by (metis leD)
    qed
    show "fst e < next_ptr ?t" if "e \<in> set (opened ?t)" for e
      using that tinvD(7) [OF T, of e] by simp
    show "task_ok ?t k" if "k \<in> tasks ?t" for k
    proof (cases "k \<in> tasks t")
      case True
      from tinvD(8) [OF T this] none show ?thesis by (cases k) auto
    next
      case False
      with that show ?thesis by auto
    qed
  qed
qed

lemma tinv_Tunnel_Open:
  assumes T: "tinv t" and fresh_id: "\<forall>sid p s. newID = Inr sid \<longrightarrow> sess t p = Some s \<longrightarrow> sess_id s \<noteq> sid"
  shows "tinv (snd (Tunnel_Open newID req t))"
proof (cases "Tunnel_Open newID req t")
  case (Pair r t')
  note N = tinvD(1) [OF T]
  show ?thesis
  proof (cases r)
    case (Inl e)
    from Tunnel_Open_Inl [OF N, of newID req e t'] Pair Inl
    obtain ns where "t' = t\<lparr>net := ns\<rparr>" "net_ok ns" "bound ns = bound (net t)" "used_socks (net t) \<subseteq> used_socks ns" by fastforce
    with tinv_net [OF T, of ns] Pair show ?thesis by simp
  next
    case (Inr resp)
    with Pair have o: "Tunnel_Open newID req t = (Inr resp, t')" by simp
    from o obtain parsed sid ls addrs ns where
      b: "bindListeners listenTCP (net t) (req_Targets req) = (Inr (ls, addrs), ns)" and key: "length (req_MACKey req) = 32"
      and id: "newID = Inr sid"
      and t': "t' = t\<lparr>net := ns, sess := (sess t)(next_ptr t \<mapsto> new_session (now t) sid parsed ls addrs req),
            next_ptr := next_ptr t + 1, sessions := (sessions t)(sid \<mapsto> next_ptr t),
            tasks := tasks t \<union> (\<lambda>l. Accepting (next_ptr t) l) ` set ls\<rparr>"
      by (rule Tunnel_Open_Inr)
    have "tinv t'"
      unfolding t' using bindListeners_Inr [OF N b] fresh_id id key by (intro tinv_new_session [OF T]) auto
    with Pair show ?thesis by simp
  qed
qed

text \<open>A peer that is accepted, with the browser launched.\<close>

lemma tinv_launch:
  assumes T: "tinv t" and p: "sess t p = Some s" and np: "peer s = None" and op: "\<not> sess_closed s"
    and ep: "ep_ok (sess_macKey s) ep"
    and s': "s' = (touch time (markPeerReady (s\<lparr>attachTimer := a, peer := Some ep\<rparr>)))\<lparr>launched := True\<rparr>"
  shows "tinv (t\<lparr>sess := (sess t)(p \<mapsto> s'), opened := opened t @ [(p, openURL s)]\<rparr>)" (is "tinv ?t")
proof -
  note I = sess_invD [OF tinvD(3) [OF T p]]
  have same: "sess_id s' = sess_id s" "sess_macKey s' = sess_macKey s" "listeners s' = listeners s"
      "openURL s' = openURL s" "sess_closed s' = sess_closed s" "streams s' = streams s"
      "peer s' = Some ep" "peerReady s'" "launched s'"
    by (simp_all add: s' touch_def markPeerReady_def)
  have this_one: "sess_inv ?t p s'"
  proof (rule sess_invI)
    show "filter (\<lambda>e. fst e = p) (opened ?t) = (if launched s' then [(p, openURL s')] else [])"
      using I(5,6) np same by simp
    show "ep_ok (sess_macKey s') ep' \<and> (sess_closed s' \<longrightarrow> ep_closed ep')" if "peer s' = Some ep'" for ep'
      using that ep op same by simp
  qed (use I same op in simp_all)
  have other: "sess_inv ?t p' s0" if q: "sess t p' = Some s0" "p' \<noteq> p" for p' s0
    by (rule sess_invI) (use sess_invD [OF tinvD(3) [OF T q(1)]] q(2) in simp_all)
  have old: "\<exists>s0. sess t p' = Some s0 \<and> listeners s1 = listeners s0" if "sess ?t p' = Some s1" for p' s1
    using that p same by (auto split: if_splits)
  show ?thesis
  proof (rule tinvI)
    show "sess_inv ?t p' s1" if "sess ?t p' = Some s1" for p' s1
      using that other [of p' s1] this_one by (cases "p' = p") simp_all
    show "p' < next_ptr ?t" if "sess ?t p' = Some s1" for p' s1
      using old [OF that] tinvD(2) [OF T] by auto
    show "\<exists>s. sess ?t p' = Some s \<and> sess_id s = sid' \<and> \<not> sess_closed s" if "sessions ?t sid' = Some p'" for sid' p'
    proof -
      from that tinvD(5) [OF T, of sid' p'] obtain s0 where "sess t p' = Some s0" "sess_id s0 = sid'" "\<not> sess_closed s0" by auto
      with p same show ?thesis by (cases "p' = p") auto
    qed
    show "p1 = p2" if "sess ?t p1 = Some s1" "sess ?t p2 = Some s2" "l \<in> set (listeners s1)" "l' \<in> set (listeners s2)"
      "listener l = listener l'" for p1 p2 s1 s2 l l'
      using old [OF that(1)] old [OF that(2)] that(3-5) tinvD(6) [OF T] by metis
    show "fst e < next_ptr ?t" if "e \<in> set (opened ?t)" for e
      using that tinvD(7) [OF T, of e] tinvD(2) [OF T p] by auto
    show "task_ok ?t k" if "k \<in> tasks ?t" for k
      using that tinvD(8) [OF T, of k] p same by (cases k) auto
  qed (use tinvD(1,4) [OF T] in simp_all)
qed

lemma closeSession_sess:
  assumes "sess t p = Some s"
  shows "\<exists>s'. sess (closeSession sid t) p = Some s' \<and> (peer s' = None) = (peer s = None)"
  using assms by (auto simp: closeSession_def session_close_def split: option.splits)

lemma tinv_attach_session:
  assumes T: "tinv t" and p: "sessions t sid = Some p" and s: "sess t p = Some s"
  shows "tinv (snd (attach_session opener sid p s replay conn t))"
proof -
  from tinvD(5) [OF T p] s have op: "sess_id s = sid" "\<not> sess_closed s" by auto
  obtain r ep where e: "readFrame (newTunnelEndpoint replay conn (sess_macKey s)) = (r, ep)" by fastforce
  have epk: "ep_ok (sess_macKey s) ep"
    using readFrame_keeps [OF e] by (simp add: ep_ok_def newTunnelEndpoint_def)
  define t1 where "t1 = update_sess p (\<lambda>s. s\<lparr>attachTimer := stop_timer (attachTimer s)\<rparr>) t"
  have T1: "tinv t1"
    unfolding t1_def by (rule tinv_update_sess [OF T]) (simp add: sess_upd_def)
  have Tb: "tinv (closeSession sid (update_sess p (\<lambda>s. s\<lparr>closeReason := AttachInvalid\<rparr>) t))"
    by (intro tinv_closeSession tinv_closeReason T)
  define t' where "t' = (update_sess p (\<lambda>s. s\<lparr>launched := True\<rparr>)
      (touch_sess p (update_sess p (\<lambda>s. markPeerReady (s\<lparr>peer := Some ep\<rparr>)) t1)))\<lparr>opened := opened t @ [(p, openURL s)]\<rparr>"
  define t3 where "t3 = (case opener (openURL s) of None \<Rightarrow> t'
      | Some err \<Rightarrow> closeSession sid (update_sess p (\<lambda>s. s\<lparr>closeReason := BrowserOpenFailed err\<rparr>) t'))"
  have "tinv (t3\<lparr>tasks := insert (ReadingPeer p) (tasks t3)\<rparr>)" if np: "peer s = None"
  proof -
    have eq: "t' = t\<lparr>sess := (sess t)(p \<mapsto> (touch (now t) (markPeerReady (s\<lparr>attachTimer := stop_timer (attachTimer s),
          peer := Some ep\<rparr>)))\<lparr>launched := True\<rparr>), opened := opened t @ [(p, openURL s)]\<rparr>"
      using s by (simp add: t'_def t1_def touch_sess_def update_sess_def)
    have T': "tinv t'"
      unfolding eq by (rule tinv_launch [OF T s np op(2) epk refl])
    have T3: "tinv t3"
      unfolding t3_def using T' by (auto simp: tinv_closeSession tinv_closeReason split: option.splits)
    have u: "\<exists>s'. sess (update_sess p (\<lambda>s. s\<lparr>closeReason := why\<rparr>) t') p = Some s' \<and> peer s' \<noteq> None"
      and v: "\<exists>s'. sess t' p = Some s' \<and> peer s' \<noteq> None" for why
      by (simp_all add: eq update_sess_def touch_def markPeerReady_def)
    have "task_ok t3 (ReadingPeer p)"
    proof (cases "opener (openURL s)")
      case None
      with v show ?thesis by (simp add: t3_def)
    next
      case (Some err)
      from u [of "BrowserOpenFailed err"] closeSession_sess show ?thesis
        unfolding t3_def Some option.case task_ok.simps by metis
    qed
    then show ?thesis
      using tinvD(8) [OF T3] by (intro tinv_tasks [OF T3]) auto
  qed
  moreover have "launched s = (peer s \<noteq> None)" using sess_invD(5) [OF tinvD(3) [OF T s]] .
  ultimately show ?thesis
    using e T1 Tb unfolding t3_def t'_def t1_def by (simp add: attach_session_def Let_def)
qed

text \<open>The three outcomes; the reader handed on delivers the connection's bytes from the start.\<close>

lemma attach_cases:
  "attach opener br conn t = (ConnClosed, t) \<or> attach opener br conn t = (NotHandled br, t) \<or>
   (\<exists>sid p s. sessions t sid = Some p \<and> sess t p = Some s \<and>
      attach opener br conn t = attach_session opener sid p s br conn t)"
proof -
  let ?n = "unat (BE_Uint32 (take 4 (avail br)))"
  consider "length (avail br) < 4" | "4 \<le> length (avail br)" "?n \<le> 0 \<or> ?n > unat MaxFrameSize"
    | e b where "4 \<le> length (avail br)" "\<not> (?n \<le> 0 \<or> ?n > unat MaxFrameSize)" "ReadFrame br = (Inl e, b)"
    | raw b where "4 \<le> length (avail br)" "\<not> (?n \<le> 0 \<or> ?n > unat MaxFrameSize)" "ReadFrame br = (Inr raw, b)"
    by (cases "ReadFrame br"; cases "fst (ReadFrame br)") force+
  then show ?thesis
  proof cases
    case (4 raw b)
    let ?id = "take (length raw - tunnelMACSize - 5) (drop 5 raw)"
    have replay: "b\<lparr>avail := appendFrame raw @ avail b\<rparr> = br"
      using ReadFrame_InrD(2,3) [OF 4(3)] by (cases br; cases b) (simp add: appendFrame_eq)
    have a: "attach opener br conn t =
        (if length raw < 1 + 4 + tunnelMACSize then (NotHandled br, t)
         else if raw ! 0 \<noteq> tunnelFrameAttach then (NotHandled br, t)
         else if ?id = [] then (ConnClosed, t)
         else case sessions t (string_of ?id) of None \<Rightarrow> (ConnClosed, t)
              | Some p \<Rightarrow> (case sess t p of None \<Rightarrow> (ConnClosed, t)
                           | Some s \<Rightarrow> attach_session opener (string_of ?id) p s br conn t))"
      using 4 unfolding attach_def Let_def by (simp add: replay del: unat_MaxFrameSize cong: option.case_cong)
    show ?thesis
      unfolding a by (cases "sessions t (string_of ?id)"; cases "sess t (the (sessions t (string_of ?id)))") auto
  qed (auto simp: attach_def Let_def)
qed

lemma tinv_attach: "tinv t \<Longrightarrow> tinv (snd (attach opener br conn t))"
  using attach_cases [of opener br conn t] tinv_attach_session by (elim disjE exE conjE) auto

lemma tinv_timeouts: "tinv t \<Longrightarrow> tinv (attach_timeout p t)" "tinv t \<Longrightarrow> tinv (idle_timeout p t)"
  unfolding attach_timeout_def idle_timeout_def
  by (intro tinv_close_by_id tinv_update_sess; simp add: sess_upd_def)+

lemma tinv_NewTunnel: "net_ok ns \<Longrightarrow> tinv (NewTunnel ns time)"
  by (simp add: NewTunnel_def tinv_def)

lemma tinv_task_step: "task_step t t' \<Longrightarrow> tinv t \<Longrightarrow> tinv t'"
proof (induction rule: task_step.induct)
  case (Accept p l t c)
  then show ?case
    unfolding serve_accept_def
    by (intro tinv_tasks) (auto dest: tinvD(8) [of t "Accepting p l"] tinvD(8))
next
  case (Lose t p s ep n)
  then show ?case
    by (intro tinv_update_sess) (auto simp: sess_upd_def)
qed (simp_all add: tinv_pipeBrowserToPeer tinv_readPeerFrames tinv_timeouts tinv_now
      tinv_serve_peer_ready serve_accept_failed_def serve_session_closed_def tinv_fewer_tasks)

lemma tinv_step: "tstep opener t t' \<Longrightarrow> tinv t \<Longrightarrow> tinv t'"
  by (induction rule: tstep.induct) (simp_all add: tinv_Tunnel_Open tinv_attach tinv_task_step)

interpretation sessions: step_invariant "tstep opener" tinv for opener
  by unfold_locales (rule tinv_step)

lemma tinv_reachable:
  assumes "(tstep opener)\<^sup>*\<^sup>* (NewTunnel ns time) t" and "net_ok ns"
  shows "tinv t"
  using assms by (auto intro: sessions.reachable tinv_NewTunnel)

section \<open>Which operations open a browser\<close>

lemma opened_simps [simp]:
  "opened (update_sess p f t) = opened t" "opened (update_strm q g t) = opened t" "opened (touch_sess p t) = opened t"
  "opened (closeSession sid t) = opened t" "opened (close_by_id p t) = opened t" "opened (dropStream p i t) = opened t"
  "opened (snd (peer_writeFrame p f' t)) = opened t"
proof -
  have u [simp]: "opened (update_sess p f t) = opened t" for p f t
    by (simp add: update_sess_def)
  have v [simp]: "opened (update_strm q g t) = opened t" for q g t
    by (simp add: update_strm_def)
  have c [simp]: "opened (closeSession sid t) = opened t" for sid t
    by (simp add: closeSession_def session_close_def split: option.splits)
  show "opened (update_sess p f t) = opened t" "opened (update_strm q g t) = opened t"
      "opened (closeSession sid t) = opened t"
    by simp_all
  show "opened (touch_sess p t) = opened t" "opened (close_by_id p t) = opened t" "opened (dropStream p i t) = opened t"
    by (simp_all add: touch_sess_def close_by_id_def dropStream_def split: option.splits)
  show "opened (snd (peer_writeFrame p f' t)) = opened t"
    by (simp add: peer_writeFrame_def split: option.splits prod.splits)
qed

lemma opened_peer_writeFrame: "peer_writeFrame p f t = (r, t') \<Longrightarrow> opened t' = opened t"
  by (metis opened_simps(7) snd_conv)

lemma opened_handlers:
  "opened (serve_peer_ready p l c t) = opened t" "opened (pipeBrowserToPeer k p q t) = opened t"
  "opened (readPeerFrames p t) = opened t" "opened (snd (Tunnel_Open newID req t)) = opened t"
  by (auto simp: serve_peer_ready_def pipeBrowserToPeer_def readPeerFrames_def handle_data_def read_end_def pipe_end_def
      Tunnel_Open_def Let_def dest: opened_peer_writeFrame split: option.splits prod.splits sum.splits)

lemma opened_attach:
  assumes "opened (snd (attach opener br conn t)) \<noteq> opened t"
  shows "\<exists>sid p s f. sessions t sid = Some p \<and> sess t p = Some s \<and> peer s = None \<and>
     prefix (frame_wire (sess_macKey s) f) (avail br) \<and> frame_type f = tunnelFrameAttach \<and> Payload f = bytes_of sid \<and>
     opened (snd (attach opener br conn t)) = opened t @ [(p, openURL s)]"
proof -
  from assms attach_cases [of opener br conn t] obtain sid p s where p: "sessions t sid = Some p" "sess t p = Some s"
    and a: "attach opener br conn t = attach_session opener sid p s br conn t" by auto
  obtain r ep where e: "readFrame (newTunnelEndpoint br conn (sess_macKey s)) = (r, ep)" by fastforce
  from assms e obtain f where r: "r = Inr f" "frame_type f = tunnelFrameAttach" "string_of (Payload f) = sid" "peer s = None"
    and o: "opened (snd (attach opener br conn t)) = opened t @ [(p, openURL s)]"
    unfolding a by (auto simp: attach_session_def Let_def split: sum.splits if_splits option.splits)
  from readFrame_InrD(2) [OF e [unfolded r(1)]] have "prefix (frame_wire (sess_macKey s) f) (avail br)"
    by (simp add: newTunnelEndpoint_def)
  with p r o show ?thesis by (metis bytes_of_string_of)
qed

lemma opened_task_step: "task_step t t' \<Longrightarrow> opened t' = opened t"
  by (induction rule: task_step.induct)
    (simp_all add: opened_handlers attach_timeout_def idle_timeout_def serve_accept_def serve_accept_failed_def serve_session_closed_def)

text \<open>The address a session opens is the one it was made with.\<close>

definition session_url :: "tunnel \<Rightarrow> nat \<Rightarrow> gostring option" where
  "session_url t p = map_option openURL (sess t p)"

lemma session_url_update_sess [simp]:
  "(\<And>s. openURL (f s) = openURL s) \<Longrightarrow> session_url (update_sess p f t) = session_url t"
  by (auto simp: session_url_def update_sess_def fun_eq_iff option.map_comp comp_def)

lemma session_url_fields [simp]:
  "session_url (t\<lparr>tasks := x\<rparr>) = session_url t" "session_url (t\<lparr>now := d\<rparr>) = session_url t"
  "session_url (t\<lparr>opened := l\<rparr>) = session_url t" "session_url (t\<lparr>sessions := m\<rparr>) = session_url t"
  "session_url (t\<lparr>net := ns\<rparr>) = session_url t" "session_url (update_strm q g t) = session_url t"
  by (simp_all add: session_url_def fun_eq_iff update_strm_def)

lemma session_url_simps [simp]:
  "session_url (touch_sess p t) = session_url t" "session_url (closeSession sid t) = session_url t"
  "session_url (close_by_id p t) = session_url t" "session_url (dropStream p i t) = session_url t"
  "session_url (snd (peer_writeFrame p f t)) = session_url t"
proof -
  have c [simp]: "session_url (closeSession sid t) = session_url t" for sid t
    by (auto simp: closeSession_def session_close_def session_url_def fun_eq_iff split: option.splits)
  show "session_url (closeSession sid t) = session_url t" by simp
  show "session_url (touch_sess p t) = session_url t" "session_url (close_by_id p t) = session_url t"
    "session_url (dropStream p i t) = session_url t" "session_url (snd (peer_writeFrame p f t)) = session_url t"
    by (simp_all add: touch_sess_def touch_def close_by_id_def dropStream_def peer_writeFrame_def split: option.splits prod.splits)
qed

lemma session_url_peer_writeFrame: "peer_writeFrame p f t = (r, t') \<Longrightarrow> session_url t' = session_url t"
  by (metis session_url_simps(5) snd_conv)

lemma session_url_serve_peer_ready: "session_url (serve_peer_ready p l c t) = session_url t"
proof (cases "sess t p")
  case (Some s)
  define t1 where "t1 = touch_sess p (t\<lparr>tasks := tasks t - {AwaitPeer p l c}, next_ptr := next_ptr t + 1,
      strm := (strm t)(next_ptr t \<mapsto> newTunnelStream p (fst (nextID s)) c),
      sess := (sess t)(p \<mapsto> (snd (nextID s))\<lparr>streams := (fst (nextID s), next_ptr t) #
        filter (\<lambda>e. fst e \<noteq> fst (nextID s)) (streams (snd (nextID s)))\<rparr>)\<rparr>)"
  then have t1: "session_url t1 = session_url t"
    using Some by (simp add: session_url_def nextID_def fun_eq_iff)
  show ?thesis
    using Some t1 [unfolded t1_def]
    by (auto simp: serve_peer_ready_def nextID_def Let_def dest!: session_url_peer_writeFrame split: option.split prod.split)
qed (simp add: serve_peer_ready_def)

lemma session_url_handlers:
  "session_url (pipeBrowserToPeer k p q t) = session_url t" "session_url (readPeerFrames p t) = session_url t"
  by (auto simp: pipeBrowserToPeer_def readPeerFrames_def handle_data_def read_end_def pipe_end_def
      Let_def dest: session_url_peer_writeFrame split: option.splits prod.splits sum.splits)

lemma session_url_task_step: "task_step t t' \<Longrightarrow> session_url t' = session_url t"
  by (induction rule: task_step.induct)
    (simp_all add: session_url_handlers session_url_serve_peer_ready attach_timeout_def idle_timeout_def serve_accept_def
      serve_accept_failed_def serve_session_closed_def)

lemma session_url_attach: "session_url (snd (attach opener br conn t)) = session_url t"
proof -
  have "session_url (snd (attach_session opener sid p s br conn t)) = session_url t" for sid p s
    by (simp add: attach_session_def Let_def markPeerReady_def split: prod.split option.split)
  with attach_cases [of opener br conn t] show ?thesis by auto
qed

section \<open>Properties\<close>

lemma attach_NotHandled:
  assumes "attach opener br conn t = (NotHandled rest, t')"
  shows "rest = br" and "t' = t"
proof -
  have "fst (attach_session opener sid p s br conn t) \<noteq> NotHandled rest" for sid p s
    by (simp add: attach_session_def Let_def split: prod.splits)
  with assms show "rest = br" "t' = t"
    using attach_cases [of opener br conn t] by (metis attach_result.distinct(3) attach_result.inject fst_conv, metis attach_result.distinct(3) prod.inject fst_conv)
qed

text \<open>A connection whose first frame is not an attach frame is handed on from its start.\<close>

lemma attach_hands_on:
  assumes br: "br = \<lparr>avail = frame_bytes p @ r, fin = e\<rparr>" and p: "p \<noteq> []" "length p \<le> unat MaxFrameSize" "hd p \<noteq> tunnelFrameAttach"
  shows "attach opener br conn t = (NotHandled br, t)"
proof -
  have rd: "ReadFrame br = (Inr p, \<lparr>avail = r, fin = e\<rparr>)"
    using br p ReadFrame_frame [of p r e] by simp
  have len: "unat (BE_Uint32 (take 4 (avail br))) = length p"
    using br p by (simp add: frame_length_word)
  have "appendFrame p @ r = avail br" "p ! 0 \<noteq> tunnelFrameAttach"
    using br p by (simp add: appendFrame_eq, metis hd_conv_nth)
  with br p rd len show ?thesis
    by (simp add: attach_def Let_def)
qed

text \<open>
  C24. Looking for a tunnel peer does not disturb other connections: a connection that is
  not taken over is handed on with a reader that delivers exactly the bytes and the ending
  of the connection from its start, and the tunnel state is unchanged. Every connection
  whose first frame is within the size limit and does not start with the attach type is
  handed on.
\<close>

theorem attach_transparent:
  "(\<forall>rest t'. attach opener br conn t = (NotHandled rest, t') \<longrightarrow> rest = br \<and> t' = t) \<and>
   (\<forall>p r e. br = \<lparr>avail = frame_bytes p @ r, fin = e\<rparr> \<and> p \<noteq> [] \<and> length p \<le> unat MaxFrameSize \<and> hd p \<noteq> tunnelFrameAttach \<longrightarrow>
      attach opener br conn t = (NotHandled br, t))"
proof (intro conjI allI impI)
  fix rest t' assume "attach opener br conn t = (NotHandled rest, t')"
  then show "rest = br" "t' = t" by (rule attach_NotHandled)+
next
  fix p r e
  assume "br = \<lparr>avail = frame_bytes p @ r, fin = e\<rparr> \<and> p \<noteq> [] \<and> length p \<le> unat MaxFrameSize \<and> hd p \<noteq> tunnelFrameAttach"
  then show "attach opener br conn t = (NotHandled br, t)"
    using attach_hands_on by blast
qed

theorem attach_transparent_witness:
  "attach (\<lambda>u. None) \<lparr>avail = frame_bytes [103, 99] @ [5], fin = EOF\<rparr> \<lparr>written = [], room = None, werr = EOF, dead = False\<rparr>
      (NewTunnel example_net 0) = (NotHandled \<lparr>avail = frame_bytes [103, 99] @ [5], fin = EOF\<rparr>, NewTunnel example_net 0)"
  by (rule conjunct2 [OF attach_transparent, rule_format, of _ "[103, 99]" "[5]" EOF])
     (simp add: tunnelFrameAttach_def)

text \<open>
  C12. The only step that makes the server open a browser is an attach, and it does so only
  for a connection that starts with an attach frame naming a registered session that has no
  peer yet, with a valid MAC under that session's key; it opens that session's URL.
\<close>

theorem browser_opened_after_authenticated_attach:
  assumes "tstep opener t t'" and "opened t' \<noteq> opened t"
  shows "\<exists>br conn sid p s f. t' = snd (attach opener br conn t) \<and>
     sessions t sid = Some p \<and> sess t p = Some s \<and> peer s = None \<and>
     prefix (frame_wire (sess_macKey s) f) (avail br) \<and> frame_type f = tunnelFrameAttach \<and> Payload f = bytes_of sid \<and>
     opened t' = opened t @ [(p, openURL s)]"
  using assms
proof (induction rule: tstep.induct)
  case (Attach t br conn)
  from opened_attach [OF Attach] show ?case by blast
qed (simp_all add: opened_handlers opened_task_step)

text \<open>A run in which a session is opened and its attach timeout closes it.\<close>

definition example_open :: tunnel where
  "example_open = snd (Tunnel_Open (Inr ''a1'') example_request (NewTunnel example_net 0))"

definition example_late :: tunnel where
  "example_late = example_open\<lparr>now := DefaultTunnelAttachTimeout\<rparr>"

lemma example_open_session:
  "\<exists>s. sess example_open 0 = Some s \<and> sessions example_open ''a1'' = Some 0 \<and> sess_id s = ''a1'' \<and> \<not> sess_closed s \<and>
     sess_macKey s = replicate 32 7 \<and> peer s = None \<and> now example_open = 0 \<and> opened example_open = [] \<and>
     attachTimer s = Some (Armed DefaultTunnelAttachTimeout)"
proof -
  let ?o = "Tunnel_Open (Inr ''a1'') example_request (NewTunnel example_net 0)"
  have "\<not> isl (fst ?o)" by code_simp
  then obtain resp where "?o = (Inr resp, snd ?o)" using res_Inr by blast
  then obtain parsed ls addrs ns where e: "example_open = (NewTunnel example_net 0)
      \<lparr>net := ns, sess := Map.empty(0 \<mapsto> new_session 0 ''a1'' parsed ls addrs example_request), next_ptr := 1,
       sessions := Map.empty(''a1'' \<mapsto> 0), tasks := (\<lambda>l. Accepting 0 l) ` set ls\<rparr>"
    unfolding example_open_def by (rule Tunnel_Open_Inr) (simp add: NewTunnel_def)
  show ?thesis
    unfolding e by (simp add: NewTunnel_def example_request_def request_attachTimeout_def)
qed

lemma example_open_reachable: "(tstep opener)\<^sup>*\<^sup>* (NewTunnel example_net 0) example_open"
  unfolding example_open_def by (rule r_into_rtranclp, rule Open) (simp add: NewTunnel_def)

lemma example_closed_reachable: "(tstep opener)\<^sup>*\<^sup>* (NewTunnel example_net 0) (attach_timeout 0 example_late)"
proof -
  from example_open_session obtain s where "sess example_open 0 = Some s" "now example_open = 0"
      "attachTimer s = Some (Armed DefaultTunnelAttachTimeout)" by blast
  then have "tstep opener example_open example_late" "tstep opener example_late (attach_timeout 0 example_late)"
    unfolding example_late_def
    using Tick [of DefaultTunnelAttachTimeout example_open]
    by (auto simp: DefaultTunnelAttachTimeout_def DefaultConnectTimeout_def intro!: Task AttachTimeout)
  with example_open_reachable show ?thesis by (meson rtranclp.rtrancl_into_rtrancl)
qed

text \<open>An attach frame for a waiting session is accepted.\<close>

lemma attach_accepts:
  assumes p: "sessions t sid = Some p" "sess t p = Some s" "peer s = None" "\<not> launched s" and ne: "sid \<noteq> []"
    and br: "avail br = frame_wire (sess_macKey s) \<lparr>frame_type = tunnelFrameAttach, StreamID = i, Payload = bytes_of sid\<rparr> @ r"
    and fit: "length sid + 37 \<le> unat MaxFrameSize" and op: "opener (openURL s) = None"
  shows "fst (attach opener br conn t) = Attached \<and> opened (snd (attach opener br conn t)) = opened t @ [(p, openURL s)] \<and>
     (\<exists>s' ep. sess (snd (attach opener br conn t)) p = Some s' \<and> peerReady s' \<and> peer s' = Some ep \<and>
        ep_in ep = br\<lparr>avail := r\<rparr> \<and> ep_out ep = conn \<and> macKey ep = sess_macKey s)"
proof -
  define f where "f = \<lparr>frame_type = tunnelFrameAttach, StreamID = i, Payload = bytes_of sid\<rparr>"
  define raw where "raw = frame_body f @ hmac_sha256 (sess_macKey s) (frame_body f)"
  have raw: "length raw = 37 + length sid" "raw ! 0 = tunnelFrameAttach"
      "take (length raw - tunnelMACSize - 5) (drop 5 raw) = bytes_of sid"
    by (simp_all add: raw_def f_def frame_body_def tunnelMACSize_def)
  have av: "avail br = frame_bytes raw @ r"
    using br by (simp add: raw_def f_def frame_wire_def)
  have "frame_fits raw" using fit raw(1) by simp
  from ReadFrame_frame [OF this, of r "fin br"] av have rd: "ReadFrame br = (Inr raw, br\<lparr>avail := r\<rparr>)"
    by (cases br) simp
  have len: "unat (BE_Uint32 (take 4 (avail br))) = length raw"
    using frame_length_word [OF \<open>frame_fits raw\<close>] by (simp add: av)
  have rep: "br\<lparr>avail := appendFrame raw @ r\<rparr> = br"
    by (cases br) (use av in \<open>simp add: appendFrame_eq\<close>)
  have ne': "bytes_of sid \<noteq> []" using ne by (metis bytes_of_Nil bytes_of_inject)
  have a: "attach opener br conn t = attach_session opener sid p s br conn t"
    unfolding attach_def Let_def len rd
    using raw p ne' \<open>frame_fits raw\<close> av rep by (simp add: tunnelMACSize_def)
  have rf: "readFrame (newTunnelEndpoint br conn (sess_macKey s))
      = (Inr f, (newTunnelEndpoint br conn (sess_macKey s))\<lparr>ep_in := br\<lparr>avail := r\<rparr>\<rparr>)"
    using readFrame_wire [of f "newTunnelEndpoint br conn (sess_macKey s)" r] br fit
    by (simp add: newTunnelEndpoint_def f_def)
  show ?thesis
    unfolding a attach_session_def rf
    using p op by (simp add: f_def Let_def update_sess_def touch_sess_def touch_def markPeerReady_def newTunnelEndpoint_def)
qed

theorem browser_opened_after_authenticated_attach_witness:
  "\<exists>br conn sid p s f. snd (attach (\<lambda>u. None)
        \<lparr>avail = frame_wire (replicate 32 7) \<lparr>frame_type = tunnelFrameAttach, StreamID = 0, Payload = bytes_of ''a1''\<rparr>, fin = EOF\<rparr>
        \<lparr>written = [], room = None, werr = EOF, dead = False\<rparr> example_open) = snd (attach (\<lambda>u. None) br conn example_open) \<and>
     sessions example_open sid = Some p \<and> sess example_open p = Some s \<and>
     prefix (frame_wire (sess_macKey s) f) (avail br) \<and> Payload f = bytes_of sid"
proof -
  let ?br = "\<lparr>avail = frame_wire (replicate 32 7) \<lparr>frame_type = tunnelFrameAttach, StreamID = 0, Payload = bytes_of ''a1''\<rparr>, fin = EOF\<rparr>"
  let ?c = "\<lparr>written = [], room = None, werr = EOF, dead = False\<rparr>"
  from example_open_session obtain s where s: "sess example_open 0 = Some s" "sessions example_open ''a1'' = Some 0"
      "peer s = None" "sess_macKey s = replicate 32 7" "opened example_open = []" by blast
  have "net_ok example_net" by (simp add: example_net_def net_ok_def)
  then have "\<not> launched s"
    using sess_invD(5) [OF tinvD(3) [OF tinv_reachable [OF example_open_reachable [of "\<lambda>u. None"]] s(1)]] s(3) by simp
  from attach_accepts [OF s(2,1,3) this, of ?br 0 "[]" "\<lambda>u. None" ?c] s
  have "opened (snd (attach (\<lambda>u. None) ?br ?c example_open)) \<noteq> opened example_open" by simp
  from browser_opened_after_authenticated_attach [OF Attach this] show ?thesis by metis
qed

text \<open>
  C26. In every reachable state, each session opened the browser at most once, with its own
  URL and only when a peer has been attached to it; and its peer holds its MAC key of 32
  bytes.
\<close>

theorem browser_opened_at_most_once:
  assumes "(tstep opener)\<^sup>*\<^sup>* (NewTunnel ns time) t" and "net_ok ns" and "sess t p = Some s"
  shows "filter (\<lambda>e. fst e = p) (opened t) = (if peer s = None then [] else [(p, openURL s)]) \<and>
     length (sess_macKey s) = 32 \<and> (\<forall>ep. peer s = Some ep \<longrightarrow> macKey ep = sess_macKey s)"
  using sess_invD(1,3,5,6) [OF tinvD(3) [OF tinv_reachable [OF assms(1,2)] assms(3)]]
  by (auto simp: ep_ok_def)

theorem browser_opened_at_most_once_witness:
  "\<exists>s. sess example_open 0 = Some s \<and> filter (\<lambda>e. fst e = 0) (opened example_open) = [] \<and> length (sess_macKey s) = 32"
proof -
  from example_open_session obtain s where s: "sess example_open 0 = Some s" "peer s = None" by blast
  have "net_ok example_net" by (simp add: example_net_def net_ok_def)
  from browser_opened_at_most_once [OF example_open_reachable [of "\<lambda>u. None"] this s(1)] s show ?thesis by auto
qed



end
