(* ===== verification/TunnelClient.thy ===== *)
theory TunnelClient
  imports TunnelTransport
begin

text \<open>
  The client's end of a tunnel, \<^verbatim>\<open>cmd/cli/tunnel_client.go\<close>: it attaches to a session of the
  server, dials the local service for every stream the server opens, copies bytes both
  ways, sends keep-alive pings, and ends the tunnel after an OAuth callback was answered.
  As on the server's side, each turn of a goroutine's loop is a function on the state and
  a step relation interleaves them.
\<close>

section \<open>Local streams\<close>

definition maxBufferedTunnelBytes :: nat where
  "maxBufferedTunnelBytes = 8 * 1024"

record tunnelLocalStream =
  ls_id :: u32
  ls_conn :: bconn
  ls_loggedIn :: bool
  ls_loggedOut :: bool
  ls_bytesIn :: "64 word"
  ls_bytesOut :: "64 word"
  reqBuf :: bytes
  oauthDone :: bool
  ls_closed :: bool

definition newTunnelLocalStream :: "u32 \<Rightarrow> bconn \<Rightarrow> tunnelLocalStream" where
  "newTunnelLocalStream i c =
     \<lparr>ls_id = i, ls_conn = c, ls_loggedIn = False, ls_loggedOut = False, ls_bytesIn = 0, ls_bytesOut = 0,
      reqBuf = [], oauthDone = False, ls_closed = False\<rparr>"

definition ls_close :: "tunnelLocalStream \<Rightarrow> tunnelLocalStream" where
  "ls_close s = (if ls_closed s then s else s\<lparr>ls_conn := bconn_Close (ls_conn s), ls_closed := True\<rparr>)"

text \<open>The connection comes from \<^verbatim>\<open>net.DialTimeout("tcp", ...)\<close>, so it is a \<^verbatim>\<open>*net.TCPConn\<close>.\<close>

definition ls_closeWrite :: "tunnelLocalStream \<Rightarrow> tunnelLocalStream" where
  "ls_closeWrite s = s\<lparr>ls_conn := bconn_CloseWrite (ls_conn s)\<rparr>"

section \<open>The client\<close>

text \<open>
  Streams are objects in a heap, the table maps identifiers to them. \<open>pipes\<close> are the running
  \<^verbatim>\<open>pipeLocalToRemote\<close> goroutines, \<open>dialed\<close> the addresses dialled so far.
\<close>

record tunnelClient =
  endpoint :: tunnelEndpoint
  cl_streams :: "(u32 \<times> nat) list"
  lstrm :: "nat \<rightharpoonup> tunnelLocalStream"
  cl_next :: nat
  cl_closed :: bool
  finished :: bool
  pipes :: "nat set"
  dialed :: "gostring list"

definition newTunnelClient :: "tunnelEndpoint \<Rightarrow> tunnelClient" where
  "newTunnelClient ep =
     \<lparr>endpoint = ep, cl_streams = [], lstrm = Map.empty, cl_next = 0, cl_closed = False, finished = False,
      pipes = {}, dialed = []\<rparr>"

definition update_lstrm :: "nat \<Rightarrow> (tunnelLocalStream \<Rightarrow> tunnelLocalStream) \<Rightarrow> tunnelClient \<Rightarrow> tunnelClient" where
  "update_lstrm q f c = c\<lparr>lstrm := (lstrm c)(q := map_option f (lstrm c q))\<rparr>"

definition cl_writeFrame :: "tunnelFrame \<Rightarrow> tunnelClient \<Rightarrow> goerr option \<times> tunnelClient" where
  "cl_writeFrame f c = (case cli_writeFrame (endpoint c) f of (r, ep) \<Rightarrow> (r, c\<lparr>endpoint := ep\<rparr>))"

definition cl_getStream :: "u32 \<Rightarrow> tunnelClient \<Rightarrow> nat option" where
  "cl_getStream i c = map_of (cl_streams c) i"

definition cl_dropStream :: "u32 \<Rightarrow> tunnelClient \<Rightarrow> tunnelClient" where
  "cl_dropStream i c =
     (case cl_getStream i c of
        None \<Rightarrow> c
      | Some q \<Rightarrow> update_lstrm q ls_close (c\<lparr>cl_streams := filter (\<lambda>e. fst e \<noteq> i) (cl_streams c)\<rparr>))"

text \<open>\<^verbatim>\<open>doneOnce\<close> runs its body once, and the body is what sets \<^verbatim>\<open>finished\<close>.\<close>

definition finish :: "tunnelClient \<Rightarrow> tunnelClient" where
  "finish c = (if finished c then c else c\<lparr>finished := True, endpoint := cli_endpoint_close (endpoint c)\<rparr>)"

definition isExpectedTunnelClose :: "goerr \<Rightarrow> bool" where
  "isExpectedTunnelClose err =
     (err = EOF \<or> err = NetErrClosed \<or> errors_Is err ErrClosedPipe
      \<or> Contains (err_Error err) ''closed network connection'' \<or> Contains (err_Error err) ''closed pipe'')"

text \<open>\<open>dial\<close> is what \<^verbatim>\<open>net.DialTimeout\<close> returns for the address.\<close>

definition openStream :: "(gostring \<Rightarrow> bconn res) \<Rightarrow> u32 \<Rightarrow> gostring \<Rightarrow> tunnelClient \<Rightarrow> goerr option \<times> tunnelClient" where
  "openStream dial i address c0 =
     (let c = c0\<lparr>dialed := dialed c0 @ [address]\<rparr>
      in case dial address of
           Inl err \<Rightarrow> (Some err, c)
         | Inr conn \<Rightarrow>
             (let q = cl_next c
              in (None, c\<lparr>cl_next := q + 1, lstrm := (lstrm c)(q \<mapsto> newTunnelLocalStream i conn),
                          cl_streams := (i, q) # filter (\<lambda>e. fst e \<noteq> i) (cl_streams c),
                          pipes := insert q (pipes c)\<rparr>)))"

section \<open>Frames from the server\<close>

definition buffer_request :: "bytes \<Rightarrow> bytes \<Rightarrow> bytes" where
  "buffer_request buf p = (if length buf < maxBufferedTunnelBytes then buf @ p else buf)"

definition detect_oauth :: "tunnelLocalStream \<Rightarrow> tunnelLocalStream" where
  "detect_oauth s =
     (if \<not> oauthDone s \<and> looksLikeOAuthSuccessRequest (reqBuf s) then s\<lparr>oauthDone := True\<rparr> else s)"

definition cl_handle_data :: "tunnelFrame \<Rightarrow> tunnelClient \<Rightarrow> tunnelClient" where
  "cl_handle_data frame c =
     (case cl_getStream (StreamID frame) c of
        None \<Rightarrow> c
      | Some q \<Rightarrow>
          (case lstrm c q of
             None \<Rightarrow> c
           | Some st \<Rightarrow>
               update_lstrm q detect_oauth
                 (case bconn_Write (ls_conn st) (Payload frame) of
                    (Some err, conn) \<Rightarrow>
                      cl_dropStream (StreamID frame) (update_lstrm q (\<lambda>s. ls_close (s\<lparr>ls_conn := conn\<rparr>)) c)
                  | (None, conn) \<Rightarrow>
                      update_lstrm q (\<lambda>s. s\<lparr>ls_conn := conn, ls_loggedIn := True,
                                            ls_bytesIn := ls_bytesIn s + word_of_nat (length (Payload frame)),
                                            reqBuf := buffer_request (reqBuf s) (Payload frame)\<rparr>) c)))"

definition cl_handle_open :: "(gostring \<Rightarrow> bconn res) \<Rightarrow> u32 \<Rightarrow> gostring \<Rightarrow> tunnelClient \<Rightarrow> tunnelClient" where
  "cl_handle_open dial i address c =
     (case openStream dial i address c of
        (None, c') \<Rightarrow> c'
      | (Some err, c') \<Rightarrow> snd (cl_writeFrame \<lparr>frame_type = tunnelFrameClose, StreamID = i, Payload = []\<rparr> c'))"

text \<open>
  One turn of \<^verbatim>\<open>readFrames\<close>: the loop goes on, or it ends with an error or with success, and
  the channel \<^verbatim>\<open>closed\<close> is closed.
\<close>

datatype turn = Continue | Return "goerr option"

definition cl_return :: "goerr option \<Rightarrow> tunnelClient \<Rightarrow> turn \<times> tunnelClient" where
  "cl_return r c = (Return r, c\<lparr>cl_closed := True\<rparr>)"

definition readFrames :: "(gostring \<Rightarrow> bconn res) \<Rightarrow> tunnelClient \<Rightarrow> turn \<times> tunnelClient" where
  "readFrames dial c0 =
     (case cli_readFrame (endpoint c0) of
        (r, ep) \<Rightarrow>
          (let c = c0\<lparr>endpoint := ep\<rparr>
           in case r of
                Inl err \<Rightarrow>
                  if finished c \<and> isExpectedTunnelClose err then cl_return None c else cl_return (Some err) c
              | Inr frame \<Rightarrow>
                  if frame_type frame = tunnelFrameOpen then
                    (case json_Unmarshal ''dial_addr'' (string_of (Payload frame)) of
                       Inl err \<Rightarrow> cl_return (Some (Wrapf ''invalid tunnel open payload: '' err)) c
                     | Inr address \<Rightarrow> (Continue, cl_handle_open dial (StreamID frame) address c))
                  else if frame_type frame = tunnelFrameData then (Continue, cl_handle_data frame c)
                  else if frame_type frame = tunnelFrameEOF then
                    (Continue, case cl_getStream (StreamID frame) c of
                                 None \<Rightarrow> c
                               | Some q \<Rightarrow> update_lstrm q ls_closeWrite c)
                  else if frame_type frame = tunnelFrameClose then
                    (Continue, case cl_getStream (StreamID frame) c of
                                 None \<Rightarrow> c
                               | Some q \<Rightarrow> cl_dropStream (StreamID frame) (update_lstrm q ls_close c))
                  else if frame_type frame = tunnelFramePing then
                    (Continue, snd (cl_writeFrame \<lparr>frame_type = tunnelFramePong, StreamID = 0, Payload = []\<rparr> c))
                  else if frame_type frame \<in> {tunnelFramePong, tunnelFrameAttach, tunnelFrameError} then (Continue, c)
                  else cl_return (Some (Errorf (''unknown tunnel frame type '' @ nat_itoa (unat (frame_type frame))))) c))"

section \<open>Bytes from the local service\<close>

definition cl_pipe_end :: "nat \<Rightarrow> u32 \<Rightarrow> tunnelClient \<Rightarrow> tunnelClient" where
  "cl_pipe_end q i c = cl_dropStream i (c\<lparr>pipes := pipes c - {q}\<rparr>)"

definition pipeLocalToRemote :: "nat \<Rightarrow> nat \<Rightarrow> tunnelClient \<Rightarrow> tunnelClient" where
  "pipeLocalToRemote k q c =
     (case lstrm c q of
        None \<Rightarrow> c
      | Some st \<Rightarrow>
          (case bconn_Read (min k (32 * 1024)) (ls_conn st) of
             (buf, Some err, conn) \<Rightarrow>
               if err = EOF then
                 (let c1 = snd (cl_writeFrame \<lparr>frame_type = tunnelFrameEOF, StreamID = ls_id st, Payload = []\<rparr> c)
                  in cl_pipe_end q (ls_id st) (if oauthDone st \<and> sint (ls_bytesOut st) > 0 then finish c1 else c1))
               else cl_pipe_end q (ls_id st)
                      (snd (cl_writeFrame \<lparr>frame_type = tunnelFrameClose, StreamID = ls_id st, Payload = []\<rparr> c))
           | (buf, None, conn) \<Rightarrow>
               (let c1 = update_lstrm q (\<lambda>s. s\<lparr>ls_conn := conn, ls_loggedOut := True,
                                               ls_bytesOut := ls_bytesOut s + word_of_nat (length buf)\<rparr>) c
                in case cl_writeFrame \<lparr>frame_type = tunnelFrameData, StreamID = ls_id st, Payload = buf\<rparr> c1 of
                     (None, c2) \<Rightarrow> c2
                   | (Some err, c2) \<Rightarrow> cl_pipe_end q (ls_id st) (update_lstrm q ls_close c2))))"

section \<open>Keep-alive\<close>

definition second :: int where "second = 10 ^ 9"

text \<open>The period of the ticker; a \<^verbatim>\<open>time.Duration\<close> is divided towards zero.\<close>

definition keepAlive_tick :: "int \<Rightarrow> int" where
  "keepAlive_tick idle0 =
     (let idle = (if idle0 \<le> 0 then 15 * second else idle0);
          tick = idle div 2
      in if tick \<le> 0 then second else tick)"

text \<open>One wake-up of \<^verbatim>\<open>keepAlive\<close>: whether the goroutine goes on.\<close>

definition keepAlive :: "tunnelClient \<Rightarrow> bool \<times> tunnelClient" where
  "keepAlive c =
     (if cl_closed c then (False, c)
      else case cl_writeFrame \<lparr>frame_type = tunnelFramePing, StreamID = 0, Payload = []\<rparr> c of
             (Some err, c') \<Rightarrow> (False, c')
           | (None, c') \<Rightarrow> (True, c'))"

section \<open>Starting and ending\<close>

definition closeAll :: "tunnelClient \<Rightarrow> tunnelClient" where
  "closeAll c = (foldl (\<lambda>c q. update_lstrm q ls_close c) c (map snd (cl_streams c)))\<lparr>cl_streams := []\<rparr>"

text \<open>The deferred calls of \<^verbatim>\<open>startTunnelClient\<close>, the last one first.\<close>

definition client_cleanup :: "tunnelClient \<Rightarrow> tunnelClient" where
  "client_cleanup c = (let c' = closeAll c in c'\<lparr>endpoint := cli_endpoint_close (endpoint c')\<rparr>)"

text \<open>
  \<^verbatim>\<open>startTunnelClient\<close> up to the start of its goroutines, with what the dial returned and what
  \<^verbatim>\<open>onAttached\<close> reports: the error it returns, after cleaning up, or the client at work.
\<close>

definition start_attach ::
    "(stream \<times> sink) res \<Rightarrow> gostring \<Rightarrow> bytes \<Rightarrow> goerr option \<Rightarrow> goerr option \<times> tunnelClient option" where
  "start_attach dialled sessionID key onAttached =
     (case dialled of
        Inl err \<Rightarrow> (Some (Wrapf ''unable to attach tunnel client: '' err), None)
      | Inr (inp, out) \<Rightarrow>
          (let c = newTunnelClient (newTunnelEndpoint inp out key)
           in case cl_writeFrame \<lparr>frame_type = tunnelFrameAttach, StreamID = 0, Payload = bytes_of sessionID\<rparr> c of
                (Some err, c1) \<Rightarrow> (Some (Wrapf ''unable to send tunnel attach: '' err), Some (client_cleanup c1))
              | (None, c1) \<Rightarrow>
                  (case onAttached of
                     Some err \<Rightarrow> (Some err, Some (client_cleanup c1))
                   | None \<Rightarrow> (None, Some c1))))"

text \<open>
  What \<^verbatim>\<open>startTunnelClient\<close> returns once its goroutines run: the outcome of \<^verbatim>\<open>readFrames\<close>, or
  the timeout (\<open>None\<close>) that bounds the wait for it.
\<close>

definition start_result :: "goerr option option \<Rightarrow> goerr option" where
  "start_result outcome =
     (case outcome of
        Some r \<Rightarrow> if r = Some EOF \<or> r = Some NetErrClosed then None else r
      | None \<Rightarrow> Some (Errorf ''tunnel client timed out waiting for remote closure''))"

definition start_deadline :: "TunnelOpenResponse \<Rightarrow> int" where
  "start_deadline resp = AttachTimeout resp + IdleTimeout resp"

section \<open>Steps\<close>

text \<open>
  All interleavings of the goroutines, with whatever the network delivers: more bytes on the
  tunnel connection or from a local service, and any answer to a dial (a connection that is
  returned is a fresh one).
\<close>

inductive cstep :: "tunnelClient \<Rightarrow> tunnelClient \<Rightarrow> bool" where
  Read: "\<not> cl_closed c \<Longrightarrow> \<forall>a conn. dial a = Inr conn \<longrightarrow> written (b_out conn) = [] \<and> \<not> b_closed conn \<Longrightarrow>
    cstep c (snd (readFrames dial c))"
| Pipe: "q \<in> pipes c \<Longrightarrow> 0 < k \<Longrightarrow> cstep c (pipeLocalToRemote k q c)"
| Ping: "cstep c (snd (keepAlive c))"
| Arrive: "\<not> ep_closed (endpoint c) \<Longrightarrow>
    cstep c (c\<lparr>endpoint := (endpoint c)\<lparr>ep_in := (ep_in (endpoint c))\<lparr>avail := avail (ep_in (endpoint c)) @ bs\<rparr>\<rparr>\<rparr>)"
| Lose: "ep_closed (endpoint c) \<Longrightarrow>
    cstep c (c\<lparr>endpoint := (endpoint c)\<lparr>ep_in := (ep_in (endpoint c))\<lparr>avail := take n (avail (ep_in (endpoint c)))\<rparr>\<rparr>\<rparr>)"
| Local: "lstrm c q = Some st \<Longrightarrow> \<not> ls_closed st \<Longrightarrow>
    cstep c (update_lstrm q (\<lambda>s. s\<lparr>ls_conn := (ls_conn s)\<lparr>b_in := inp\<rparr>\<rparr>) c)"
| Cleanup: "cstep c (client_cleanup c)"

section \<open>The invariant\<close>

text \<open>
  What is known of a local stream: the request buffer is the beginning of what was written to
  the service, and all of it while the buffer is not full; a stream marked as an OAuth
  callback has such a request in its buffer.
\<close>

definition ls_inv :: "tunnelLocalStream \<Rightarrow> bool" where
  "ls_inv st \<longleftrightarrow>
     prefix (reqBuf st) (written (b_out (ls_conn st))) \<and>
     (length (reqBuf st) < maxBufferedTunnelBytes \<and> \<not> dead (b_out (ls_conn st)) \<longrightarrow>
        reqBuf st = written (b_out (ls_conn st))) \<and>
     length (reqBuf st) < maxBufferedTunnelBytes + unat MaxFrameSize \<and>
     (oauthDone st \<longrightarrow> looksLikeOAuthSuccessRequest (reqBuf st)) \<and>
     (ls_closed st \<longrightarrow> b_closed (ls_conn st) \<and> dead (b_out (ls_conn st)))"

definition ls_good :: "tunnelLocalStream \<Rightarrow> tunnelLocalStream \<Rightarrow> bool" where
  "ls_good st st' \<longleftrightarrow> ls_inv st' \<and> ls_id st' = ls_id st \<and> (oauthDone st \<longrightarrow> oauthDone st')"

definition cinv :: "tunnelClient \<Rightarrow> bool" where
  "cinv c \<longleftrightarrow>
     (\<forall>q st. lstrm c q = Some st \<longrightarrow> q < cl_next c \<and> ls_inv st) \<and>
     distinct (map fst (cl_streams c)) \<and>
     (\<forall>i q. (i, q) \<in> set (cl_streams c) \<longrightarrow> (\<exists>st. lstrm c q = Some st \<and> ls_id st = i)) \<and>
     (finished c \<longrightarrow> ep_closed (endpoint c) \<and> (\<exists>q st. lstrm c q = Some st \<and> oauthDone st))"

lemma cinvI:
  assumes "\<And>q st. lstrm c q = Some st \<Longrightarrow> q < cl_next c \<and> ls_inv st"
    and "distinct (map fst (cl_streams c))"
    and "\<And>i q. (i, q) \<in> set (cl_streams c) \<Longrightarrow> \<exists>st. lstrm c q = Some st \<and> ls_id st = i"
    and "finished c \<Longrightarrow> ep_closed (endpoint c) \<and> (\<exists>q st. lstrm c q = Some st \<and> oauthDone st)"
  shows "cinv c"
  unfolding cinv_def using assms by blast

lemma cinvD:
  assumes "cinv c"
  shows "lstrm c q = Some st \<Longrightarrow> q < cl_next c \<and> ls_inv st"
    and "distinct (map fst (cl_streams c))"
    and "(i, q) \<in> set (cl_streams c) \<Longrightarrow> \<exists>st. lstrm c q = Some st \<and> ls_id st = i"
    and "finished c \<Longrightarrow> ep_closed (endpoint c) \<and> (\<exists>q st. lstrm c q = Some st \<and> oauthDone st)"
  using assms unfolding cinv_def by blast+

lemma cinv_new: "cinv (newTunnelClient ep)"
  by (simp add: cinv_def newTunnelClient_def)

lemma update_lstrm_simps [simp]:
  "endpoint (update_lstrm q f c) = endpoint c" "cl_streams (update_lstrm q f c) = cl_streams c"
  "finished (update_lstrm q f c) = finished c" "cl_next (update_lstrm q f c) = cl_next c"
  "dialed (update_lstrm q f c) = dialed c" "pipes (update_lstrm q f c) = pipes c" "cl_closed (update_lstrm q f c) = cl_closed c"
  "lstrm (update_lstrm q f c) q' = (if q' = q then map_option f (lstrm c q) else lstrm c q')"
  by (simp_all add: update_lstrm_def)

lemma cinv_update_lstrm:
  assumes "cinv c" and "\<And>st. lstrm c q = Some st \<Longrightarrow> ls_inv st \<Longrightarrow> ls_good st (f st)"
  shows "cinv (update_lstrm q f c)"
proof (rule cinvI)
  fix q' st assume "lstrm (update_lstrm q f c) q' = Some st"
  then show "q' < cl_next (update_lstrm q f c) \<and> ls_inv st"
    using assms cinvD(1) [OF assms(1)] by (auto simp: ls_good_def split: if_splits)
next
  fix i q' assume "(i, q') \<in> set (cl_streams (update_lstrm q f c))"
  then obtain st where "lstrm c q' = Some st" "ls_id st = i"
    using cinvD(3) [OF assms(1)] by auto
  then show "\<exists>st. lstrm (update_lstrm q f c) q' = Some st \<and> ls_id st = i"
    using assms(2) cinvD(1) [OF assms(1)] by (auto simp: ls_good_def)
next
  assume "finished (update_lstrm q f c)"
  with cinvD(4) [OF assms(1)] obtain q' st where e: "ep_closed (endpoint c)" "lstrm c q' = Some st" "oauthDone st" by auto
  then have "\<exists>st. lstrm (update_lstrm q f c) q' = Some st \<and> oauthDone st"
    using assms(2) cinvD(1) [OF assms(1)] by (auto simp: ls_good_def)
  with e(1) show "ep_closed (endpoint (update_lstrm q f c)) \<and> (\<exists>r st. lstrm (update_lstrm q f c) r = Some st \<and> oauthDone st)"
    unfolding update_lstrm_simps(1) by blast
qed (simp add: cinvD(2) [OF assms(1)])

lemma cinv_frame:
  assumes "cinv c" and "lstrm c' = lstrm c" "cl_next c' = cl_next c" "finished c' = finished c"
    and "ep_closed (endpoint c) \<Longrightarrow> ep_closed (endpoint c')"
    and "distinct (map fst (cl_streams c'))" and "set (cl_streams c') \<subseteq> set (cl_streams c)"
  shows "cinv c'"
proof (rule cinvI)
  show "q < cl_next c' \<and> ls_inv st" if "lstrm c' q = Some st" for q st
    using that cinvD(1) [OF assms(1)] assms(2,3) by simp
  show "\<exists>st. lstrm c' q = Some st \<and> ls_id st = i" if "(i, q) \<in> set (cl_streams c')" for i q
    using cinvD(3) [OF assms(1)] that assms(2,7) by auto
  show "ep_closed (endpoint c') \<and> (\<exists>q st. lstrm c' q = Some st \<and> oauthDone st)" if "finished c'"
    using cinvD(4) [OF assms(1)] that assms(2,4,5) by auto
qed (rule assms(6))

lemma ls_good_close: "ls_inv st \<Longrightarrow> ls_good st (ls_close st)"
  by (auto simp: ls_good_def ls_inv_def ls_close_def bconn_Close_def)

lemma ls_good_closeWrite: "ls_inv st \<Longrightarrow> ls_good st (ls_closeWrite st)"
  by (auto simp: ls_good_def ls_inv_def ls_closeWrite_def bconn_CloseWrite_def)

lemma Contains_append: "Contains s t \<Longrightarrow> Contains (s @ r) t"
  unfolding Contains_iff using sublist_def by (metis append.assoc)

lemma looksLike_append: "looksLikeOAuthSuccessRequest a \<Longrightarrow> looksLikeOAuthSuccessRequest (a @ b)"
  by (auto simp: looksLikeOAuthSuccessRequest_def Let_def HasPrefix_def Contains_append)

lemma ls_good_detect: "ls_inv st \<Longrightarrow> ls_good st (detect_oauth st)"
  by (auto simp: ls_good_def ls_inv_def detect_oauth_def)

lemma cinv_dropStream: "cinv c \<Longrightarrow> cinv (cl_dropStream i c)"
  unfolding cl_dropStream_def
  by (auto split: option.split intro!: cinv_update_lstrm ls_good_close
        intro: cinv_frame [where c = c] simp: distinct_map_filter cinvD(2))

lemma writeFrame_room:
  assumes "\<not> dead (ep_out ep)" "room (ep_out ep) = None"
  shows "writeFrame ep f = (None, ep\<lparr>ep_out := (ep_out ep)\<lparr>written := written (ep_out ep) @ frame_wire (macKey ep) f\<rparr>\<rparr>)"
  using assms by (simp add: writeFrame_eq frame_wire_def WriteFrame_unbounded)

lemma bconn_Write_room:
  assumes "\<not> dead (b_out c)" "room (b_out c) = None"
  shows "bconn_Write c d = (None, c\<lparr>b_out := (b_out c)\<lparr>written := written (b_out c) @ d\<rparr>\<rparr>)"
  using assms by (simp add: bconn_Write_def Write_None_room)

lemma cl_writeFrame_room:
  assumes "\<not> dead (ep_out (endpoint c))" "room (ep_out (endpoint c)) = None"
  shows "cl_writeFrame f c =
    (None, c\<lparr>endpoint := (endpoint c)\<lparr>ep_out := (ep_out (endpoint c))\<lparr>written := written (ep_out (endpoint c)) @ frame_wire (macKey (endpoint c)) f\<rparr>\<rparr>\<rparr>)"
  using assms by (simp add: cl_writeFrame_def cli_endpoint_same writeFrame_room)

lemma cl_dropStream_frame [simp]:
  "endpoint (cl_dropStream i c) = endpoint c" "pipes (cl_dropStream i c) = pipes c"
  "finished (cl_dropStream i c) = finished c" "dialed (cl_dropStream i c) = dialed c"
  by (simp_all add: cl_dropStream_def split: option.split)

lemma cinv_endpoint:
  "cinv c \<Longrightarrow> (ep_closed (endpoint c) \<Longrightarrow> ep_closed ep) \<Longrightarrow> cinv (c\<lparr>endpoint := ep\<rparr>)"
  by (rule cinv_frame [where c = c]) (simp_all add: cinvD(2))

lemma cinv_extra [simp]:
  "cinv (c\<lparr>pipes := P\<rparr>) = cinv c" "cinv (c\<lparr>dialed := D\<rparr>) = cinv c" "cinv (c\<lparr>cl_closed := b\<rparr>) = cinv c"
  by (simp_all add: cinv_def)

lemma cl_writeFrame_keeps:
  assumes "cl_writeFrame f c = (r, c')"
  shows "c' = c\<lparr>endpoint := endpoint c'\<rparr>" and "ep_closed (endpoint c') = ep_closed (endpoint c)"
    and "ep_in (endpoint c') = ep_in (endpoint c)" and "macKey (endpoint c') = macKey (endpoint c)"
  using assms writeFrame_keeps [of "endpoint c" f]
  by (auto simp: cl_writeFrame_def cli_endpoint_same split: prod.splits)

lemma cinv_writeFrame: "cinv c \<Longrightarrow> cl_writeFrame f c = (r, c') \<Longrightarrow> cinv c'"
  using cl_writeFrame_keeps(1,2) [of f c r c'] cinv_endpoint [of c "endpoint c'"] by metis

lemma cinv_snd_writeFrame: "cinv c \<Longrightarrow> cinv (snd (cl_writeFrame f c))"
  by (cases "cl_writeFrame f c") (auto dest: cinv_writeFrame)

lemma cinv_finish:
  assumes "cinv c" and "lstrm c q = Some st" and "oauthDone st"
  shows "cinv (finish c)"
  using assms unfolding finish_def
  by (auto intro!: cinvI simp: cli_endpoint_same endpoint_close_def dest: cinvD)

lemma cinv_openStream:
  assumes "cinv c" and "openStream dial i a c = (r, c')"
    and "\<forall>a conn. dial a = Inr conn \<longrightarrow> written (b_out conn) = [] \<and> \<not> b_closed conn"
  shows "cinv c'"
proof (cases "dial a")
  case (Inl e)
  with assms show ?thesis by (auto simp: openStream_def Let_def)
next
  case (Inr conn)
  define c1 where "c1 = c\<lparr>cl_next := cl_next c + 1, lstrm := (lstrm c)(cl_next c \<mapsto> newTunnelLocalStream i conn),
      cl_streams := (i, cl_next c) # filter (\<lambda>e. fst e \<noteq> i) (cl_streams c)\<rparr>"
  have new: "ls_inv (newTunnelLocalStream i conn)"
    using assms(3) Inr by (simp add: ls_inv_def newTunnelLocalStream_def maxBufferedTunnelBytes_def)
  have fresh: "q < cl_next c" if "lstrm c q = Some st" for q st
    using cinvD(1) [OF assms(1) that] by simp
  have "cinv c1"
  proof (rule cinvI)
    show "q < cl_next c1 \<and> ls_inv st" if "lstrm c1 q = Some st" for q st
      using that new cinvD(1) [OF assms(1)] by (auto simp: c1_def split: if_splits dest: less_SucI)
    show "distinct (map fst (cl_streams c1))"
      using cinvD(2) [OF assms(1)] by (auto simp: c1_def distinct_map_filter)
    show "\<exists>st. lstrm c1 q = Some st \<and> ls_id st = j" if "(j, q) \<in> set (cl_streams c1)" for j q
      using that cinvD(3) [OF assms(1)] fresh by (fastforce simp: c1_def newTunnelLocalStream_def)
    show "ep_closed (endpoint c1) \<and> (\<exists>q st. lstrm c1 q = Some st \<and> oauthDone st)" if f: "finished c1"
    proof -
      from f have "finished c" by (simp add: c1_def)
      with cinvD(4) [OF assms(1)] obtain q st where "ep_closed (endpoint c)" "lstrm c q = Some st" "oauthDone st" by blast
      moreover from this fresh have "q \<noteq> cl_next c" by blast
      ultimately have "lstrm c1 q = Some st" "ep_closed (endpoint c1)" by (simp_all add: c1_def)
      with \<open>oauthDone st\<close> show ?thesis by blast
    qed
  qed
  moreover have "c' = c1\<lparr>dialed := dialed c @ [a], pipes := insert (cl_next c) (pipes c)\<rparr>"
    using assms(2) Inr by (auto simp: openStream_def Let_def c1_def)
  ultimately show ?thesis by simp
qed

text \<open>A write to the local service that succeeded, with the bytes kept in the request buffer.\<close>

lemma ls_good_data:
  assumes "ls_inv st" and "bconn_Write (ls_conn st) p = (None, conn)" and "length p \<le> unat MaxFrameSize"
  shows "ls_good st (st\<lparr>ls_conn := conn, ls_loggedIn := b, ls_bytesIn := n, reqBuf := buffer_request (reqBuf st) p\<rparr>)"
proof -
  obtain w where w: "Write p (b_out (ls_conn st)) = (None, w)" "conn = (ls_conn st)\<lparr>b_out := w\<rparr>"
    using assms(2) by (auto simp: bconn_Write_def split: prod.splits)
  note ok = Write_okD [OF w(1)] Write_ok_dead [OF w(1)]
  have open': "\<not> ls_closed st" and eq: "length (reqBuf st) < maxBufferedTunnelBytes \<Longrightarrow> reqBuf st = written (b_out (ls_conn st))"
    using assms(1) ok(2) by (auto simp: ls_inv_def)
  show ?thesis
    using assms(1,3) eq ok open' w(2)
    by (auto simp: ls_good_def ls_inv_def buffer_request_def looksLike_append intro: looksLike_append)
qed

lemma ls_good_failed:
  assumes "ls_inv st" and "bconn_Write (ls_conn st) p = (Some e, conn)"
  shows "ls_good st (ls_close (st\<lparr>ls_conn := conn\<rparr>))"
proof -
  obtain w where w: "Write p (b_out (ls_conn st)) = (Some e, w)" "conn = (ls_conn st)\<lparr>b_out := w\<rparr>"
    using assms(2) by (auto simp: bconn_Write_def split: prod.splits)
  have "dead w"
    using w(1) by (auto simp: Write_def split: option.splits if_splits)
  moreover obtain q where "written w = written (b_out (ls_conn st)) @ q"
    using Write_prefix [OF w(1)] by blast
  ultimately have "ls_inv (st\<lparr>ls_conn := conn\<rparr>)"
    using assms(1) w(2) by (auto simp: ls_inv_def intro: prefix_order.trans)
  then have "ls_good (st\<lparr>ls_conn := conn\<rparr>) (ls_close (st\<lparr>ls_conn := conn\<rparr>))" by (rule ls_good_close)
  then show ?thesis by (simp add: ls_good_def)
qed

lemma cinv_handle_data:
  assumes "cinv c" and "length (Payload f) \<le> unat MaxFrameSize"
  shows "cinv (cl_handle_data f c)"
proof (cases "cl_getStream (StreamID f) c")
  case None
  with assms show ?thesis by (simp add: cl_handle_data_def)
next
  case (Some q)
  show ?thesis
  proof (cases "lstrm c q")
    case None
    with Some assms show ?thesis by (simp add: cl_handle_data_def)
  next
    case st: (Some st)
    obtain r conn where w: "bconn_Write (ls_conn st) (Payload f) = (r, conn)" by force
    show ?thesis
    proof (cases r)
      case None
      have "cinv (update_lstrm q (\<lambda>s. s\<lparr>ls_conn := conn, ls_loggedIn := True,
          ls_bytesIn := ls_bytesIn s + word_of_nat (length (Payload f)), reqBuf := buffer_request (reqBuf s) (Payload f)\<rparr>) c)"
        using assms w None st by (intro cinv_update_lstrm) (auto intro: ls_good_data)
      then show ?thesis
        using Some st w None by (auto simp: cl_handle_data_def intro: cinv_update_lstrm ls_good_detect)
    next
      case (Some e)
      have "cinv (cl_dropStream (StreamID f) (update_lstrm q (\<lambda>s. ls_close (s\<lparr>ls_conn := conn\<rparr>)) c))"
        using assms w Some st by (intro cinv_dropStream cinv_update_lstrm) (auto intro: ls_good_failed)
      then show ?thesis
        using \<open>cl_getStream (StreamID f) c = Some q\<close> st w Some
        by (auto simp: cl_handle_data_def intro: cinv_update_lstrm ls_good_detect)
    qed
  qed
qed

lemma cinv_handle_open:
  assumes "cinv c" and "\<forall>a conn. dial a = Inr conn \<longrightarrow> written (b_out conn) = [] \<and> \<not> b_closed conn"
  shows "cinv (cl_handle_open dial i a c)"
  using cinv_openStream [OF assms(1) _ assms(2)] cinv_snd_writeFrame
  unfolding cl_handle_open_def by (auto split: prod.split option.split)

lemma cinv_readFrames:
  assumes "cinv c" and "\<forall>a conn. dial a = Inr conn \<longrightarrow> written (b_out conn) = [] \<and> \<not> b_closed conn"
  shows "cinv (snd (readFrames dial c))"
proof -
  obtain r ep where r: "readFrame (endpoint c) = (r, ep)" by force
  have "ep_closed ep = ep_closed (endpoint c)"
    using r readFrame_InlD readFrame_InrD(4) by (cases r) (metis tunnelEndpoint.select_convs(4) tunnelEndpoint.surjective tunnelEndpoint.update_convs(1))+
  with assms(1) have c: "cinv (c\<lparr>endpoint := ep\<rparr>)" by (auto intro: cinv_endpoint)
  show ?thesis
  proof (cases r)
    case (Inl err)
    with r c show ?thesis by (simp add: readFrames_def cli_endpoint_same cl_return_def Let_def)
  next
    case (Inr f)
    have "length (Payload f) \<le> unat MaxFrameSize"
      using readFrame_InrD(1) r Inr by fastforce
    with c cinv_handle_data have "cinv (cl_handle_data f (c\<lparr>endpoint := ep\<rparr>))" by blast
    moreover have "cinv (cl_handle_open dial i a (c\<lparr>endpoint := ep\<rparr>))" for i a
      using cinv_handle_open [OF c assms(2)] .
    ultimately show ?thesis
      using r Inr c cinv_snd_writeFrame [OF c] cinv_update_lstrm [OF c ls_good_closeWrite]
        cinv_dropStream [OF cinv_update_lstrm [OF c ls_good_close]]
      by (simp add: readFrames_def cli_endpoint_same cl_return_def Let_def split: sum.split option.split)
  qed
qed

lemma ls_good_read:
  assumes "ls_inv st" and "bconn_Read k (ls_conn st) = (buf, None, conn)"
  shows "ls_good st (st\<lparr>ls_conn := conn, ls_loggedOut := b, ls_bytesOut := n\<rparr>)"
  using assms by (auto simp: bconn_Read_def Let_def ls_good_def ls_inv_def split: if_splits)

lemma cinv_pipe_end: "cinv c \<Longrightarrow> cinv (cl_pipe_end q i c)"
  by (simp add: cl_pipe_end_def cinv_dropStream)

lemma cinv_pipeLocalToRemote:
  assumes "cinv c"
  shows "cinv (pipeLocalToRemote k q c)"
proof (cases "lstrm c q")
  case None
  with assms show ?thesis by (simp add: pipeLocalToRemote_def)
next
  case (Some st)
  obtain buf r conn where rd: "bconn_Read (min k (32 * 1024)) (ls_conn st) = (buf, r, conn)"
    by (metis prod_cases3)
  show ?thesis
  proof (cases r)
    case None
    let ?c1 = "update_lstrm q (\<lambda>s. s\<lparr>ls_conn := conn, ls_loggedOut := True,
                  ls_bytesOut := ls_bytesOut s + word_of_nat (length buf)\<rparr>) c"
    have c1: "cinv ?c1"
      using assms Some rd None by (intro cinv_update_lstrm) (auto intro: ls_good_read)
    obtain r2 c2 where w: "cl_writeFrame \<lparr>frame_type = tunnelFrameData, StreamID = ls_id st, Payload = buf\<rparr> ?c1 = (r2, c2)" by force
    with c1 have "cinv c2" by (rule cinv_writeFrame)
    then show ?thesis
      using Some rd None w cinv_pipe_end cinv_update_lstrm [OF _ ls_good_close]
      by (cases r2) (simp_all add: pipeLocalToRemote_def)
  next
    case err: (Some e)
    have w: "cinv (snd (cl_writeFrame f c))" for f
      using assms by (rule cinv_snd_writeFrame)
    have "cinv (finish (snd (cl_writeFrame f c)))" if "oauthDone st" for f
    proof -
      have "lstrm (snd (cl_writeFrame f c)) q = Some st"
        using Some by (simp add: cl_writeFrame_def split: prod.split)
      with w that show ?thesis by (blast intro: cinv_finish)
    qed
    with w show ?thesis
      using Some rd err by (simp add: pipeLocalToRemote_def Let_def cinv_pipe_end)
  qed
qed

lemma closeAll_frame:
  "endpoint (foldl (\<lambda>c q. update_lstrm q ls_close c) c qs) = endpoint c"
  by (induction qs arbitrary: c) simp_all

lemma cinv_closeAll: "cinv c \<Longrightarrow> cinv (closeAll c)"
proof -
  assume "cinv c"
  have "cinv (foldl (\<lambda>c q. update_lstrm q ls_close c) c qs)" if "cinv c" for c qs
    using that by (induction qs arbitrary: c) (simp_all add: cinv_update_lstrm ls_good_close)
  from this [OF \<open>cinv c\<close>] show ?thesis
    unfolding closeAll_def by (rule cinv_frame) simp_all
qed

lemma cinv_cleanup: "cinv c \<Longrightarrow> cinv (client_cleanup c)"
  unfolding client_cleanup_def Let_def
  by (intro cinv_endpoint cinv_closeAll) (simp_all add: cli_endpoint_same endpoint_close_def)

lemma cinv_step: "cstep c c' \<Longrightarrow> cinv c \<Longrightarrow> cinv c'"
proof (induction rule: cstep.induct)
  case (Read c dial)
  then show ?case by (intro cinv_readFrames)
next
  case (Ping c)
  then show ?case
    using cinv_writeFrame by (auto simp: keepAlive_def split: prod.splits option.splits)
next
  case (Local c q st inp)
  then show ?case
    by (intro cinv_update_lstrm) (auto simp: ls_good_def ls_inv_def)
next
  case (Arrive c bs)
  then show ?case by (intro cinv_endpoint) simp_all
qed (simp_all add: cinv_pipeLocalToRemote cinv_cleanup cinv_endpoint)

interpretation client: step_invariant cstep cinv
  by unfold_locales (rule cinv_step)

lemma cinv_reachable: "cstep\<^sup>*\<^sup>* (newTunnelClient ep) c \<Longrightarrow> cinv c"
  by (rule client.reachable) (auto intro: cinv_new)

section \<open>What the client does for the server\<close>

lemma cl_writeFrame_dialed: "cl_writeFrame f c = (r, c') \<Longrightarrow> dialed c' = dialed c"
  by (auto simp: cl_writeFrame_def split: prod.splits)

lemma dialed_frame [simp]:
  "dialed (snd (cl_writeFrame f c)) = dialed c" "dialed (finish c) = dialed c"
  "dialed (cl_handle_data f c) = dialed c" "dialed (closeAll c) = dialed c" "dialed (cl_pipe_end q i c) = dialed c"
proof -
  show w: "dialed (snd (cl_writeFrame f c)) = dialed c"
    by (simp add: cl_writeFrame_def split: prod.split)
  show "dialed (finish c) = dialed c" "dialed (cl_pipe_end q i c) = dialed c"
    by (simp_all add: finish_def cl_pipe_end_def)
  show "dialed (cl_handle_data f c) = dialed c"
    by (simp add: cl_handle_data_def split: option.split prod.split)
  have "dialed (foldl (\<lambda>c q. update_lstrm q ls_close c) c qs) = dialed c" for c qs
    by (induction qs arbitrary: c) simp_all
  then show "dialed (closeAll c) = dialed c"
    by (simp add: closeAll_def)
qed

lemma dialed_pipe: "dialed (pipeLocalToRemote k q c) = dialed c"
proof (cases "lstrm c q")
  case (Some st)
  obtain buf r conn where rd: "bconn_Read (min k (32 * 1024)) (ls_conn st) = (buf, r, conn)"
    by (metis prod_cases3)
  obtain r2 c2 where w: "cl_writeFrame \<lparr>frame_type = tunnelFrameData, StreamID = ls_id st, Payload = buf\<rparr>
      (update_lstrm q (\<lambda>s. s\<lparr>ls_conn := conn, ls_loggedOut := True, ls_bytesOut := ls_bytesOut s + word_of_nat (length buf)\<rparr>) c) = (r2, c2)"
    by force
  from cl_writeFrame_dialed [OF w] have "dialed c2 = dialed c" by simp
  then show ?thesis
    using Some rd w by (cases r; cases r2) (simp_all add: pipeLocalToRemote_def Let_def)
qed (simp add: pipeLocalToRemote_def)

text \<open>
  C18. The client dials only what its server asks for: the one step that dials is the
  reader's, and only when the tunnel connection holds, next, an open frame with a valid MAC
  under the session's key; it dials the address in that frame, once.
\<close>

theorem client_dials_authenticated:
  assumes "cstep c c'" and "dialed c' \<noteq> dialed c"
  shows "\<exists>f a. prefix (frame_wire (macKey (endpoint c)) f) (avail (ep_in (endpoint c))) \<and>
     frame_type f = tunnelFrameOpen \<and> json_Unmarshal ''dial_addr'' (string_of (Payload f)) = Inr a \<and>
     dialed c' = dialed c @ [a]"
  using assms
proof (induction rule: cstep.induct)
  case (Read c dial)
  obtain r ep where r: "readFrame (endpoint c) = (r, ep)" by force
  have d: "dialed (cl_handle_open dial i a c) = dialed c @ [a]" for i a c
    using dialed_frame(1) by (auto simp: cl_handle_open_def openStream_def Let_def split: prod.split option.split sum.splits)
  show ?case
  proof (cases r)
    case (Inl e)
    with Read.prems r show ?thesis by (simp add: readFrames_def cli_endpoint_same cl_return_def Let_def split: if_splits)
  next
    case (Inr f)
    have "prefix (frame_wire (macKey (endpoint c)) f) (avail (ep_in (endpoint c)))"
      using readFrame_InrD(2) [of "endpoint c" f ep] r Inr by simp
    moreover have "frame_type f = tunnelFrameOpen"
      using Read.prems r Inr
      by (auto simp: readFrames_def cli_endpoint_same cl_return_def Let_def split: if_splits option.splits)
    moreover from this obtain a where "json_Unmarshal ''dial_addr'' (string_of (Payload f)) = Inr a"
      using Read.prems r Inr
      by (auto simp: readFrames_def cli_endpoint_same cl_return_def Let_def split: sum.splits)
    ultimately show ?thesis
      using r Inr d by (auto simp: readFrames_def cli_endpoint_same Let_def)
  qed
qed (auto simp: dialed_pipe keepAlive_def client_cleanup_def Let_def split: prod.splits option.splits dest: cl_writeFrame_dialed)

text \<open>A client with an open frame and the request of an OAuth callback waiting for it.\<close>

definition example_conn :: bconn where
  "example_conn = \<lparr>b_in = \<lparr>avail = [72], fin = EOF\<rparr>, b_out = \<lparr>written = [], room = None, werr = EOF, dead = False\<rparr>, b_closed = False\<rparr>"

definition example_callback :: bytes where
  "example_callback = bytes_of (''GET /?code=1&state=2'' @ map char_of [13, 10, 13, 10 :: nat])"

abbreviation example_open_frame :: tunnelFrame where
  "example_open_frame \<equiv> \<lparr>frame_type = tunnelFrameOpen, StreamID = 1, Payload = bytes_of (json_Marshal [(''dial_addr'', ''127.0.0.1:81'')])\<rparr>"

definition example_worker :: "bytes \<Rightarrow> tunnelClient" where
  "example_worker wire = newTunnelClient (newTunnelEndpoint \<lparr>avail = wire, fin = EOF\<rparr>
     \<lparr>written = [], room = None, werr = EOF, dead = False\<rparr> [1])"

lemma example_dial_addr:
  "json_Unmarshal ''dial_addr'' (json_Marshal [(''dial_addr'', ''127.0.0.1:81'')]) = Inr ''127.0.0.1:81''"
proof (rule json_Unmarshal_Marshal)
  show "list_all json_safe ''dial_addr''" by code_simp
  show "valid_utf8 ''127.0.0.1:81''" by (rule valid_utf8_ascii) code_simp
qed

lemma example_open_fits: "tunnel_fits example_open_frame"
proof -
  have "length (json_Marshal [(''dial_addr'', ''127.0.0.1:81'')]) \<le> 40" by code_simp
  then show ?thesis by simp
qed

text \<open>Reading the open frame, with a service that answers the dial.\<close>

lemma example_opened:
  "snd (readFrames (\<lambda>a. Inr example_conn) (example_worker (frame_wire [1] example_open_frame @ r))) =
     (example_worker r)\<lparr>cl_streams := [(1, 0)], lstrm := [0 \<mapsto> newTunnelLocalStream 1 example_conn], cl_next := 1,
        pipes := {0}, dialed := [''127.0.0.1:81'']\<rparr>"
proof -
  let ?ep = "newTunnelEndpoint \<lparr>avail = frame_wire [1] example_open_frame @ r, fin = EOF\<rparr>
     \<lparr>written = [], room = None, werr = EOF, dead = False\<rparr> [1]"
  have "readFrame ?ep = (Inr example_open_frame, ?ep\<lparr>ep_in := (ep_in ?ep)\<lparr>avail := r\<rparr>\<rparr>)"
    by (rule readFrame_wire [OF example_open_fits]) (simp add: newTunnelEndpoint_def)
  then show ?thesis
    by (simp add: readFrames_def cli_endpoint_same frame_type_defs example_worker_def newTunnelClient_def
        newTunnelEndpoint_def example_dial_addr cl_handle_open_def openStream_def Let_def)
qed

theorem client_dials_authenticated_witness:
  "\<exists>f a. prefix (frame_wire [1] f) (frame_wire [1] example_open_frame) \<and>
     json_Unmarshal ''dial_addr'' (string_of (Payload f)) = Inr a \<and> a = ''127.0.0.1:81''"
proof -
  let ?c = "example_worker (frame_wire [1] example_open_frame @ [])"
  have "cstep ?c (snd (readFrames (\<lambda>a. Inr example_conn) ?c))"
    by (rule Read) (simp_all add: example_worker_def newTunnelClient_def example_conn_def)
  moreover have "dialed (snd (readFrames (\<lambda>a. Inr example_conn) ?c)) = [''127.0.0.1:81'']" "dialed ?c = []"
    unfolding example_opened by (simp_all add: example_worker_def newTunnelClient_def)
  ultimately show ?thesis
    using client_dials_authenticated [of ?c "snd (readFrames (\<lambda>a. Inr example_conn) ?c)"]
    by (auto simp: example_worker_def newTunnelClient_def newTunnelEndpoint_def)
qed

text \<open>
  The client ends the tunnel by itself only after an OAuth callback: in every reachable
  state, if it has finished then its connection is closed and one of its streams carried a
  request that starts with \<^verbatim>\<open>GET /\<close> and has a code and a state, which was written to the local
  service; and no stream buffers more than the limit and one frame of its request.
\<close>

theorem finished_after_oauth_callback:
  assumes "cstep\<^sup>*\<^sup>* (newTunnelClient ep) c"
  shows "(finished c \<longrightarrow> ep_closed (endpoint c) \<and>
      (\<exists>q st. lstrm c q = Some st \<and> oauthDone st \<and> looksLikeOAuthSuccessRequest (written (b_out (ls_conn st))))) \<and>
    (\<forall>q st. lstrm c q = Some st \<longrightarrow> length (reqBuf st) < maxBufferedTunnelBytes + unat MaxFrameSize)"
proof -
  note I = cinv_reachable [OF assms]
  have "looksLikeOAuthSuccessRequest (written (b_out (ls_conn st)))" if "lstrm c q = Some st" "oauthDone st" for q st
    using cinvD(1) [OF I that(1)] that(2) looksLike_append by (auto simp: ls_inv_def prefix_def)
  with cinvD(1,4) [OF I] show ?thesis
    unfolding ls_inv_def by blast
qed

text \<open>The run of such a client to its end.\<close>

definition example_finished :: tunnelClient where
  "example_finished =
     pipeLocalToRemote 1 0 (pipeLocalToRemote 1 0
       (snd (readFrames (\<lambda>a. Inr example_conn) (snd (readFrames (\<lambda>a. Inr example_conn)
          (example_worker (frame_wire [1] example_open_frame @
             frame_wire [1] \<lparr>frame_type = tunnelFrameData, StreamID = 1, Payload = example_callback\<rparr>)))))))"

lemma example_callback_looks: "looksLikeOAuthSuccessRequest example_callback" "length example_callback = 24"
  by code_simp+

lemma example_requested:
  "snd (readFrames (\<lambda>a. Inr example_conn)
     ((example_worker (frame_wire [1] \<lparr>frame_type = tunnelFrameData, StreamID = 1, Payload = example_callback\<rparr>))
        \<lparr>cl_streams := [(1, 0)], lstrm := [0 \<mapsto> newTunnelLocalStream 1 example_conn], cl_next := 1,
         pipes := {0}, dialed := [''127.0.0.1:81'']\<rparr>)) =
     (example_worker [])\<lparr>cl_streams := [(1, 0)], cl_next := 1, pipes := {0}, dialed := [''127.0.0.1:81''],
       lstrm := [0 \<mapsto> (newTunnelLocalStream 1 (example_conn\<lparr>b_out := (b_out example_conn)\<lparr>written := example_callback\<rparr>\<rparr>))
          \<lparr>ls_loggedIn := True, ls_bytesIn := 24, reqBuf := example_callback, oauthDone := True\<rparr>]\<rparr>"
proof -
  let ?f = "\<lparr>frame_type = tunnelFrameData, StreamID = 1, Payload = example_callback\<rparr>"
  let ?ep = "newTunnelEndpoint \<lparr>avail = frame_wire [1] ?f, fin = EOF\<rparr>
     \<lparr>written = [], room = None, werr = EOF, dead = False\<rparr> [1]"
  have "readFrame ?ep = (Inr ?f, ?ep\<lparr>ep_in := (ep_in ?ep)\<lparr>avail := []\<rparr>\<rparr>)"
    by (rule readFrame_wire) (simp_all add: newTunnelEndpoint_def example_callback_looks)
  then show ?thesis
    by (simp add: readFrames_def cli_endpoint_same frame_type_defs example_worker_def newTunnelClient_def
        newTunnelEndpoint_def cl_handle_data_def cl_getStream_def Let_def bconn_Write_room example_conn_def
        newTunnelLocalStream_def update_lstrm_def buffer_request_def maxBufferedTunnelBytes_def detect_oauth_def
        example_callback_looks)
qed

lemma example_finished_is: "finished example_finished"
  unfolding example_finished_def example_opened example_requested
  by (simp add: pipeLocalToRemote_def bconn_Read_def Let_def example_conn_def newTunnelLocalStream_def example_worker_def
      newTunnelClient_def newTunnelEndpoint_def cl_writeFrame_room update_lstrm_def cl_pipe_end_def finish_def)

lemma example_finished_reachable: "\<exists>ep. cstep\<^sup>*\<^sup>* (newTunnelClient ep) example_finished"
proof -
  define c0 where "c0 = example_worker (frame_wire [1] example_open_frame @
      frame_wire [1] \<lparr>frame_type = tunnelFrameData, StreamID = 1, Payload = example_callback\<rparr>)"
  define c1 where "c1 = snd (readFrames (\<lambda>a. Inr example_conn) c0)"
  define c2 where "c2 = snd (readFrames (\<lambda>a. Inr example_conn) c1)"
  define c3 where "c3 = pipeLocalToRemote 1 0 c2"
  have dial: "\<forall>a conn. (\<lambda>a. Inr example_conn :: bconn res) a = Inr conn \<longrightarrow> written (b_out conn) = [] \<and> \<not> b_closed conn"
    by (auto simp: example_conn_def)
  have "cstep c0 c1"
    unfolding c1_def by (rule Read [OF _ dial]) (simp add: c0_def example_worker_def newTunnelClient_def)
  moreover have "cstep c1 c2"
    unfolding c2_def by (rule Read [OF _ dial])
      (unfold c1_def c0_def example_opened, simp add: example_worker_def newTunnelClient_def)
  moreover have p2: "0 \<in> pipes c2"
    unfolding c2_def c1_def c0_def example_opened example_requested by simp
  then have "cstep c2 c3"
    unfolding c3_def by (rule Pipe) simp
  moreover have "0 \<in> pipes c3"
    unfolding c3_def c2_def c1_def c0_def example_opened example_requested
    by (simp add: pipeLocalToRemote_def bconn_Read_def Let_def example_conn_def newTunnelLocalStream_def
        example_worker_def newTunnelClient_def newTunnelEndpoint_def cl_writeFrame_room)
  then have "cstep c3 example_finished"
    unfolding example_finished_def c3_def c2_def c1_def c0_def by (rule Pipe) simp
  ultimately have "cstep\<^sup>*\<^sup>* c0 example_finished" by (meson rtranclp.rtrancl_into_rtrancl rtranclp.rtrancl_refl)
  then show ?thesis unfolding c0_def example_worker_def by blast
qed

theorem finished_after_oauth_callback_witness:
  "\<exists>q st. lstrm example_finished q = Some st \<and> looksLikeOAuthSuccessRequest (written (b_out (ls_conn st)))"
  using finished_after_oauth_callback example_finished_reachable example_finished_is by blast

section \<open>The end of the reader\<close>

text \<open>The loop of \<^verbatim>\<open>readFrames\<close> for at most \<open>n\<close> turns; \<open>Continue\<close> means that it is still running.\<close>

fun readFrames_loop :: "(gostring \<Rightarrow> bconn res) \<Rightarrow> nat \<Rightarrow> tunnelClient \<Rightarrow> turn \<times> tunnelClient" where
  "readFrames_loop dial 0 c = (Continue, c)"
| "readFrames_loop dial (Suc n) c =
     (case readFrames dial c of
        (Continue, c') \<Rightarrow> readFrames_loop dial n c'
      | (Return r, c') \<Rightarrow> (Return r, c'))"

text \<open>The frames that never end the loop.\<close>

definition harmless :: "tunnelFrame \<Rightarrow> bool" where
  "harmless f \<longleftrightarrow> frame_type f \<in> {tunnelFrameData, tunnelFrameEOF, tunnelFrameClose, tunnelFramePing,
     tunnelFramePong, tunnelFrameAttach, tunnelFrameError}"

lemma cl_handle_data_frame:
  "endpoint (cl_handle_data f c) = endpoint c" "finished (cl_handle_data f c) = finished c"
  by (simp_all add: cl_handle_data_def split: option.split prod.split)

lemma readFrames_harmless:
  assumes "harmless f" and "tunnel_fits f" and "avail (ep_in (endpoint c)) = frame_wire (macKey (endpoint c)) f @ r"
  shows "\<exists>c'. readFrames dial c = (Continue, c') \<and> finished c' = finished c \<and>
     macKey (endpoint c') = macKey (endpoint c) \<and> ep_in (endpoint c') = (ep_in (endpoint c))\<lparr>avail := r\<rparr>"
proof -
  have rd: "readFrame (endpoint c) = (Inr f, (endpoint c)\<lparr>ep_in := (ep_in (endpoint c))\<lparr>avail := r\<rparr>\<rparr>)"
    using assms(2,3) by (rule readFrame_wire)
  let ?c = "c\<lparr>endpoint := (endpoint c)\<lparr>ep_in := (ep_in (endpoint c))\<lparr>avail := r\<rparr>\<rparr>\<rparr>"
  obtain r' c' where w: "cl_writeFrame \<lparr>frame_type = tunnelFramePong, StreamID = 0, Payload = []\<rparr> ?c = (r', c')" by force
  note k = cl_writeFrame_keeps [OF w]
  have "finished c' = finished c"
    using k(1) by (metis (no_types) tunnelClient.ext_inject tunnelClient.surjective tunnelClient.update_convs(1))
  with assms(1) w k(3,4) show ?thesis
    unfolding readFrames_def cli_endpoint_same rd harmless_def
    by (auto simp: frame_type_defs Let_def cl_handle_data_frame split: option.splits)
qed

lemma ReadFrame_cut:
  assumes "fin s = OpErrClosed" and "strict_prefix (avail s) (frame_bytes raw)" and "frame_fits raw"
  shows "\<exists>s'. ReadFrame s = (Inl OpErrClosed, s') \<or> ReadFrame s = (Inl (Wrapf ''frame: reading payload: '' OpErrClosed), s')"
proof (cases "length (avail s) < 4")
  case True
  with assms(1) show ?thesis by (auto simp: ReadFrame_def ReadFull_def)
next
  case False
  from assms(2) obtain z where z: "frame_bytes raw = avail s @ z" "z \<noteq> []"
    by (auto elim!: strict_prefixE')
  from False have l: "4 \<le> length (avail s)" by simp
  have "take 4 (avail s) = PutUint32 (word_of_nat (length raw))"
    using arg_cong [OF z(1), of "take 4"] l by simp
  moreover have "length (avail s) < 4 + length raw"
    using arg_cong [OF z(1), of length] z(2) by simp
  ultimately show ?thesis
    using l assms(1,3) frame_length_word [OF assms(3)]
    by (simp add: ReadFrame_def ReadFull_def Let_def word_less_nat_alt)
qed

lemma readFrames_cut:
  assumes "finished c" and "fin (ep_in (endpoint c)) = OpErrClosed"
    and "strict_prefix (avail (ep_in (endpoint c))) (frame_bytes raw)" and "frame_fits raw"
  shows "fst (readFrames dial c) = Return None"
proof -
  have "Contains (err_Error OpErrClosed) ''closed network connection''"
    "Contains (err_Error (Wrapf ''frame: reading payload: '' OpErrClosed)) ''closed network connection''"
    by code_simp+
  then obtain e s where e: "ReadFrame (ep_in (endpoint c)) = (Inl e, s)" "Contains (err_Error e) ''closed network connection''"
    using ReadFrame_cut [OF assms(2-4)] by blast
  then show ?thesis
    using assms(1) by (simp add: readFrames_def cli_endpoint_same readFrame_def isExpectedTunnelClose_def cl_return_def Let_def)
qed



end
