(* ===== verification/TunnelLink.thy ===== *)
theory TunnelLink
  imports TunnelClient
begin

text \<open>
  The two ends of a tunnel stream put together. Each end copies bytes into data frames and
  data frames into bytes; the locales state what the one promises to the other, once for
  both directions, and are interpreted on the four loops of the code: \<^verbatim>\<open>pipeBrowserToPeer\<close>
  and \<^verbatim>\<open>readPeerFrames\<close> of the server, \<^verbatim>\<open>pipeLocalToRemote\<close> and \<^verbatim>\<open>readFrames\<close> of the client.
\<close>

section \<open>Chunks\<close>

abbreviation data_frame :: "u32 \<Rightarrow> bytes \<Rightarrow> tunnelFrame" where
  "data_frame i d \<equiv> \<lparr>frame_type = tunnelFrameData, StreamID = i, Payload = d\<rparr>"

abbreviation eof_frame :: "u32 \<Rightarrow> tunnelFrame" where
  "eof_frame i \<equiv> \<lparr>frame_type = tunnelFrameEOF, StreamID = i, Payload = []\<rparr>"

text \<open>How a sequence of reads, the \<open>j\<close>-th of which returns at most \<open>ks ! j\<close> bytes, cuts the input.\<close>

fun chunks :: "nat list \<Rightarrow> bytes \<Rightarrow> bytes list" where
  "chunks [] d = []"
| "chunks (k # ks) d =
     (if d = [] then [] else take (min k (32 * 1024)) d # chunks ks (drop (min k (32 * 1024)) d))"

text \<open>Turns of a copier until its input is used up.\<close>

fun drain :: "(nat \<Rightarrow> 's \<Rightarrow> 's) \<Rightarrow> ('s \<Rightarrow> bytes) \<Rightarrow> nat list \<Rightarrow> 's \<Rightarrow> 's" where
  "drain turn src [] s = s"
| "drain turn src (k # ks) s = (if src s = [] then s else drain turn src ks (turn k s))"

lemma chunks_small: "list_all (\<lambda>d. length d \<le> 32 * 1024) (chunks ks d)"
  by (induction ks d rule: chunks.induct) auto

lemma concat_chunks:
  "list_all ((<) 0) ks \<Longrightarrow> length d \<le> length ks \<Longrightarrow> concat (chunks ks d) = d"
proof (induction ks d rule: chunks.induct)
  case (2 k ks d)
  then show ?case by (cases "d = []") auto
qed simp

section \<open>The contracts\<close>

text \<open>
  A copier from a byte source to data frames of stream \<open>i\<close> under \<open>key\<close>: one turn with input
  sends the bytes it read in one frame; at the end of the input it sends the EOF frame and
  stops.
\<close>

locale data_source =
  fixes turn :: "nat \<Rightarrow> 's \<Rightarrow> 's" and src :: "'s \<Rightarrow> bytes" and at_eof :: "'s \<Rightarrow> bool" and out :: "'s \<Rightarrow> bytes"
    and key :: bytes and i :: u32 and live :: "'s \<Rightarrow> bool" and running :: "'s \<Rightarrow> bool"
  assumes turn_data: "live s \<Longrightarrow> src s \<noteq> [] \<Longrightarrow> 0 < k \<Longrightarrow>
      live (turn k s) \<and> at_eof (turn k s) = at_eof s \<and>
      src (turn k s) = drop (min k (32 * 1024)) (src s) \<and>
      out (turn k s) = out s @ frame_wire key (data_frame i (take (min k (32 * 1024)) (src s)))"
    and turn_eof: "live s \<Longrightarrow> src s = [] \<Longrightarrow> at_eof s \<Longrightarrow>
      out (turn k s) = out s @ frame_wire key (eof_frame i) \<and> \<not> running (turn k s)"
begin

abbreviation run :: "nat list \<Rightarrow> 's \<Rightarrow> 's" where
  "run \<equiv> drain turn src"

lemma run_sends:
  "live s \<Longrightarrow> list_all ((<) 0) ks \<Longrightarrow>
     live (run ks s) \<and> at_eof (run ks s) = at_eof s \<and>
     out (run ks s) = out s @ concat (map (\<lambda>d. frame_wire key (data_frame i d)) (chunks ks (src s))) \<and>
     (length (src s) \<le> length ks \<longrightarrow> src (run ks s) = [])"
proof (induction ks arbitrary: s)
  case (Cons k ks)
  show ?case
  proof (cases "src s = []")
    case False
    with Cons.prems turn_data [of s k] have t: "live (turn k s)" "at_eof (turn k s) = at_eof s"
        "src (turn k s) = drop (min k (32 * 1024)) (src s)"
        "out (turn k s) = out s @ frame_wire key (data_frame i (take (min k (32 * 1024)) (src s)))"
      by auto
    have "length (src s) \<le> length (k # ks) \<Longrightarrow> length (src (turn k s)) \<le> length ks"
      using Cons.prems(2) False t(3) by auto
    with Cons.IH [OF t(1)] Cons.prems(2) False t show ?thesis by auto
  qed (use Cons.prems in simp)
qed simp

lemma run_then_eof:
  assumes "live s" "at_eof s" "list_all ((<) 0) ks" "length (src s) \<le> length ks"
  shows "out (turn k (run ks s)) = out s @ concat (map (\<lambda>d. frame_wire key (data_frame i d)) (chunks ks (src s)))
           @ frame_wire key (eof_frame i) \<and> \<not> running (turn k (run ks s))"
  using run_sends [OF assms(1,3)] turn_eof [of "run ks s" k] assms(2,4) by simp

end

text \<open>A receiver of data frames of stream \<open>i\<close>: each one is written to its destination in full.\<close>

locale data_sink =
  fixes recv :: "'r \<Rightarrow> 'r" and inp :: "'r \<Rightarrow> bytes" and dst :: "'r \<Rightarrow> bytes" and key :: bytes and i :: u32
    and live :: "'r \<Rightarrow> bool"
  assumes recv_data: "live s \<Longrightarrow> inp s = frame_wire key (data_frame i d) @ r \<Longrightarrow> length d \<le> 32 * 1024 \<Longrightarrow>
      live (recv s) \<and> inp (recv s) = r \<and> dst (recv s) = dst s @ d"
begin

lemma recv_all:
  "live s \<Longrightarrow> inp s = concat (map (\<lambda>d. frame_wire key (data_frame i d)) ds) @ r \<Longrightarrow>
     list_all (\<lambda>d. length d \<le> 32 * 1024) ds \<Longrightarrow>
     live ((recv ^^ length ds) s) \<and> inp ((recv ^^ length ds) s) = r \<and> dst ((recv ^^ length ds) s) = dst s @ concat ds"
proof (induction ds arbitrary: s)
  case (Cons d ds)
  then have "live (recv s)" "inp (recv s) = concat (map (\<lambda>d. frame_wire key (data_frame i d)) ds) @ r" "dst (recv s) = dst s @ d"
    using recv_data [of s d "concat (map (\<lambda>d. frame_wire key (data_frame i d)) ds) @ r"] by auto
  with Cons.IH [of "recv s"] Cons.prems(3) show ?case
    by (simp add: funpow_swap1 del: funpow.simps) (simp add: funpow_Suc_right del: funpow.simps)
qed simp

end

text \<open>A source and a sink of the same stream and key, with the wire between them.\<close>

locale tunnel_link =
  source: data_source turn src at_eof out key i s_live running +
  sink: data_sink recv inp dst key i r_live
  for turn :: "nat \<Rightarrow> 's \<Rightarrow> 's" and src at_eof out key i s_live running
    and recv :: "'r \<Rightarrow> 'r" and inp dst r_live
begin

lemma delivered:
  assumes "s_live s" "list_all ((<) 0) ks" "length (src s) \<le> length ks"
  shows "\<exists>wire n. out (source.run ks s) = out s @ wire \<and> src (source.run ks s) = [] \<and>
     (\<forall>r rest. r_live r \<and> inp r = wire @ rest \<longrightarrow>
        dst ((recv ^^ n) r) = dst r @ src s \<and> inp ((recv ^^ n) r) = rest \<and> r_live ((recv ^^ n) r))"
proof (rule exI, rule exI, intro conjI allI impI)
  let ?wire = "concat (map (\<lambda>d. frame_wire key (data_frame i d)) (chunks ks (src s)))"
  show "out (source.run ks s) = out s @ ?wire" "src (source.run ks s) = []"
    using source.run_sends [OF assms(1,2)] assms(3) by auto
  fix r rest assume "r_live r \<and> inp r = ?wire @ rest"
  then show "dst ((recv ^^ length (chunks ks (src s))) r) = dst r @ src s"
    "inp ((recv ^^ length (chunks ks (src s))) r) = rest" "r_live ((recv ^^ length (chunks ks (src s))) r)"
    using sink.recv_all [OF _ _ chunks_small, of r ks "src s" rest] concat_chunks [OF assms(2,3)] by auto
qed

end

section \<open>The server\<close>

definition srv_live :: "nat \<Rightarrow> nat \<Rightarrow> bytes \<Rightarrow> u32 \<Rightarrow> tunnel \<Rightarrow> bool" where
  "srv_live p q key i t \<longleftrightarrow>
     (case (sess t p, strm t q) of
        (Some s, Some st) \<Rightarrow>
          map_of (streams s) i = Some q \<and> st_id st = i \<and> \<not> dead (b_out (browser st)) \<and> room (b_out (browser st)) = None \<and>
          (case peer s of
             Some ep \<Rightarrow> macKey ep = key \<and> \<not> dead (ep_out ep) \<and> room (ep_out ep) = None
           | None \<Rightarrow> False)
      | _ \<Rightarrow> False)"

definition srv_src :: "nat \<Rightarrow> tunnel \<Rightarrow> bytes" where
  "srv_src q t = (case strm t q of Some st \<Rightarrow> avail (b_in (browser st)) | None \<Rightarrow> [])"

definition srv_eof :: "nat \<Rightarrow> tunnel \<Rightarrow> bool" where
  "srv_eof q t = (case strm t q of Some st \<Rightarrow> fin (b_in (browser st)) = EOF | None \<Rightarrow> False)"

definition srv_dst :: "nat \<Rightarrow> tunnel \<Rightarrow> bytes" where
  "srv_dst q t = (case strm t q of Some st \<Rightarrow> written (b_out (browser st)) | None \<Rightarrow> [])"

definition srv_peer :: "nat \<Rightarrow> tunnel \<Rightarrow> tunnelEndpoint option" where
  "srv_peer p t = (case sess t p of Some s \<Rightarrow> peer s | None \<Rightarrow> None)"

definition srv_out :: "nat \<Rightarrow> tunnel \<Rightarrow> bytes" where
  "srv_out p t = (case srv_peer p t of Some ep \<Rightarrow> written (ep_out ep) | None \<Rightarrow> [])"

definition srv_in :: "nat \<Rightarrow> tunnel \<Rightarrow> bytes" where
  "srv_in p t = (case srv_peer p t of Some ep \<Rightarrow> avail (ep_in ep) | None \<Rightarrow> [])"

lemmas srv_view = srv_src_def srv_eof_def srv_dst_def srv_peer_def srv_out_def srv_in_def

lemma srv_liveE:
  assumes "srv_live p q key i t"
  obtains s st ep where "sess t p = Some s" "strm t q = Some st" "peer s = Some ep"
    "map_of (streams s) i = Some q" "st_id st = i" "\<not> dead (b_out (browser st))" "room (b_out (browser st)) = None"
    "macKey ep = key" "\<not> dead (ep_out ep)" "room (ep_out ep) = None"
  using assms by (auto simp: srv_live_def split: option.splits)

lemmas srv_step_defs = touch_sess_def update_strm_def update_sess_def peer_writeFrame_def touch_def Let_def

lemma browser_turn_data:
  assumes "srv_live p q key i t" "srv_src q t \<noteq> []" "0 < k"
  shows "srv_live p q key i (pipeBrowserToPeer k p q t) \<and> srv_eof q (pipeBrowserToPeer k p q t) = srv_eof q t \<and>
    srv_src q (pipeBrowserToPeer k p q t) = drop (min k (32 * 1024)) (srv_src q t) \<and>
    srv_out p (pipeBrowserToPeer k p q t) =
      srv_out p t @ frame_wire key (data_frame i (take (min k (32 * 1024)) (srv_src q t)))"
proof -
  from assms(1) show ?thesis
  proof (rule srv_liveE)
    fix s st ep
    assume *: "sess t p = Some s" "strm t q = Some st" "peer s = Some ep"
      "map_of (streams s) i = Some q" "st_id st = i" "\<not> dead (b_out (browser st))" "room (b_out (browser st)) = None"
      "macKey ep = key" "\<not> dead (ep_out ep)" "room (ep_out ep) = None"
    from * assms(2) have "avail (b_in (browser st)) \<noteq> []" by (simp add: srv_view)
    with * show ?thesis
      by (simp add: pipeBrowserToPeer_def bconn_Read_def srv_step_defs writeFrame_room srv_live_def srv_view)
  qed
qed

lemma browser_turn_eof:
  assumes "srv_live p q key i t" "srv_src q t = []" "srv_eof q t"
  shows "srv_out p (pipeBrowserToPeer k p q t) = srv_out p t @ frame_wire key (eof_frame i) \<and>
    Piping p q \<notin> tasks (pipeBrowserToPeer k p q t) \<and> getStream p i (pipeBrowserToPeer k p q t) = None \<and>
    (\<exists>st. strm (pipeBrowserToPeer k p q t) q = Some st \<and> (st_closed st))"
proof -
  from assms(1) show ?thesis
  proof (rule srv_liveE)
    fix s st ep
    assume *: "sess t p = Some s" "strm t q = Some st" "peer s = Some ep"
      "map_of (streams s) i = Some q" "st_id st = i" "\<not> dead (b_out (browser st))" "room (b_out (browser st)) = None"
      "macKey ep = key" "\<not> dead (ep_out ep)" "room (ep_out ep) = None"
    from * assms(2,3) have "avail (b_in (browser st)) = []" "fin (b_in (browser st)) = EOF" by (simp_all add: srv_view)
    moreover have "map_of (filter (\<lambda>e. fst e \<noteq> i) (streams s)) i = None"
      by (auto simp: map_of_eq_None_iff)
    ultimately show ?thesis
      using * by (simp add: pipeBrowserToPeer_def bconn_Read_def srv_step_defs writeFrame_room srv_view
          pipe_end_def dropStream_def getStream_def stream_close_def)
  qed
qed

lemma peer_recv_data:
  assumes "srv_live p q key i t" "srv_in p t = frame_wire key (data_frame i d) @ r" "length d \<le> 32 * 1024"
  shows "srv_live p q key i (readPeerFrames p t) \<and> srv_in p (readPeerFrames p t) = r \<and>
    srv_dst q (readPeerFrames p t) = srv_dst q t @ d"
proof -
  from assms(1) show ?thesis
  proof (rule srv_liveE)
    fix s st ep
    assume *: "sess t p = Some s" "strm t q = Some st" "peer s = Some ep"
      "map_of (streams s) i = Some q" "st_id st = i" "\<not> dead (b_out (browser st))" "room (b_out (browser st)) = None"
      "macKey ep = key" "\<not> dead (ep_out ep)" "room (ep_out ep) = None"
    have "readFrame ep = (Inr (data_frame i d), ep\<lparr>ep_in := (ep_in ep)\<lparr>avail := r\<rparr>\<rparr>)"
      using assms(2,3) * by (intro readFrame_wire) (simp_all add: srv_view)
    with * show ?thesis
      by (simp add: readPeerFrames_def frame_type_defs handle_data_def getStream_def srv_step_defs bconn_Write_room
          srv_live_def srv_view)
  qed
qed

interpretation browser_source:
  data_source "\<lambda>k. pipeBrowserToPeer k p q" "srv_src q" "srv_eof q" "srv_out p" key i "srv_live p q key i"
    "\<lambda>t. Piping p q \<in> tasks t"
  for p q key i
  by unfold_locales (blast dest: browser_turn_data browser_turn_eof)+

interpretation browser_sink: data_sink "readPeerFrames p" "srv_in p" "srv_dst q" key i "srv_live p q key i"
  for p q key i
  by unfold_locales (rule peer_recv_data)

section \<open>The client\<close>

definition cl_live :: "nat \<Rightarrow> bytes \<Rightarrow> u32 \<Rightarrow> tunnelClient \<Rightarrow> bool" where
  "cl_live q key i c \<longleftrightarrow>
     macKey (endpoint c) = key \<and> \<not> dead (ep_out (endpoint c)) \<and> room (ep_out (endpoint c)) = None \<and>
     map_of (cl_streams c) i = Some q \<and>
     (case lstrm c q of
        Some st \<Rightarrow> ls_id st = i \<and> \<not> dead (b_out (ls_conn st)) \<and> room (b_out (ls_conn st)) = None
      | None \<Rightarrow> False)"

definition cl_src :: "nat \<Rightarrow> tunnelClient \<Rightarrow> bytes" where
  "cl_src q c = (case lstrm c q of Some st \<Rightarrow> avail (b_in (ls_conn st)) | None \<Rightarrow> [])"

definition cl_eof :: "nat \<Rightarrow> tunnelClient \<Rightarrow> bool" where
  "cl_eof q c = (case lstrm c q of Some st \<Rightarrow> fin (b_in (ls_conn st)) = EOF | None \<Rightarrow> False)"

definition cl_dst :: "nat \<Rightarrow> tunnelClient \<Rightarrow> bytes" where
  "cl_dst q c = (case lstrm c q of Some st \<Rightarrow> written (b_out (ls_conn st)) | None \<Rightarrow> [])"

definition cl_out :: "tunnelClient \<Rightarrow> bytes" where
  "cl_out c = written (ep_out (endpoint c))"

definition cl_in :: "tunnelClient \<Rightarrow> bytes" where
  "cl_in c = avail (ep_in (endpoint c))"

lemmas cl_view = cl_src_def cl_eof_def cl_dst_def cl_out_def cl_in_def

lemma local_turn_data:
  assumes "cl_live q key i c" "cl_src q c \<noteq> []" "0 < k"
  shows "cl_live q key i (pipeLocalToRemote k q c) \<and> cl_eof q (pipeLocalToRemote k q c) = cl_eof q c \<and>
    cl_src q (pipeLocalToRemote k q c) = drop (min k (32 * 1024)) (cl_src q c) \<and>
    cl_out (pipeLocalToRemote k q c) =
      cl_out c @ frame_wire key (data_frame i (take (min k (32 * 1024)) (cl_src q c)))"
proof -
  from assms(1,2) obtain st where "lstrm c q = Some st" "avail (b_in (ls_conn st)) \<noteq> []"
    by (auto simp: cl_live_def cl_view split: option.splits)
  with assms(1) show ?thesis
    by (simp add: pipeLocalToRemote_def bconn_Read_def Let_def cl_writeFrame_room cl_live_def cl_view)
qed

lemma local_turn_eof:
  assumes "cl_live q key i c" "cl_src q c = []" "cl_eof q c"
  shows "cl_out (pipeLocalToRemote k q c) = cl_out c @ frame_wire key (eof_frame i) \<and>
    q \<notin> pipes (pipeLocalToRemote k q c)"
proof -
  from assms obtain st where "lstrm c q = Some st" "avail (b_in (ls_conn st)) = []" "fin (b_in (ls_conn st)) = EOF"
    by (auto simp: cl_live_def cl_view split: option.splits)
  with assms(1) show ?thesis
    by (simp add: pipeLocalToRemote_def bconn_Read_def Let_def cl_writeFrame_room cl_live_def cl_view cl_pipe_end_def
        finish_def cli_endpoint_same endpoint_close_def)
qed

lemma client_recv_data:
  assumes "cl_live q key i c" "cl_in c = frame_wire key (data_frame i d) @ r" "length d \<le> 32 * 1024"
  shows "cl_live q key i (snd (readFrames dial c)) \<and> cl_in (snd (readFrames dial c)) = r \<and>
    cl_dst q (snd (readFrames dial c)) = cl_dst q c @ d"
proof -
  from assms(1) obtain st where st: "lstrm c q = Some st" by (auto simp: cl_live_def split: option.splits)
  have "readFrame (endpoint c) = (Inr (data_frame i d), (endpoint c)\<lparr>ep_in := (ep_in (endpoint c))\<lparr>avail := r\<rparr>\<rparr>)"
    using assms by (intro readFrame_wire) (simp_all add: cl_live_def cl_view)
  with assms(1) st show ?thesis
    by (simp add: readFrames_def cli_endpoint_same frame_type_defs cl_handle_data_def cl_getStream_def Let_def
        bconn_Write_room detect_oauth_def cl_live_def cl_view)
qed

interpretation service_source:
  data_source "\<lambda>k. pipeLocalToRemote k q" "cl_src q" "cl_eof q" cl_out key i "cl_live q key i" "\<lambda>c. q \<in> pipes c"
  for q key i
  by unfold_locales (blast dest: local_turn_data local_turn_eof)+

interpretation service_sink: data_sink "\<lambda>c. snd (readFrames dial c)" cl_in "cl_dst q" key i "cl_live q key i"
  for q key i dial
  by unfold_locales (rule client_recv_data)

section \<open>Both directions\<close>

interpretation to_service:
  tunnel_link "\<lambda>k. pipeBrowserToPeer k p q" "srv_src q" "srv_eof q" "srv_out p" key i "srv_live p q key i"
    "\<lambda>t. Piping p q \<in> tasks t" "\<lambda>c. snd (readFrames dial c)" cl_in "cl_dst q'" "cl_live q' key i"
  for p q q' key i dial
  by unfold_locales

interpretation to_browser:
  tunnel_link "\<lambda>k. pipeLocalToRemote k q'" "cl_src q'" "cl_eof q'" cl_out key i "cl_live q' key i"
    "\<lambda>c. q' \<in> pipes c" "readPeerFrames p" "srv_in p" "srv_dst q" "srv_live p q key i"
  for p q q' key i
  by unfold_locales

text \<open>A session with one stream, at each end, for examples.\<close>

abbreviation fresh_sink :: sink where
  "fresh_sink \<equiv> \<lparr>written = [], room = None, werr = EOF, dead = False\<rparr>"

definition example_srv :: "bytes \<Rightarrow> bytes \<Rightarrow> tunnel" where
  "example_srv inp wire = (NewTunnel example_net 0)
     \<lparr>sess := [0 \<mapsto> (new_session 0 ''a1'' empty_url [] [] example_request)
        \<lparr>peer := Some (newTunnelEndpoint \<lparr>avail = wire, fin = EOF\<rparr> fresh_sink [1]), streams := [(1, 2)]\<rparr>],
      strm := [2 \<mapsto> newTunnelStream 0 1 \<lparr>b_in = \<lparr>avail = inp, fin = EOF\<rparr>, b_out = fresh_sink, b_closed = False\<rparr>]\<rparr>"

definition example_cl :: "bytes \<Rightarrow> bytes \<Rightarrow> tunnelClient" where
  "example_cl inp wire = (newTunnelClient (newTunnelEndpoint \<lparr>avail = wire, fin = EOF\<rparr> fresh_sink [1]))
     \<lparr>cl_streams := [(1, 0)], cl_next := 1,
      lstrm := [0 \<mapsto> newTunnelLocalStream 1 \<lparr>b_in = \<lparr>avail = inp, fin = EOF\<rparr>, b_out = fresh_sink, b_closed = False\<rparr>]\<rparr>"

lemma example_live:
  "srv_live 0 2 [1] 1 (example_srv inp wire)" "cl_live 0 [1] 1 (example_cl inp wire)"
  "srv_src 2 (example_srv inp wire) = inp" "srv_in 0 (example_srv inp wire) = wire" "srv_dst 2 (example_srv inp wire) = []"
  "srv_out 0 (example_srv inp wire) = []" "srv_eof 2 (example_srv inp wire)"
  "cl_src 0 (example_cl inp wire) = inp" "cl_in (example_cl inp wire) = wire" "cl_dst 0 (example_cl inp wire) = []"
  "cl_out (example_cl inp wire) = []" "cl_eof 0 (example_cl inp wire)"
  by (simp_all add: example_srv_def example_cl_def srv_live_def cl_live_def srv_view cl_view newTunnelStream_def
      newTunnelEndpoint_def newTunnelClient_def newTunnelLocalStream_def)

text \<open>
  C13. What the browser sends on a stream reaches the local service of the client: however
  the reads cut it, once the server's copier has used up the browser's bytes, a client that
  holds the stream and reads the frames the copier wrote has written exactly these bytes to
  the service, in order, and has left what follows on the connection alone.
\<close>

theorem browser_bytes_reach_service:
  assumes "srv_live p q key i t" and "list_all ((<) 0) ks" and "length (srv_src q t) \<le> length ks"
  shows "\<exists>wire n. srv_out p (drain (\<lambda>k. pipeBrowserToPeer k p q) (srv_src q) ks t) = srv_out p t @ wire \<and>
     srv_src q (drain (\<lambda>k. pipeBrowserToPeer k p q) (srv_src q) ks t) = [] \<and>
     (\<forall>c rest. cl_live q' key i c \<and> cl_in c = wire @ rest \<longrightarrow>
        (let c' = ((\<lambda>c. snd (readFrames dial c)) ^^ n) c
         in cl_dst q' c' = cl_dst q' c @ srv_src q t \<and> cl_in c' = rest \<and> cl_live q' key i c'))"
  unfolding Let_def by (rule to_service.delivered [OF assms])

theorem browser_bytes_reach_service_witness:
  "\<exists>wire n. srv_out 0 (drain (\<lambda>k. pipeBrowserToPeer k 0 2) (srv_src 2) [1, 1] (example_srv [7, 8] [])) = wire \<and>
     cl_dst 0 (((\<lambda>c. snd (readFrames (\<lambda>a. Inl EOF) c)) ^^ n) (example_cl [] wire)) = [7, 8]"
proof -
  have ks: "list_all ((<) 0) [1, 1 :: nat]" "length (srv_src 2 (example_srv [7, 8] [])) \<le> length [1, 1 :: nat]"
    by (simp_all add: example_live)
  obtain wire n where w: "srv_out 0 (drain (\<lambda>k. pipeBrowserToPeer k 0 2) (srv_src 2) [1, 1] (example_srv [7, 8] []))
        = srv_out 0 (example_srv [7, 8] []) @ wire"
    and c: "\<forall>c rest. cl_live 0 [1] 1 c \<and> cl_in c = wire @ rest \<longrightarrow>
        (let c' = ((\<lambda>c. snd (readFrames (\<lambda>a. Inl EOF) c)) ^^ n) c
         in cl_dst 0 c' = cl_dst 0 c @ srv_src 2 (example_srv [7, 8] []) \<and> cl_in c' = rest \<and> cl_live 0 [1] 1 c')"
    using browser_bytes_reach_service [OF example_live(1) ks, of 0 "\<lambda>a. Inl EOF"] by blast
  from c [rule_format, of "example_cl [] wire" "[]"]
  have "cl_dst 0 (((\<lambda>c. snd (readFrames (\<lambda>a. Inl EOF) c)) ^^ n) (example_cl [] wire)) = [7, 8]"
    by (simp add: example_live Let_def)
  with w show ?thesis unfolding example_live append_Nil by blast
qed

text \<open>
  C14. What the local service answers reaches the browser in the same way: the frames the
  client's copier writes make the server write exactly the service's bytes to the browser
  connection of that stream.
\<close>

theorem service_bytes_reach_browser:
  assumes "cl_live q' key i c" and "list_all ((<) 0) ks" and "length (cl_src q' c) \<le> length ks"
  shows "\<exists>wire n. cl_out (drain (\<lambda>k. pipeLocalToRemote k q') (cl_src q') ks c) = cl_out c @ wire \<and>
     cl_src q' (drain (\<lambda>k. pipeLocalToRemote k q') (cl_src q') ks c) = [] \<and>
     (\<forall>t rest. srv_live p q key i t \<and> srv_in p t = wire @ rest \<longrightarrow>
        (let t' = (readPeerFrames p ^^ n) t
         in srv_dst q t' = srv_dst q t @ cl_src q' c \<and> srv_in p t' = rest \<and> srv_live p q key i t'))"
  unfolding Let_def by (rule to_browser.delivered [OF assms])

theorem service_bytes_reach_browser_witness:
  "\<exists>wire n. cl_out (drain (\<lambda>k. pipeLocalToRemote k 0) (cl_src 0) [1, 1] (example_cl [7, 8] [])) = wire \<and>
     srv_dst 2 ((readPeerFrames 0 ^^ n) (example_srv [] wire)) = [7, 8]"
proof -
  have ks: "list_all ((<) 0) [1, 1 :: nat]" "length (cl_src 0 (example_cl [7, 8] [])) \<le> length [1, 1 :: nat]"
    by (simp_all add: example_live)
  obtain wire n where w: "cl_out (drain (\<lambda>k. pipeLocalToRemote k 0) (cl_src 0) [1, 1] (example_cl [7, 8] []))
        = cl_out (example_cl [7, 8] []) @ wire"
    and t: "\<forall>t rest. srv_live 0 2 [1] 1 t \<and> srv_in 0 t = wire @ rest \<longrightarrow>
        (let t' = (readPeerFrames 0 ^^ n) t
         in srv_dst 2 t' = srv_dst 2 t @ cl_src 0 (example_cl [7, 8] []) \<and> srv_in 0 t' = rest \<and> srv_live 0 2 [1] 1 t')"
    using service_bytes_reach_browser [OF example_live(2) ks, of 0 2] by blast
  from t [rule_format, of "example_srv [] wire" "[]"]
  have "srv_dst 2 ((readPeerFrames 0 ^^ n) (example_srv [] wire)) = [7, 8]"
    by (simp add: example_live Let_def)
  with w show ?thesis unfolding example_live append_Nil by blast
qed

text \<open>
  C33. Both copiers end: with as many turns as there are bytes, and one more, the input that
  ends with EOF has been sent, the EOF frame follows it, and the goroutine is gone.
\<close>

theorem copiers_end:
  assumes "list_all ((<) 0) ks"
  shows "(srv_live p q key i t \<and> srv_eof q t \<and> length (srv_src q t) \<le> length ks \<longrightarrow>
      (let t' = pipeBrowserToPeer k p q (drain (\<lambda>k. pipeBrowserToPeer k p q) (srv_src q) ks t)
       in Piping p q \<notin> tasks t' \<and> suffix (frame_wire key (eof_frame i)) (srv_out p t'))) \<and>
    (cl_live q' key i c \<and> cl_eof q' c \<and> length (cl_src q' c) \<le> length ks \<longrightarrow>
      (let c' = pipeLocalToRemote k q' (drain (\<lambda>k. pipeLocalToRemote k q') (cl_src q') ks c)
       in q' \<notin> pipes c' \<and> suffix (frame_wire key (eof_frame i)) (cl_out c')))"
  using browser_source.run_then_eof [of p q key i t ks k] service_source.run_then_eof [of q' key i c ks k] assms
  by (simp add: Let_def suffix_def)

theorem copiers_end_witness:
  "Piping 0 2 \<notin> tasks (pipeBrowserToPeer 5 0 2 (drain (\<lambda>k. pipeBrowserToPeer k 0 2) (srv_src 2) [1, 1] (example_srv [7, 8] [])))
   \<and> 0 \<notin> pipes (pipeLocalToRemote 5 0 (drain (\<lambda>k. pipeLocalToRemote k 0) (cl_src 0) [1, 1] (example_cl [7, 8] [])))"
  using copiers_end [of "[1, 1]" 0 2 "[1]" 1 "example_srv [7, 8] []" 5 0 "example_cl [7, 8] []"]
  by (simp only: example_live Let_def) simp

text \<open>
  A ping from the client is answered and changes nothing else: in particular the idle
  timer of the session keeps its deadline, where every data, EOF and close frame moves it.
\<close>

theorem ping_keeps_idle_deadline:
  assumes "sess t p = Some s" and "peer s = Some ep" and "avail (ep_in ep) = frame_wire (macKey ep) f @ r"
    and "tunnel_fits f"
  shows "(frame_type f = tunnelFramePing \<longrightarrow>
       (\<exists>ep'. readPeerFrames p t = update_sess p (\<lambda>s. s\<lparr>peer := Some ep'\<rparr>) t) \<and>
       map_option idleTimer (sess (readPeerFrames p t) p) = Some (idleTimer s)) \<and>
     (frame_type f \<in> {tunnelFrameData, tunnelFrameEOF, tunnelFrameClose} \<and> idleTO s > 0 \<and> idleTimer s \<noteq> None \<longrightarrow>
       map_option idleTimer (sess (readPeerFrames p t) p) = Some (Some (Armed (now t + idleTO s))))"
proof -
  have "readFrame ep = (Inr f, ep\<lparr>ep_in := (ep_in ep)\<lparr>avail := r\<rparr>\<rparr>)"
    using assms(3,4) by (intro readFrame_wire)
  note rd = assms(1,2) this
  consider "frame_type f = tunnelFramePing" | "frame_type f = tunnelFrameData" | "frame_type f = tunnelFrameEOF"
    | "frame_type f = tunnelFrameClose" | "frame_type f \<notin> {tunnelFramePing, tunnelFrameData, tunnelFrameEOF, tunnelFrameClose}"
    by blast
  then show ?thesis
  proof cases
    case 1
    with rd show ?thesis
      by (auto simp: readPeerFrames_def frame_type_defs srv_step_defs split: prod.split)
  next
    case 2
    with rd show ?thesis
      by (simp add: readPeerFrames_def frame_type_defs handle_data_def dropStream_def srv_step_defs split: option.split prod.split)
  next
    case 3
    with rd show ?thesis
      by (simp add: readPeerFrames_def frame_type_defs srv_step_defs split: option.split)
  next
    case 4
    with rd show ?thesis
      by (simp add: readPeerFrames_def frame_type_defs dropStream_def srv_step_defs split: option.split)
  qed auto
qed

theorem ping_keeps_idle_deadline_witness:
  "map_option idleTimer (sess (readPeerFrames 0
      (example_srv [] (frame_wire [1] \<lparr>frame_type = tunnelFramePing, StreamID = 0, Payload = []\<rparr>))) 0)
    = map_option idleTimer (sess (example_srv [] []) 0)"
proof -
  let ?f = "\<lparr>frame_type = tunnelFramePing, StreamID = 0, Payload = []\<rparr>"
  let ?ep = "newTunnelEndpoint \<lparr>avail = frame_wire [1] ?f, fin = EOF\<rparr> fresh_sink [1]"
  let ?s = "(new_session 0 ''a1'' empty_url [] [] example_request)\<lparr>peer := Some ?ep, streams := [(1, 2)]\<rparr>"
  have s: "sess (example_srv [] (frame_wire [1] ?f)) 0 = Some ?s" "peer ?s = Some ?ep"
    "avail (ep_in ?ep) = frame_wire (macKey ?ep) ?f @ []" "tunnel_fits ?f"
    by (simp_all add: example_srv_def newTunnelEndpoint_def)
  have "map_option idleTimer (sess (readPeerFrames 0 (example_srv [] (frame_wire [1] ?f))) 0) = Some (idleTimer ?s)"
    using ping_keeps_idle_deadline [OF s] by simp
  then show ?thesis by (simp add: example_srv_def)
qed

text \<open>
  C38. When the browser closes its sending side, the server drops the whole stream with the
  browser connection: data the client still sends for that stream, the rest of the response,
  is read and discarded.
\<close>

theorem browser_eof_discards_response:
  assumes "srv_live p q key i t" and "srv_src q t = []" and "srv_eof q t"
    and "t1 = pipeBrowserToPeer k p q t" and "srv_in p t = frame_wire key (data_frame i d) @ r" and "length d \<le> 32 * 1024"
  shows "srv_in p (readPeerFrames p t1) = r \<and> srv_dst q (readPeerFrames p t1) = srv_dst q t \<and>
    getStream p i t1 = None \<and> (\<exists>st. strm t1 q = Some st \<and> st_closed st)"
proof -
  from assms(1) show ?thesis
  proof (rule srv_liveE)
    fix s st ep
    assume *: "sess t p = Some s" "strm t q = Some st" "peer s = Some ep"
      "map_of (streams s) i = Some q" "st_id st = i" "\<not> dead (b_out (browser st))" "room (b_out (browser st)) = None"
      "macKey ep = key" "\<not> dead (ep_out ep)" "room (ep_out ep) = None"
    from * assms(2,3) have e: "avail (b_in (browser st)) = []" "fin (b_in (browser st)) = EOF" by (simp_all add: srv_view)
    define ep1 where "ep1 = ep\<lparr>ep_out := (ep_out ep)\<lparr>written := written (ep_out ep) @ frame_wire (macKey ep) (eof_frame i)\<rparr>\<rparr>"
    define s1 where "s1 = s\<lparr>peer := Some ep1, streams := filter (\<lambda>e. fst e \<noteq> i) (streams s)\<rparr>"
    have none: "map_of (streams s1) i = None"
      by (auto simp: s1_def map_of_eq_None_iff)
    have t1: "sess t1 p = Some s1" "strm t1 q = Some (stream_close st)" "peer s1 = Some ep1"
      using * e by (simp_all add: assms(4) pipeBrowserToPeer_def bconn_Read_def srv_step_defs writeFrame_room
          pipe_end_def dropStream_def getStream_def s1_def ep1_def)
    have "readFrame ep1 = (Inr (data_frame i d), ep1\<lparr>ep_in := (ep_in ep1)\<lparr>avail := r\<rparr>\<rparr>)"
      using assms(5,6) * by (intro readFrame_wire) (simp_all add: srv_view ep1_def)
    then have "srv_in p (readPeerFrames p t1) = r \<and> srv_dst q (readPeerFrames p t1) = written (b_out (browser (stream_close st)))"
      using t1 none by (simp add: readPeerFrames_def frame_type_defs handle_data_def getStream_def srv_step_defs srv_view)
    moreover have "written (b_out (browser (stream_close st))) = srv_dst q t"
      using * by (simp add: srv_view stream_close_def bconn_Close_def)
    ultimately show ?thesis
      using t1 none by (simp add: getStream_def stream_close_def)
  qed
qed

theorem browser_eof_discards_response_witness:
  "srv_dst 2 (readPeerFrames 0 (pipeBrowserToPeer 5 0 2 (example_srv [] (frame_wire [1] (data_frame 1 [9]))))) = []"
  using browser_eof_discards_response [OF example_live(1,3,7) refl, of "frame_wire [1] (data_frame 1 [9])" "[9]" "[]" 5]
  by (simp add: example_live)

end
