(* ===== verification/Clipboard.thy ===== *)
theory Clipboard
  imports GoStrings
begin

text \<open>
  The clipboard service: line-ending conversion (\<^verbatim>\<open>server/helpers.go\<close>) and the RPC object
  \<^verbatim>\<open>Clipboard\<close> (\<^verbatim>\<open>server/clipboard.go\<close>). The system clipboard behind the third-party
  package \<^verbatim>\<open>atotto/clipboard\<close> is a parameter: its state and its two functions
  \<^verbatim>\<open>WriteAll\<close> and \<^verbatim>\<open>ReadAll\<close>.
\<close>

section \<open>Line endings\<close>

abbreviation CR :: char where "CR \<equiv> CHR 0x0D"
abbreviation LF :: char where "LF \<equiv> CHR 0x0A"

definition ConvertLE :: "gostring \<Rightarrow> gostring \<Rightarrow> gostring" where
  "ConvertLE text op =
     (if EqualFold ''lf'' op then
        (let text = ReplaceAll text [CR, LF] [LF];
             text = ReplaceAll text [CR] [LF]
         in text)
      else if EqualFold ''crlf'' op then
        (let text = ReplaceAll text [CR, LF] [LF];
             text = ReplaceAll text [CR] [LF]
         in ReplaceAll text [LF] [CR, LF])
      else text)"

text \<open>
  The specification: a text is a sequence of lines, each ended by \<^verbatim>\<open>CR LF\<close>, by a lone
  \<^verbatim>\<open>CR\<close> or by a lone \<^verbatim>\<open>LF\<close>; converting replaces every line end by the wanted one and
  touches nothing else.
\<close>

fun lines_of :: "gostring \<Rightarrow> gostring list" where
  "lines_of [] = [[]]"
| "lines_of [c] = (if c = CR \<or> c = LF then [[], []] else [[c]])"
| "lines_of (c # d # s) =
     (if c = CR \<and> d = LF then [] # lines_of s
      else if c = CR \<or> c = LF then [] # lines_of (d # s)
      else (case lines_of (d # s) of l # ls \<Rightarrow> (c # l) # ls | [] \<Rightarrow> [[c]]))"

section \<open>The RPC object\<close>

definition MaxClipboardSize :: nat where
  "MaxClipboardSize = push_bit 20 1"

record Clipboard =
  leOP :: gostring

definition NewClipboard :: "gostring \<Rightarrow> Clipboard" where
  "NewClipboard le = \<lparr>leOP = le\<rparr>"

text \<open>
  \<open>WriteAll\<close> takes the clipboard's state to an error or nothing and the new state,
  \<open>ReadAll\<close> reads it; on an error \<^verbatim>\<open>Paste\<close> still stores the text read in the reply.
\<close>

definition Copy ::
    "(gostring \<Rightarrow> 'c \<Rightarrow> goerr option \<times> 'c) \<Rightarrow> Clipboard \<Rightarrow> gostring \<Rightarrow> 'c \<Rightarrow> goerr option \<times> 'c" where
  "Copy WriteAll c text st =
     (if length text > MaxClipboardSize
      then (Some (Errorf (''clipboard payload size '' @ nat_itoa (length text)
                          @ '' exceeds maximum '' @ nat_itoa MaxClipboardSize)), st)
      else WriteAll (ConvertLE text (leOP c)) st)"

definition Paste ::
    "('c \<Rightarrow> gostring \<times> goerr option) \<Rightarrow> 'c \<Rightarrow> gostring \<times> goerr option" where
  "Paste ReadAll st = (case ReadAll st of (t, err) \<Rightarrow> (t, err))"

section \<open>Lemmas on replacement\<close>

lemma MaxClipboardSize_val [simp]: "MaxClipboardSize = 1048576"
  by (simp add: MaxClipboardSize_def push_bit_eq_mult)

lemma ReplaceAll_one: "ReplaceAll s [c] new = concat (map (\<lambda>x. if x = c then new else [x]) s)"
  by (induction s) auto

text \<open>The two replacements towards \<^verbatim>\<open>LF\<close>, in one pass over the text.\<close>

fun norm_lf :: "gostring \<Rightarrow> gostring" where
  "norm_lf [] = []"
| "norm_lf [c] = (if c = CR then [LF] else [c])"
| "norm_lf (c # d # s) =
     (if c = CR then (if d = LF then LF # norm_lf s else LF # norm_lf (d # s))
      else c # norm_lf (d # s))"

lemma norm_lf_eq: "ReplaceAll (ReplaceAll s [CR, LF] [LF]) [CR] [LF] = norm_lf s"
  by (induction s rule: norm_lf.induct) (auto simp: ReplaceAll_one)

lemma norm_lf_no_CR: "CR \<notin> set (norm_lf s)"
  by (induction s rule: norm_lf.induct) auto

lemma norm_lf_Cons: "c \<noteq> CR \<Longrightarrow> norm_lf (c # s) = c # norm_lf s"
  by (cases s) auto

lemma norm_lf_length: "length (norm_lf s) \<le> length s"
  by (induction s rule: norm_lf.induct) auto

lemma norm_lf_id: "CR \<notin> set s \<Longrightarrow> norm_lf s = s"
  by (induction s rule: norm_lf.induct) auto

lemma lines_of_not_Nil [simp]: "lines_of s \<noteq> []"
  by (induction s rule: lines_of.induct) (auto split: list.splits)

lemma lines_of_no_ends: "l \<in> set (lines_of s) \<Longrightarrow> CR \<notin> set l \<and> LF \<notin> set l"
  by (induction s arbitrary: l rule: lines_of.induct) (auto split: if_splits list.splits)

lemma Join_Nil_Cons: "ls \<noteq> [] \<Longrightarrow> Join ([] # ls) sep = sep @ Join ls sep"
  by (cases ls) auto

lemma Join_Cons_char: "Join ((c # l) # ls) sep = c # Join (l # ls) sep"
  by (cases ls) auto

lemma norm_lf_lines: "norm_lf s = Join (lines_of s) [LF]"
  by (induction s rule: norm_lf.induct)
     (auto simp: Join_Nil_Cons Join_Cons_char split: list.splits)

lemma Join_crlf: 
  assumes "\<forall>l \<in> set ls. LF \<notin> set l"
  shows "ReplaceAll (Join ls [LF]) [LF] [CR, LF] = Join ls [CR, LF]"
proof -
  have line: "concat (map (\<lambda>x. if x = LF then [CR, LF] else [x]) l) = l" if "LF \<notin> set l" for l
    using that by (induction l) auto
  show ?thesis
    using assms unfolding ReplaceAll_one
    by (induction ls "[LF]" rule: Join.induct) (auto simp: line)
qed

lemma ConvertLE_lf: "EqualFold ''lf'' op \<Longrightarrow> ConvertLE s op = norm_lf s"
  by (simp add: ConvertLE_def norm_lf_eq Let_def)

lemma not_both_ops: "EqualFold ''crlf'' op \<Longrightarrow> \<not> EqualFold ''lf'' op"
  by (auto simp: EqualFold_def ToLower_def dest: arg_cong [of _ _ length])

lemma ConvertLE_crlf: "EqualFold ''crlf'' op \<Longrightarrow> ConvertLE s op = ReplaceAll (norm_lf s) [LF] [CR, LF]"
  by (simp add: ConvertLE_def norm_lf_eq not_both_ops Let_def)

lemma length_ReplaceAll_lf: "length (ReplaceAll s [LF] [CR, LF]) \<le> 2 * length s"
  by (induction s) auto

section \<open>Properties\<close>

text \<open>
  C30. \<^verbatim>\<open>ConvertLE\<close> is the line-by-line conversion: for \<^verbatim>\<open>lf\<close> and \<^verbatim>\<open>crlf\<close> in any letter case
  the result is the text's lines joined by the wanted ending, and any other operation
  leaves the text alone.
\<close>

theorem ConvertLE_lines:
  "ConvertLE text op =
     (if EqualFold ''lf'' op then Join (lines_of text) [LF]
      else if EqualFold ''crlf'' op then Join (lines_of text) [CR, LF]
      else text)"
proof -
  have "ReplaceAll (Join (lines_of text) [LF]) [LF] [CR, LF] = Join (lines_of text) [CR, LF]"
    using lines_of_no_ends by (intro Join_crlf) blast
  then show ?thesis
    by (auto simp: ConvertLE_lf ConvertLE_crlf norm_lf_lines) (simp add: ConvertLE_def)
qed

text \<open>
  C31. An accepted \<^verbatim>\<open>Copy\<close> hands the system clipboard at most twice \<^verbatim>\<open>MaxClipboardSize\<close>
  bytes (the size is checked before the conversion, which may double it), and a payload
  over the limit is refused without touching the clipboard.
\<close>

theorem Copy_bounded:
  "if length s \<le> MaxClipboardSize
   then \<exists>t. Copy WriteAll c s st = WriteAll t st \<and> length t \<le> 2 * MaxClipboardSize
   else \<exists>m. Copy WriteAll c s st = (Some (Errorf m), st)"
proof (cases "length s \<le> MaxClipboardSize")
  case True
  have "length (ConvertLE s op) \<le> 2 * length s" for op
  proof -
    consider "EqualFold ''lf'' op" | "EqualFold ''crlf'' op"
      | "\<not> EqualFold ''lf'' op" "\<not> EqualFold ''crlf'' op" by blast
    then show ?thesis
    proof cases
      case 1
      then show ?thesis using norm_lf_length [of "s"] by (simp add: ConvertLE_lf)
    next
      case 2
      then show ?thesis
        using norm_lf_length [of "s"] length_ReplaceAll_lf [of "norm_lf s"] by (simp add: ConvertLE_crlf)
    next
      case 3
      then show ?thesis by (simp add: ConvertLE_def)
    qed
  qed
  then have "length (ConvertLE s (leOP c)) \<le> 2 * MaxClipboardSize"
    using True by (meson le_trans mult_le_mono2)
  with True show ?thesis by (auto simp: Copy_def)
next
  case False
  then show ?thesis by (simp add: Copy_def)
qed

text \<open>
  What was copied is pasted: with a clipboard that returns what was last written, a
  \<^verbatim>\<open>Copy\<close> that succeeds makes \<^verbatim>\<open>Paste\<close> return the text with the server's line ending, and
  converting it on the client to \<^verbatim>\<open>lf\<close> gives the same text whatever the server's setting.
\<close>

theorem Copy_Paste:
  assumes backend: "\<And>t s s'. WriteAll t s = (None, s') \<Longrightarrow> ReadAll s' = (t, None)"
    and copied: "Copy WriteAll (NewClipboard le) text st = (None, st')"
  shows "Paste ReadAll st' = (ConvertLE text le, None) \<and>
         ConvertLE (fst (Paste ReadAll st')) ''lf'' = ConvertLE text ''lf''"
proof -
  from copied have "WriteAll (ConvertLE text le) st = (None, st')"
    by (auto simp: Copy_def NewClipboard_def split: if_splits)
  then have *: "Paste ReadAll st' = (ConvertLE text le, None)"
    by (simp add: Paste_def backend)
  have crlf: "norm_lf (ReplaceAll t [LF] [CR, LF]) = t" if "CR \<notin> set t" for t
    using that by (induction t) (auto simp: norm_lf_Cons)
  have "norm_lf (ConvertLE text le) = norm_lf text"
    by (cases "EqualFold ''lf'' le"; cases "EqualFold ''crlf'' le")
       (simp_all add: ConvertLE_lf ConvertLE_crlf norm_lf_id norm_lf_no_CR crlf, simp add: ConvertLE_def)
  then show ?thesis
    by (simp add: * ConvertLE_lf)
qed

theorem Copy_Paste_witness:
  "Paste (\<lambda>s. (s, None)) (snd (Copy (\<lambda>t s. (None, t)) (NewClipboard ''CRLF'') [LF] [])) = ([CR, LF], None) \<and>
   ConvertLE (fst (Paste (\<lambda>s. (s, None)) [CR, LF])) ''lf'' = [LF]"
proof -
  have b: "\<And>t s s'. (None :: goerr option, t) = (None, s') \<Longrightarrow> (s' :: gostring, None :: goerr option) = (t, None)"
    by simp
  have e: "ConvertLE [LF] ''CRLF'' = [CR, LF]" "ConvertLE [LF] ''lf'' = [LF]"
    by code_simp+
  have c: "Copy (\<lambda>t s. (None, t)) (NewClipboard ''CRLF'') [LF] [] = (None, [CR, LF])"
    by (simp add: Copy_def NewClipboard_def e)
  show ?thesis
    using Copy_Paste [where WriteAll = "\<lambda>t s. (None, t)" and ReadAll = "\<lambda>s. (s, None)", OF b c]
    unfolding c e by auto
qed

end
