(* ===== verification/SecConn.thy ===== *)
theory SecConn
  imports Frame GoHash
begin

text \<open>
  The authenticated RPC transport: the server's \<^verbatim>\<open>secConn\<close> (\<^verbatim>\<open>server/server.go\<close>), which
  verifies every request frame, and the client's \<^verbatim>\<open>secConn\<close> (\<^verbatim>\<open>cmd/cli/main_cli.go\<close>),
  which signs them; replies travel in plain frames. The signed-message format is that of
  the vendored \<^verbatim>\<open>nacl/sign\<close>; the Ed25519 functions under it are parameters
  (\<open>ed_sign\<close>, \<open>ed_verify\<close>), as is the build's version-dependent \<^verbatim>\<open>misc.Magic()\<close>.
\<close>

section \<open>Signed messages\<close>

definition Overhead :: nat where
  "Overhead = 64"

definition sign_Sign :: "(bytes \<Rightarrow> bytes \<Rightarrow> bytes) \<Rightarrow> bytes \<Rightarrow> bytes \<Rightarrow> bytes \<Rightarrow> bytes" where
  "sign_Sign ed_sign out message privateKey = out @ ed_sign privateKey message @ message"

definition sign_Open ::
    "(bytes \<Rightarrow> bytes \<Rightarrow> bytes \<Rightarrow> bool) \<Rightarrow> bytes \<Rightarrow> bytes \<Rightarrow> bytes \<Rightarrow> bytes option" where
  "sign_Open ed_verify out signedMessage publicKey =
     (if length signedMessage < Overhead then None
      else if \<not> ed_verify publicKey (drop Overhead signedMessage) (take Overhead signedMessage) then None
      else Some (out @ drop Overhead signedMessage))"

section \<open>The server side\<close>

text \<open>
  \<open>locked\<close> is the value behind the pointer, \<open>None\<close> for a nil pointer; the deadlines are
  those last set on the connection; times and durations are in nanoseconds.
\<close>

record secConn =
  br :: stream
  conn_out :: sink
  read_deadline :: "int option"
  write_deadline :: "int option"
  conn_closed :: bool
  pkeys :: "bytes \<rightharpoonup> bytes"
  magic :: bytes
  locked :: "int option"
  ioTimeout :: int

text \<open>
  \<^verbatim>\<open>Read(p)\<close> with \<open>plen = len(p)\<close>: the bytes stored at the start of \<^verbatim>\<open>p\<close>, the returned
  count and the error. The indices into \<^verbatim>\<open>sc.magic\<close> are in range for a magic of at least
  six bytes, which the generated one of eight bytes is.
\<close>

definition secConn_Read ::
    "(bytes \<Rightarrow> bytes \<Rightarrow> bytes \<Rightarrow> bool) \<Rightarrow> int \<Rightarrow> secConn \<Rightarrow> nat \<Rightarrow> (bytes \<times> nat \<times> goerr option) \<times> secConn" where
  "secConn_Read ed_verify now sc0 plen =
     (let sc = (if ioTimeout sc0 > 0 then sc0\<lparr>read_deadline := Some (now + ioTimeout sc0)\<rparr> else sc0)
      in case ReadFrame (br sc) of
           (Inl err, s) \<Rightarrow> (([], 0, Some err), sc\<lparr>br := s\<rparr>)
         | (Inr inp, s) \<Rightarrow>
             (let sc = sc\<lparr>br := s\<rparr>
              in if locked sc = Some 1 then (([], 0, Some ErrUnexpectedEOF), sc)
                 else if length inp \<le> length (magic sc) + 32 + Overhead
                 then (([], 0, Some ErrUnexpectedEOF), sc)
                 else if take 6 inp \<noteq> take 6 (magic sc) then (([], 0, Some ErrShutdown), sc)
                 else
                   (let hpk = take 32 (drop (length (magic sc)) inp)
                    in case pkeys sc hpk of
                         None \<Rightarrow> (([], 0, Some ErrShutdown), sc)
                       | Some pk \<Rightarrow>
                           (case sign_Open ed_verify [] (drop (length (magic sc) + 32) inp) pk of
                              None \<Rightarrow> (([], 0, Some ErrShutdown), sc)
                            | Some out \<Rightarrow> ((take plen out, length out, None), sc)))))"

definition secConn_Write :: "int \<Rightarrow> secConn \<Rightarrow> bytes \<Rightarrow> (nat \<times> goerr option) \<times> secConn" where
  "secConn_Write now sc0 p =
     (let sc = (if ioTimeout sc0 > 0 then sc0\<lparr>write_deadline := Some (now + ioTimeout sc0)\<rparr> else sc0)
      in case WriteFrame (conn_out sc) p of
           (Some err, w) \<Rightarrow> ((0, Some err), sc\<lparr>conn_out := w\<rparr>)
         | (None, w) \<Rightarrow> ((length p, None), sc\<lparr>conn_out := w\<rparr>))"

definition secConn_Close :: "secConn \<Rightarrow> secConn" where
  "secConn_Close sc = sc\<lparr>conn_closed := True\<rparr>"

section \<open>The client side\<close>

record cli_secConn =
  cli_br :: stream
  cli_out :: sink
  cli_closed :: bool
  cli_hpk :: bytes
  cli_k :: bytes

definition cli_secConn_Read :: "cli_secConn \<Rightarrow> nat \<Rightarrow> (bytes \<times> nat \<times> goerr option) \<times> cli_secConn" where
  "cli_secConn_Read sc plen =
     (case ReadFrame (cli_br sc) of
        (Inl err, s) \<Rightarrow> (([], 0, Some err), sc\<lparr>cli_br := s\<rparr>)
      | (Inr data, s) \<Rightarrow> ((take plen data, length data, None), sc\<lparr>cli_br := s\<rparr>))"

definition cli_secConn_Write ::
    "(bytes \<Rightarrow> bytes \<Rightarrow> bytes) \<Rightarrow> bytes \<Rightarrow> cli_secConn \<Rightarrow> bytes \<Rightarrow> (nat \<times> goerr option) \<times> cli_secConn" where
  "cli_secConn_Write ed_sign misc_Magic sc p =
     (let header = misc_Magic @ cli_hpk sc;
          out = sign_Sign ed_sign header p (cli_k sc)
      in case WriteFrame (cli_out sc) out of
           (Some err, w) \<Rightarrow> ((0, Some err), sc\<lparr>cli_out := w\<rparr>)
         | (None, w) \<Rightarrow> ((length p, None), sc\<lparr>cli_out := w\<rparr>))"

definition cli_secConn_Close :: "cli_secConn \<Rightarrow> cli_secConn" where
  "cli_secConn_Close sc = sc\<lparr>cli_closed := True\<rparr>"

section \<open>Lemmas\<close>

text \<open>The layout of a request the server accepts.\<close>

definition signed_request ::
    "(bytes \<Rightarrow> bytes \<Rightarrow> bytes \<Rightarrow> bool) \<Rightarrow> (bytes \<rightharpoonup> bytes) \<Rightarrow> bytes \<Rightarrow> bytes \<Rightarrow> bytes \<Rightarrow> bool" where
  "signed_request ed_verify trusted mg inp msg \<longleftrightarrow>
     (\<exists>ver hpk pk sig. inp = take 6 mg @ ver @ hpk @ sig @ msg \<and>
        length ver = length mg - 6 \<and> length hpk = 32 \<and> length sig = Overhead \<and> msg \<noteq> [] \<and>
        trusted hpk = Some pk \<and> ed_verify pk msg sig)"

lemma signed_request_cut:
  assumes "6 \<le> length mg"
  shows "signed_request ed_verify trusted mg inp msg \<longleftrightarrow>
     length mg + 32 + Overhead < length inp \<and> take 6 inp = take 6 mg \<and>
     msg = drop (length mg + 32 + Overhead) inp \<and>
     (\<exists>pk. trusted (take 32 (drop (length mg) inp)) = Some pk \<and>
           ed_verify pk msg (take Overhead (drop (length mg + 32) inp)))"
    (is "?L \<longleftrightarrow> ?R")
proof
  assume ?L
  then obtain ver hpk pk sig where i: "inp = take 6 mg @ ver @ hpk @ sig @ msg"
    and l: "length ver = length mg - 6" "length hpk = 32" "length sig = Overhead" "msg \<noteq> []"
    and ok: "trusted hpk = Some pk" "ed_verify pk msg sig"
    by (auto simp: signed_request_def)
  have m: "length (take 6 mg @ ver) = length mg"
    using assms l by simp
  have "drop (length mg) inp = hpk @ sig @ msg"
    using drop_append_exact [OF m, of "hpk @ sig @ msg"] i by simp
  moreover from this l have "drop (length mg + 32) inp = sig @ msg"
    by (metis add.commute drop_append_exact drop_drop)
  moreover from this l have "drop (length mg + 32 + Overhead) inp = msg"
    by (metis add.commute drop_append_exact drop_drop)
  ultimately show ?R
    using assms i l ok by (simp add: Overhead_def)
next
  assume r: ?R
  let ?d = "drop (length mg) inp"
  have "inp = take 6 inp @ drop 6 (take (length mg) inp) @ take 32 ?d
              @ take Overhead (drop 32 ?d) @ drop Overhead (drop 32 ?d)"
    using assms by (metis append_assoc append_take_drop_id min_def take_take)
  moreover have "drop 32 ?d = drop (length mg + 32) inp" and "drop Overhead (drop 32 ?d) = msg"
    using r by (simp_all add: add.commute add.left_commute)
  ultimately show ?L
    using r assms unfolding signed_request_def
    by - (rule exI [of _ "drop 6 (take (length mg) inp)"], rule exI [of _ "take 32 ?d"],
        elim conjE exE, rule exI, rule exI [of _ "take Overhead (drop 32 ?d)"],
        auto simp: Overhead_def)
qed

lemma secConn_Read_ok:
  assumes "6 \<le> length (magic sc)"
  shows "fst (secConn_Read ed_verify now sc plen) = (buf, n, None) \<longleftrightarrow>
     (\<exists>inp msg. fst (ReadFrame (br sc)) = Inr inp \<and> locked sc \<noteq> Some 1 \<and>
        signed_request ed_verify (pkeys sc) (magic sc) inp msg \<and> buf = take plen msg \<and> n = length msg)"
proof (cases "ReadFrame (br sc)")
  case (Pair r s)
  show ?thesis
  proof (cases r)
    case (Inl e)
    with Pair show ?thesis by (simp add: secConn_Read_def Let_def)
  next
    case (Inr inp)
    with Pair show ?thesis
      by (auto simp: secConn_Read_def Let_def signed_request_cut [OF assms] sign_Open_def
          add.commute add.left_commute split: option.splits)
  qed
qed

lemma WriteFrame_fst_snd: "fst (WriteFrame w p) = None \<Longrightarrow> written (snd (WriteFrame w p)) = written w @ frame_bytes p"
  by (cases "WriteFrame w p") (auto dest: WriteFrame_okD)

lemma cli_secConn_Write_ok:
  assumes "cli_secConn_Write ed_sign mg c p = ((n, None), c')"
  shows "n = length p \<and> written (cli_out c') = written (cli_out c)
           @ frame_bytes (mg @ cli_hpk c @ ed_sign (cli_k c) p @ p)"
  using assms
  by (auto simp: cli_secConn_Write_def sign_Sign_def Let_def dest!: WriteFrame_okD split: prod.splits option.splits)

lemma secConn_Read_signed:
  assumes "6 \<le> length (magic sc)" and "length mg = length (magic sc)" and "take 6 mg = take 6 (magic sc)"
    and "length hpk = 32" and "pkeys sc hpk = Some pk" and "length sig = 64" and "ed_verify pk p sig"
    and "p \<noteq> []" and "length mg + 32 + Overhead + length p \<le> unat MaxFrameSize"
    and "locked sc \<noteq> Some 1" and "br sc = \<lparr>avail = frame_bytes (mg @ hpk @ sig @ p) @ rest, fin = e\<rparr>"
  shows "fst (secConn_Read ed_verify now sc plen) = (take plen p, length p, None)"
    and "br (snd (secConn_Read ed_verify now sc plen)) = \<lparr>avail = rest, fin = e\<rparr>"
proof -
  let ?inp = "mg @ hpk @ sig @ p"
  have "frame_fits ?inp"
    using assms by (simp add: Overhead_def)
  note rd = ReadFrame_frame [OF this, of rest e]
  have "take 6 ?inp = take 6 (magic sc)" and "6 \<le> length mg"
    using assms by simp_all
  then show "fst (secConn_Read ed_verify now sc plen) = (take plen p, length p, None)"
    and "br (snd (secConn_Read ed_verify now sc plen)) = \<lparr>avail = rest, fin = e\<rparr>"
    using assms rd by (simp_all add: secConn_Read_def sign_Open_def Overhead_def Let_def)
qed

section \<open>Key stores\<close>

text \<open>
  What the connection needs of the keys it is given: a store loaded from some source maps
  the SHA-256 of a 32-byte key to that key and nothing else. Then an accepted request names
  the very key its signature was checked with.
\<close>

locale key_store =
  fixes load :: "'f \<Rightarrow> (bytes \<rightharpoonup> bytes)"
  assumes load_hash: "load f h = Some k \<Longrightarrow> h = sha256_Sum256 k"
    and load_length: "load f h = Some k \<Longrightarrow> length k = 32"
begin

lemma load_inj: "load f h = Some k \<Longrightarrow> load f h' = Some k \<Longrightarrow> h = h'"
  using load_hash by metis

lemma accepted_request:
  assumes "6 \<le> length (magic sc)" and "pkeys sc = load f"
    and "fst (secConn_Read ed_verify now sc plen) = (buf, n, None)"
  shows "\<exists>ver pk sig msg. fst (ReadFrame (br sc)) = Inr (take 6 (magic sc) @ ver @ sha256_Sum256 pk @ sig @ msg) \<and>
     length ver = length (magic sc) - 6 \<and> length sig = Overhead \<and>
     pk \<in> ran (load f) \<and> length pk = 32 \<and> ed_verify pk msg sig \<and> buf = take plen msg \<and> n = length msg"
proof -
  from assms(3) obtain ver hpk pk sig msg
    where "fst (ReadFrame (br sc)) = Inr (take 6 (magic sc) @ ver @ hpk @ sig @ msg)"
      "length ver = length (magic sc) - 6" "length sig = Overhead" "pkeys sc hpk = Some pk"
      "ed_verify pk msg sig" "buf = take plen msg" "n = length msg"
    unfolding secConn_Read_ok [OF assms(1)] signed_request_def by blast
  moreover from this assms(2) have "hpk = sha256_Sum256 pk" "length pk = 32" "pk \<in> ran (load f)"
    using load_hash load_length by (auto simp: ran_def)
  ultimately show ?thesis by blast
qed

end

section \<open>Properties\<close>

text \<open>
  C1. The server's \<^verbatim>\<open>Read\<close> delivers a message without an error exactly when the session
  is not locked and the next frame is the first six magic bytes (name and major version),
  the remaining version bytes, the hash of a trusted key, a signature and a non-empty
  message, where the signature verifies under the trusted key stored for that hash.
\<close>

theorem secConn_Read_authentic:
  assumes "6 \<le> length (magic sc)"
  shows "fst (secConn_Read ed_verify now sc plen) = (buf, n, None) \<longleftrightarrow>
     locked sc \<noteq> Some 1 \<and>
     (\<exists>ver hpk pk sig msg.
        fst (ReadFrame (br sc)) = Inr (take 6 (magic sc) @ ver @ hpk @ sig @ msg) \<and>
        length ver = length (magic sc) - 6 \<and> length hpk = 32 \<and> length sig = Overhead \<and> msg \<noteq> [] \<and>
        pkeys sc hpk = Some pk \<and> ed_verify pk msg sig \<and> buf = take plen msg \<and> n = length msg)"
  unfolding secConn_Read_ok [OF assms] signed_request_def by blast

definition example_server :: "bytes \<Rightarrow> secConn" where
  "example_server inp =
     \<lparr>br = \<lparr>avail = appendFrame inp, fin = EOF\<rparr>, conn_out = \<lparr>written = [], room = None, werr = EOF, dead = False\<rparr>,
      read_deadline = None, write_deadline = None, conn_closed = False,
      pkeys = [replicate 32 1 \<mapsto> replicate 32 2], magic = [103, 99, 108, 112, 114, 0, 0, 0],
      locked = Some 0, ioTimeout = 0\<rparr>"

theorem secConn_Read_authentic_witness:
  "fst (secConn_Read (\<lambda>pk m s. s = replicate 64 3) 0
      (example_server ([103, 99, 108, 112, 114, 0, 9, 9] @ replicate 32 1 @ replicate 64 3 @ [7, 8])) 4096)
    = ([7, 8], 2, None)"
proof -
  let ?inp = "[103, 99, 108, 112, 114, 0, 9, 9] @ replicate 32 1 @ replicate 64 3 @ [7, 8 :: byte]"
  let ?sc = "example_server ?inp"
  have m: "6 \<le> length (magic ?sc)" by (simp add: example_server_def)
  have "frame_fits ?inp" by simp
  from ReadFrame_frame [OF this, of "[]" EOF] have "fst (ReadFrame (br ?sc)) = Inr ?inp"
    by (simp add: example_server_def appendFrame_eq del: unat_MaxFrameSize)
  then have "fst (ReadFrame (br ?sc)) = Inr (take 6 (magic ?sc) @ [9, 9] @ replicate 32 1 @ replicate 64 3 @ [7, 8])"
    by (simp add: example_server_def)
  moreover have "length [9, 9 :: byte] = length (magic ?sc) - 6" "locked ?sc \<noteq> Some 1"
      "pkeys ?sc (replicate 32 1) = Some (replicate 32 2)"
    by (simp_all add: example_server_def)
  ultimately show ?thesis
    unfolding secConn_Read_authentic [OF m]
    by - (rule conjI, assumption, rule exI [of _ "[9, 9]"], rule exI [of _ "replicate 32 1"],
        rule exI [of _ "replicate 32 2"], rule exI [of _ "replicate 64 3"], rule exI [of _ "[7, 8]"],
        simp add: Overhead_def)
qed

text \<open>
  A request the client signs and writes is delivered by the server's \<^verbatim>\<open>Read\<close>, byte
  for byte and without a trailing byte of it left on the connection, when the server trusts
  the client's key under the hash the client sends, both sides agree on the first six bytes
  of a magic of the same length, and the session is not locked. What is needed of Ed25519
  is that a signature has 64 bytes and verifies under the matching public key.
\<close>

theorem client_request_delivered:
  assumes "cli_secConn_Write ed_sign mg c p = ((n, None), c')"
    and "6 \<le> length (magic sc)" and "length mg = length (magic sc)" and "take 6 mg = take 6 (magic sc)"
    and "length (cli_hpk c) = 32" and "pkeys sc (cli_hpk c) = Some pk"
    and "\<forall>m. length (ed_sign (cli_k c) m) = 64" and "\<forall>m. ed_verify pk m (ed_sign (cli_k c) m)"
    and "p \<noteq> []" and "length mg + 32 + Overhead + length p \<le> unat MaxFrameSize"
    and "locked sc \<noteq> Some 1"
  shows "\<exists>wire. written (cli_out c') = written (cli_out c) @ wire \<and>
     (let (r, sc') = secConn_Read ed_verify now (sc\<lparr>br := \<lparr>avail = wire @ rest, fin = e\<rparr>\<rparr>) plen
      in r = (take plen p, length p, None) \<and> br sc' = \<lparr>avail = rest, fin = e\<rparr>)"
proof -
  let ?inp = "mg @ cli_hpk c @ ed_sign (cli_k c) p @ p"
  let ?sc = "sc\<lparr>br := \<lparr>avail = frame_bytes ?inp @ rest, fin = e\<rparr>\<rparr>"
  have "fst (secConn_Read ed_verify now ?sc plen) = (take plen p, length p, None)"
    "br (snd (secConn_Read ed_verify now ?sc plen)) = \<lparr>avail = rest, fin = e\<rparr>"
    using secConn_Read_signed [of ?sc mg "cli_hpk c" pk "ed_sign (cli_k c) p" ed_verify p rest e now plen] assms by simp_all
  moreover have "written (cli_out c') = written (cli_out c) @ frame_bytes ?inp"
    using cli_secConn_Write_ok [OF assms(1)] by blast
  ultimately show ?thesis
    by (intro exI [of _ "frame_bytes ?inp"]) (simp add: case_prod_unfold)
qed

definition example_client :: cli_secConn where
  "example_client =
     \<lparr>cli_br = \<lparr>avail = [], fin = EOF\<rparr>, cli_out = \<lparr>written = [], room = None, werr = EOF, dead = False\<rparr>,
      cli_closed = False, cli_hpk = replicate 32 1, cli_k = replicate 64 4\<rparr>"

theorem client_request_delivered_witness:
  "\<exists>wire. written (cli_out (snd (cli_secConn_Write (\<lambda>k m. replicate 64 3)
            [103, 99, 108, 112, 114, 0, 9, 9] example_client [7, 8]))) = [] @ wire \<and>
     (let (r, sc') = secConn_Read (\<lambda>pk m s. s = replicate 64 3) 0
            ((example_server [])\<lparr>br := \<lparr>avail = wire @ [5], fin = EOF\<rparr>\<rparr>) 4096
      in r = (take 4096 [7, 8], length [7, 8 :: byte], None) \<and> br sc' = \<lparr>avail = [5], fin = EOF\<rparr>)"
proof -
  let ?s = "\<lambda>k m :: bytes. replicate 64 3 :: bytes"
  let ?w = "cli_secConn_Write ?s [103, 99, 108, 112, 114, 0, 9, 9] example_client [7, 8]"
  have w: "?w = ((2, None), snd ?w)"
    by (simp add: cli_secConn_Write_def example_client_def sign_Sign_def Let_def WriteFrame_unbounded)
  have o: "written (cli_out example_client) = []"
    by (simp add: example_client_def)
  show ?thesis
    using client_request_delivered [OF w, of "example_server []" "replicate 32 2"
        "\<lambda>pk m s. s = replicate 64 3" 0 "[5]" EOF 4096, unfolded o]
    by (simp add: example_server_def example_client_def Overhead_def)
qed

end
