(* ===== verification/GoFiles.thy ===== *)
theory GoFiles
  imports GoStrings
begin

text \<open>
  The part of \<^verbatim>\<open>os\<close> and \<^verbatim>\<open>path/filepath\<close> the key files use, on a Unix file tree: a map
  from clean paths to directories, regular files (mode bits, owner, content) and other
  nodes. A path may be marked as failing for the operating system's own reasons (access
  control, a full disk); every operation then returns that error where the system call
  would.
\<close>

section \<open>Paths\<close>

fun clean_step :: "bool \<Rightarrow> gostring list \<Rightarrow> gostring list \<Rightarrow> gostring list" where
  "clean_step rooted out [] = rev out"
| "clean_step rooted out (e # es) =
     (if e = [] \<or> e = ''.'' then clean_step rooted out es
      else if e = ''..'' then
        (case out of
           [] \<Rightarrow> clean_step rooted (if rooted then [] else [''..'']) es
         | t # ts \<Rightarrow> clean_step rooted (if t = ''..'' then ''..'' # out else ts) es)
      else clean_step rooted (e # out) es)"

definition filepath_Clean :: "gostring \<Rightarrow> gostring" where
  "filepath_Clean p =
     (let rooted = HasPrefix p ''/'';
          q = (if rooted then ''/'' else []) @ Join (clean_step rooted [] (SplitOn CHR ''/'' p)) ''/''
      in if q = [] then ''.'' else q)"

fun filepath_Join :: "gostring list \<Rightarrow> gostring" where
  "filepath_Join [] = []"
| "filepath_Join (e # es) = (if e = [] then filepath_Join es else filepath_Clean (Join (e # es) ''/''))"

section \<open>The file tree\<close>

record regular_file =
  perm :: u32
  owner :: int
  content :: bytes

datatype node = Directory | Regular regular_file | Special

record os_state =
  nodes :: "gostring \<rightharpoonup> node"
  open_fault :: "gostring \<rightharpoonup> goerr"
  write_fault :: "gostring \<rightharpoonup> nat \<times> goerr"
  mkdir_fault :: "gostring \<rightharpoonup> goerr"
  uid :: int
  umask :: u32

definition ENOENT :: goerr where "ENOENT = OsErr ''no such file or directory''"
definition ENOTDIR :: goerr where "ENOTDIR = OsErr ''not a directory''"
definition EISDIR :: goerr where "EISDIR = OsErr ''is a directory''"
definition EEXIST :: goerr where "EEXIST = OsErr ''file exists''"

definition node_at :: "os_state \<Rightarrow> gostring \<Rightarrow> node option" where
  "node_at s p = (if p = [] then None else nodes s (filepath_Clean p))"

definition os_Stat :: "os_state \<Rightarrow> gostring \<Rightarrow> node res" where
  "os_Stat s p = (case node_at s p of None \<Rightarrow> Inl (Wrapf (''stat '' @ p @ '': '') ENOENT) | Some n \<Rightarrow> Inr n)"

definition os_ReadFile :: "os_state \<Rightarrow> gostring \<Rightarrow> bytes res" where
  "os_ReadFile s p =
     (case node_at s p of
        None \<Rightarrow> Inl (Wrapf (''open '' @ p @ '': '') ENOENT)
      | Some n \<Rightarrow>
          (case open_fault s (filepath_Clean p) of
             Some e \<Rightarrow> Inl (Wrapf (''open '' @ p @ '': '') e)
           | None \<Rightarrow> (case n of Regular f \<Rightarrow> Inr (content f)
                               | Directory \<Rightarrow> Inl (Wrapf (''read '' @ p @ '': '') EISDIR)
                               | Special \<Rightarrow> Inl (Wrapf (''read '' @ p @ '': '') (OsErr ''special file'')))))"

text \<open>The parent of a path as \<^verbatim>\<open>os.MkdirAll\<close> cuts it, with its trailing separator.\<close>

definition parent_path :: "gostring \<Rightarrow> gostring" where
  "parent_path p =
     rev (dropWhile (\<lambda>c. c \<noteq> CHR ''/'') (dropWhile (\<lambda>c. c = CHR ''/'') (rev p)))"

text \<open>
  \<^verbatim>\<open>os.WriteFile\<close> opens with \<^verbatim>\<open>O_WRONLY|O_CREATE|O_TRUNC\<close>: an existing file keeps its mode
  and owner, a new one gets the mode less the umask; a write that fails leaves the bytes
  written before the failure.
\<close>

definition parent_ok :: "os_state \<Rightarrow> gostring \<Rightarrow> bool" where
  "parent_ok s p = (parent_path p = [] \<or> node_at s (parent_path p) = Some Directory)"

definition store_file :: "os_state \<Rightarrow> gostring \<Rightarrow> regular_file \<Rightarrow> bytes \<Rightarrow> goerr option \<times> os_state" where
  "store_file s p f data =
     (case write_fault s (filepath_Clean p) of
        None \<Rightarrow> (None, s\<lparr>nodes := (nodes s)(filepath_Clean p \<mapsto> Regular (f\<lparr>content := data\<rparr>))\<rparr>)
      | Some (k, e) \<Rightarrow>
          (Some (Wrapf (''write '' @ p @ '': '') e),
           s\<lparr>nodes := (nodes s)(filepath_Clean p \<mapsto> Regular (f\<lparr>content := take k data\<rparr>))\<rparr>))"

definition os_WriteFile :: "os_state \<Rightarrow> gostring \<Rightarrow> bytes \<Rightarrow> u32 \<Rightarrow> goerr option \<times> os_state" where
  "os_WriteFile s p data mode =
     (case open_fault s (filepath_Clean p) of
        Some e \<Rightarrow> (Some (Wrapf (''open '' @ p @ '': '') e), s)
      | None \<Rightarrow>
          (case node_at s p of
             Some (Regular f) \<Rightarrow> store_file s p f data
           | Some Directory \<Rightarrow> (Some (Wrapf (''open '' @ p @ '': '') EISDIR), s)
           | Some Special \<Rightarrow> (None, s)
           | None \<Rightarrow>
               if p = [] \<or> \<not> parent_ok s p then (Some (Wrapf (''open '' @ p @ '': '') ENOENT), s)
               else store_file s p \<lparr>perm = mode AND NOT (umask s), owner = uid s, content = []\<rparr> data))"

definition os_Mkdir :: "os_state \<Rightarrow> gostring \<Rightarrow> goerr option \<times> os_state" where
  "os_Mkdir s p =
     (case mkdir_fault s (filepath_Clean p) of
        Some e \<Rightarrow> (Some (Wrapf (''mkdir '' @ p @ '': '') e), s)
      | None \<Rightarrow>
          if p = [] \<or> \<not> parent_ok s p then (Some (Wrapf (''mkdir '' @ p @ '': '') ENOENT), s)
          else if node_at s p \<noteq> None then (Some (Wrapf (''mkdir '' @ p @ '': '') EEXIST), s)
          else (None, s\<lparr>nodes := (nodes s)(filepath_Clean p \<mapsto> Directory)\<rparr>))"

lemma length_parent_path: "parent_path p \<noteq> [] \<Longrightarrow> length (parent_path p) < length p"
proof -
  assume ne: "parent_path p \<noteq> []"
  define q where "q = dropWhile (\<lambda>c. c = CHR ''/'') (rev p)"
  have "q \<noteq> []"
    using ne unfolding parent_path_def q_def [symmetric] by auto
  then obtain c r where q: "q = c # r" by (cases q) auto
  have "hd q \<noteq> CHR ''/''"
    unfolding q_def by (rule hd_dropWhile) (use q q_def in simp)
  then have "length (dropWhile (\<lambda>c. c \<noteq> CHR ''/'') q) < length q"
    using length_dropWhile_le [of "\<lambda>c. c \<noteq> CHR ''/''" r] by (simp add: q)
  also have "length q \<le> length p"
    using length_dropWhile_le [of _ "rev p"] by (simp add: q_def)
  finally show ?thesis
    unfolding parent_path_def q_def [symmetric] by simp
qed

function os_MkdirAll :: "os_state \<Rightarrow> gostring \<Rightarrow> goerr option \<times> os_state" where
  "os_MkdirAll s p =
     (case os_Stat s p of
        Inr Directory \<Rightarrow> (None, s)
      | Inr _ \<Rightarrow> (Some (Wrapf (''mkdir '' @ p @ '': '') ENOTDIR), s)
      | Inl _ \<Rightarrow>
          (case (if parent_path p = [] then (None, s) else os_MkdirAll s (parent_path p)) of
             (Some e, s1) \<Rightarrow> (Some e, s1)
           | (None, s1) \<Rightarrow>
               (case os_Mkdir s1 p of
                  (None, s2) \<Rightarrow> (None, s2)
                | (Some e, s2) \<Rightarrow>
                    if os_Stat s2 p = Inr Directory then (None, s2) else (Some e, s2))))"
  by pat_completeness auto
termination
  by (relation "measure (\<lambda>(s, p). length p)") (auto simp: length_parent_path)

declare os_MkdirAll.simps [simp del]

section \<open>Lemmas\<close>

text \<open>What the operations leave of the state: only nodes change, and only by addition.\<close>

definition same_env :: "os_state \<Rightarrow> os_state \<Rightarrow> bool" where
  "same_env s t \<longleftrightarrow> open_fault s = open_fault t \<and> write_fault s = write_fault t \<and>
     mkdir_fault s = mkdir_fault t \<and> uid s = uid t \<and> umask s = umask t"

lemma same_env_refl [simp]: "same_env s s"
  by (simp add: same_env_def)

lemma same_env_trans: "same_env s t \<Longrightarrow> same_env t u \<Longrightarrow> same_env s u"
  by (simp add: same_env_def)

lemma os_Mkdir_extends:
  assumes "os_Mkdir s p = (r, s')"
  shows "same_env s s' \<and> (nodes s \<subseteq>\<^sub>m nodes s') \<and> (\<forall>q. nodes s' q \<noteq> nodes s q \<longrightarrow> nodes s' q = Some Directory)"
  using assms by (auto simp: os_Mkdir_def same_env_def map_le_def node_at_def split: option.splits if_splits)

lemma os_MkdirAll_extends:
  "os_MkdirAll s p = (r, s') \<Longrightarrow>
     same_env s s' \<and> (nodes s \<subseteq>\<^sub>m nodes s') \<and> (\<forall>q. nodes s' q \<noteq> nodes s q \<longrightarrow> nodes s' q = Some Directory)"
proof (induction s p arbitrary: r s' rule: os_MkdirAll.induct)
  case (1 s p)
  show ?case
  proof (cases "isl (os_Stat s p)")
    case False
    with "1.prems" have "s' = s"
      by (subst (asm) os_MkdirAll.simps) (auto split: sum.splits node.splits)
    then show ?thesis by simp
  next
    case True
    then obtain e where e: "os_Stat s p = Inl e" by (auto simp: isl_def)
    obtain r1 s1 where rec: "(if parent_path p = [] then (None, s) else os_MkdirAll s (parent_path p)) = (r1, s1)"
      by (meson surj_pair)
    have one: "same_env s s1 \<and> (nodes s \<subseteq>\<^sub>m nodes s1) \<and>
               (\<forall>q. nodes s1 q \<noteq> nodes s q \<longrightarrow> nodes s1 q = Some Directory)"
      using "1.IH" [OF e] rec by (auto split: if_splits)
    obtain r2 s2 where mk: "os_Mkdir s1 p = (r2, s2)" by (meson surj_pair)
    have "s' = s1 \<or> s' = s2"
      using "1.prems" e rec mk by (subst (asm) os_MkdirAll.simps) (auto split: option.splits if_splits)
    with one os_Mkdir_extends [OF mk] show ?thesis
      by (metis map_le_trans same_env_trans)
  qed
qed

lemma os_MkdirAll_ok:
  assumes "os_MkdirAll s p = (None, s')"
  shows "os_Stat s' p = Inr Directory"
proof -
  have mk: "os_Stat t' p = Inr Directory" if "os_Mkdir t p = (None, t')" for t t'
    using that by (auto simp: os_Mkdir_def os_Stat_def node_at_def split: option.splits if_splits)
  show ?thesis
    using assms by (subst (asm) os_MkdirAll.simps)
      (auto dest: mk split: sum.splits node.splits option.splits prod.splits if_splits)
qed

text \<open>Writing a file that is not a device.\<close>

lemma os_WriteFile_ok:
  assumes "os_WriteFile s p data mode = (None, s')" and "node_at s p \<noteq> Some Special"
  shows "\<exists>f. nodes s' = (nodes s)(filepath_Clean p \<mapsto> Regular f) \<and> content f = data \<and>
     open_fault s (filepath_Clean p) = None \<and> p \<noteq> [] \<and> same_env s s' \<and> node_at s p \<noteq> Some Directory \<and>
     (case node_at s p of
        Some (Regular g) \<Rightarrow> perm f = perm g \<and> owner f = owner g
      | None \<Rightarrow> perm f = mode AND NOT (umask s) \<and> owner f = uid s
      | _ \<Rightarrow> False)"
  using assms
  by (auto simp: os_WriteFile_def store_file_def same_env_def node_at_def
      split: option.splits node.splits if_splits)

text \<open>Clean paths are fixed points of cleaning.\<close>

definition plain_name :: "gostring \<Rightarrow> bool" where
  "plain_name c \<longleftrightarrow> c \<noteq> [] \<and> c \<noteq> ''.'' \<and> c \<noteq> ''..'' \<and> CHR ''/'' \<notin> set c"

fun clean_rev :: "bool \<Rightarrow> gostring list \<Rightarrow> bool" where
  "clean_rev rooted [] = True"
| "clean_rev rooted (c # out) =
     (plain_name c \<and> clean_rev rooted out \<or> c = ''..'' \<and> \<not> rooted \<and> set out \<subseteq> {''..''})"

lemma clean_rev_dots: "set out \<subseteq> {''..''} \<Longrightarrow> clean_rev False out"
  by (induction out) auto

lemma clean_rev_suffix: "clean_rev r (a @ b) \<Longrightarrow> clean_rev r b"
  by (induction a) (auto simp: clean_rev_dots)

lemma clean_step_clean:
  "clean_rev r out \<Longrightarrow> \<forall>e \<in> set es. CHR ''/'' \<notin> set e \<Longrightarrow> clean_rev r (rev (clean_step r out es))"
  by (induction r out es rule: clean_step.induct)
     (auto simp: plain_name_def clean_rev_dots split: list.splits)

lemma clean_step_id: "clean_rev r (rev cs @ out) \<Longrightarrow> clean_step r out cs = rev out @ cs"
proof (induction cs arbitrary: out)
  case (Cons c cs)
  then have "clean_rev r (c # out)" and "clean_step r (c # out) cs = rev (c # out) @ cs"
    using clean_rev_suffix [of r "rev cs" "c # out"] by simp_all
  then show ?case
    by (cases out) (auto simp: plain_name_def)
qed simp

lemma clean_rev_no_sep: "clean_rev r out \<Longrightarrow> \<forall>e \<in> set out. e \<noteq> [] \<and> CHR ''/'' \<notin> set e"
  by (induction out) (auto simp: plain_name_def)

lemma hd_Join: "cs \<noteq> [] \<Longrightarrow> hd cs \<noteq> [] \<Longrightarrow> Join cs sep = hd (hd cs) # tl (Join cs sep)"
  by (cases "(cs, sep)" rule: Join.cases) auto

lemma filepath_Clean_normal:
  assumes "clean_rev r (rev cs)"
  shows "filepath_Clean ((if r then ''/'' else []) @ Join cs ''/'')
           = (if \<not> r \<and> cs = [] then ''.'' else (if r then ''/'' else []) @ Join cs ''/'')"
proof (cases "cs = []")
  case True
  then show ?thesis by (simp add: filepath_Clean_def HasPrefix_def Let_def)
next
  case False
  have ns: "\<forall>e \<in> set cs. e \<noteq> [] \<and> CHR ''/'' \<notin> set e"
    using clean_rev_no_sep [OF assms] by simp
  then have sp: "SplitOn CHR ''/'' (Join cs ''/'') = cs"
    using False by (intro SplitOn_Join) auto
  have st: "clean_step r [] cs = cs"
    using clean_step_id [of r cs "[]"] assms by simp
  have "hd cs \<noteq> []" and "hd (hd cs) \<noteq> CHR ''/''"
    using ns False by (metis hd_in_set)+
  with hd_Join [OF False, of "''/''"] have "\<exists>x xs. Join cs ''/'' = x # xs \<and> x \<noteq> CHR ''/''"
    by blast
  with False sp st show ?thesis
    by (auto simp: filepath_Clean_def HasPrefix_def Let_def)
qed

lemma filepath_Clean_form:
  "\<exists>r cs. clean_rev r (rev cs) \<and>
     filepath_Clean p = (if \<not> r \<and> cs = [] then ''.'' else (if r then ''/'' else []) @ Join cs ''/'')"
proof -
  let ?cs = "clean_step (HasPrefix p ''/'') [] (SplitOn CHR ''/'' p)"
  have "clean_rev (HasPrefix p ''/'') (rev ?cs)"
    by (rule clean_step_clean) (auto dest: SplitOn_no_sep)
  moreover have "Join ?cs ''/'' = [] \<longleftrightarrow> ?cs = []"
    using clean_rev_no_sep [OF calculation] by (cases "(?cs, ''/'')" rule: Join.cases) auto
  ultimately show ?thesis
    by (intro exI [of _ "HasPrefix p ''/''"] exI [of _ ?cs])
       (cases "HasPrefix p ''/''"; simp add: filepath_Clean_def Let_def)
qed

lemma filepath_Clean_idem [simp]: "filepath_Clean (filepath_Clean p) = filepath_Clean p"
proof -
  have "filepath_Clean ''.'' = ''.''"
    by (simp add: filepath_Clean_def HasPrefix_def Let_def)
  with filepath_Clean_form [of p] filepath_Clean_normal show ?thesis
    by metis
qed

text \<open>Two plain names under one directory are two paths.\<close>

lemma clean_step_snoc: "plain_name n \<Longrightarrow> clean_step r out (es @ [n]) = clean_step r out es @ [n]"
  by (induction r out es rule: clean_step.induct) (auto simp: plain_name_def split: list.splits)

lemma SplitOn_snoc: "c \<notin> set n \<Longrightarrow> SplitOn c (d @ c # n) = SplitOn c d @ [n]"
proof (induction d)
  case (Cons x d)
  then show ?case by (auto simp: SplitOn_line split: list.splits)
qed (simp add: SplitOn_line)

lemma Join_snoc: "Join (cs @ [n]) sep = (if cs = [] then n else Join cs sep @ sep @ n)"
  by (induction cs sep rule: Join.induct) auto

lemma filepath_Join_name:
  assumes "d \<noteq> []" and "plain_name n"
  shows "\<exists>p. filepath_Join [d, n] = p @ n \<and> (p = [] \<or> last p = CHR ''/'')"
proof -
  let ?cs = "clean_step (HasPrefix d ''/'') [] (SplitOn CHR ''/'' d)"
  have h: "HasPrefix (d @ CHR ''/'' # n) ''/'' = HasPrefix d ''/''"
    using assms(1) by (cases d) (auto simp: HasPrefix_def)
  have "SplitOn CHR ''/'' (d @ CHR ''/'' # n) = SplitOn CHR ''/'' d @ [n]"
    using assms(2) by (simp add: SplitOn_snoc plain_name_def)
  then have "filepath_Join [d, n] = (if HasPrefix d ''/'' then ''/'' else []) @ Join (?cs @ [n]) ''/''"
    using assms h by (simp add: filepath_Clean_def clean_step_snoc Let_def Join_snoc plain_name_def)
  then show ?thesis
    by (intro exI [of _ "(if HasPrefix d ''/'' then ''/'' else []) @ (if ?cs = [] then [] else Join ?cs ''/'' @ ''/'')"])
       (simp add: Join_snoc)
qed

end
