(* ===== verification/Keys.thy ===== *)
theory Keys
  imports GoFiles SecConn
begin

text \<open>
  The key files of \<^verbatim>\<open>util/keys.go\<close> with the Unix permission check of
  \<^verbatim>\<open>util/files_unix.go\<close>: the client's key pair (\<^verbatim>\<open>ReadKeys\<close>, \<^verbatim>\<open>CreateKeys\<close>), the server's
  list of trusted keys (\<^verbatim>\<open>ReadTrustedKeys\<close>) and the GnuPG key grip. The trusted keys are
  shown to be a key store in the sense the authenticated connection needs.
\<close>

section \<open>Operations\<close>

definition ZeroBytes :: "bytes \<Rightarrow> bytes" where
  "ZeroBytes b = replicate (length b) 0"

text \<open>\<^verbatim>\<open>copy\<close> into a fresh fixed-size array.\<close>

definition copy_array :: "nat \<Rightarrow> bytes \<Rightarrow> bytes" where
  "copy_array n b = take n b @ replicate (n - length b) 0"

fun oct_itoa :: "nat \<Rightarrow> gostring" where
  "oct_itoa n = (if n < 8 then [digit_char n] else oct_itoa (n div 8) @ [digit_char (n mod 8)])"

declare oct_itoa.simps [simp del]

definition checkPermissions :: "os_state \<Rightarrow> gostring \<Rightarrow> bool \<Rightarrow> goerr option" where
  "checkPermissions s fname readOK =
     (case os_Stat s fname of
        Inr (Regular fi) \<Rightarrow>
          if \<not> readOK \<and> owner fi = uid s \<and> perm fi AND 0x3F \<noteq> 0
          then Some (Errorf (''bad permissions '' @ oct_itoa (unat (perm fi)) @ '' for file '' @ fname))
          else None
      | _ \<Rightarrow> Some (Errorf (''not a regular file '' @ fname)))"

definition ReadKeys ::
    "(os_state \<Rightarrow> gostring \<Rightarrow> bool \<Rightarrow> goerr option) \<Rightarrow> os_state \<Rightarrow> gostring \<Rightarrow> (bytes \<times> bytes) res" where
  "ReadKeys check s home =
     (let kd = filepath_Join [home, ''.gclpr'']
      in case os_Stat s kd of
           Inl err \<Rightarrow> Inl err
         | Inr fi \<Rightarrow>
             if fi \<noteq> Directory then Inl (Errorf (kd @ '' exists and is not a directory''))
             else (let fn = filepath_Join [kd, ''key.pub''] in
               case check s fn True of
                 Some err \<Rightarrow> Inl (Wrapf ''public key file permissions are too open: '' err)
               | None \<Rightarrow>
               (case os_ReadFile s fn of
                 Inl err \<Rightarrow> Inl (Wrapf ''unable to read public key: '' err)
               | Inr pubkey \<Rightarrow>
               if length pubkey \<noteq> 32
               then Inl (Errorf (''bad public key size '' @ nat_itoa (length pubkey)))
               else (let fn = filepath_Join [kd, ''key''] in
               case check s fn False of
                 Some err \<Rightarrow> Inl (Wrapf ''private key file permissions are too open: '' err)
               | None \<Rightarrow>
               (case os_ReadFile s fn of
                 Inl err \<Rightarrow> Inl (Wrapf ''unable to read private key: '' err)
               | Inr key \<Rightarrow>
               if length key \<noteq> 64
               then Inl (Errorf (''bad private key size '' @ nat_itoa (length key)))
               else Inr (copy_array 32 pubkey, copy_array 64 key))))))"

text \<open>
  The modes 0644 and 0600 and the mask 077 are written in hexadecimal here.
  \<open>gen\<close> is the result of \<^verbatim>\<open>ed25519.GenerateKey(rand.Reader)\<close>; \<^verbatim>\<open>sign.GenerateKey\<close> copies
  it into arrays of 32 and 64 bytes.
\<close>

definition sign_GenerateKey :: "(bytes \<times> bytes) res \<Rightarrow> (bytes \<times> bytes) res" where
  "sign_GenerateKey gen =
     (case gen of Inl err \<Rightarrow> Inl err
      | Inr (pub, priv) \<Rightarrow> Inr (copy_array 32 pub, copy_array 64 priv))"

definition CreateKeys :: "(bytes \<times> bytes) res \<Rightarrow> os_state \<Rightarrow> gostring \<Rightarrow> (bytes \<times> bytes) res \<times> os_state" where
  "CreateKeys gen s home =
     (let kd = filepath_Join [home, ''.gclpr'']
      in case os_MkdirAll s kd of
           (Some err, s1) \<Rightarrow> (Inl (Wrapf (''cannot create keys directory '' @ kd @ '': '') err), s1)
         | (None, s1) \<Rightarrow>
             (case sign_GenerateKey gen of
                Inl err \<Rightarrow> (Inl (Wrapf ''cannot generate keys: '' err), s1)
              | Inr (pk, k) \<Rightarrow>
                  (case os_WriteFile s1 (filepath_Join [kd, ''key.pub'']) pk 0x1A4 of
                     (Some err, s2) \<Rightarrow> (Inl (Wrapf ''unable to save public key: '' err), s2)
                   | (None, s2) \<Rightarrow>
                       (case os_WriteFile s2 (filepath_Join [kd, ''key'']) k 0x180 of
                          (Some err, s3) \<Rightarrow> (Inl (Wrapf ''unable to save private key: '' err), s3)
                        | (None, s3) \<Rightarrow> (Inr (pk, k), s3)))))"

text \<open>One line of the trusted keys file; a key listed twice is stored again.\<close>

definition trusted_line :: "(bytes \<rightharpoonup> bytes) \<Rightarrow> gostring \<Rightarrow> (bytes \<rightharpoonup> bytes)" where
  "trusted_line res line =
     (let b = TrimSpace line
      in if b = [] \<or> hd b = CHR ''#'' then res
         else if length b div 2 \<noteq> 32 then res
         else (case hex_Decode b of
                 (_, Some err) \<Rightarrow> res
               | (dst, None) \<Rightarrow>
                   if length dst \<noteq> 32 then res
                   else res(sha256_Sum256 dst \<mapsto> copy_array 32 dst)))"

abbreviation LF :: char where "LF \<equiv> char_of (10 :: nat)"
abbreviation CR :: char where "CR \<equiv> char_of (13 :: nat)"

definition file_lines :: "bytes \<Rightarrow> gostring list" where
  "file_lines cont = SplitOn LF (ReplaceAll (string_of cont) [CR] [LF])"

definition trusted_keys :: "bytes \<Rightarrow> (bytes \<rightharpoonup> bytes)" where
  "trusted_keys cont = foldl trusted_line Map.empty (file_lines cont)"

definition ReadTrustedKeys ::
    "(os_state \<Rightarrow> gostring \<Rightarrow> bool \<Rightarrow> goerr option) \<Rightarrow> os_state \<Rightarrow> gostring \<Rightarrow> (bytes \<rightharpoonup> bytes) res" where
  "ReadTrustedKeys check s home =
     (let kd = filepath_Join [home, ''.gclpr'']
      in case os_Stat s kd of
           Inl err \<Rightarrow> Inl err
         | Inr fi \<Rightarrow>
             if fi \<noteq> Directory then Inl (Errorf (kd @ '' exists and is not a directory''))
             else (let fn = filepath_Join [kd, ''trusted''] in
               case check s fn True of
                 Some err \<Rightarrow> Inl (Wrapf ''trusted keys file permissions are too open: '' err)
               | None \<Rightarrow>
               (case os_ReadFile s fn of
                 Inl err \<Rightarrow> Inl (Wrapf ''unable to read public key: '' err)
               | Inr cont \<Rightarrow> Inr (trusted_keys cont))))"

section \<open>The key grip\<close>

definition ed25519_p :: gostring where
  "ed25519_p = ''7FFFFFFFFFFFFFFFFFFFFFFFFFFFFFFFFFFFFFFFFFFFFFFFFFFFFFFFFFFFFFED''"

definition ed25519_b :: gostring where
  "ed25519_b = ''2DFC9311D490018C7338BF8688861767FF8FF5B2BEBE27548A14B235ECA6874A''"

definition ed25519_g :: gostring where
  "ed25519_g = ''04216936D3CD6E53FEC0A4E231FDD6DC5C692CC7609525A7B2C9562D608F25D51A6666666666666666666666666666666666666666666666666666666666666658''"

definition ed25519_n :: gostring where
  "ed25519_n = ''1000000000000000000000000000000014DEF9DEA2F79CD65812631A5CF5D3ED''"

text \<open>
  The copying loop runs \<open>i\<close> from \<^verbatim>\<open>max(0, size-len(data))\<close> to \<^verbatim>\<open>size\<close> and \<open>j\<close> from 0; \<open>j\<close>
  stays below \<^verbatim>\<open>len(data)\<close>, so the index never panics.
\<close>

definition bignum2bytes :: "gostring \<Rightarrow> nat \<Rightarrow> bytes option" where
  "bignum2bytes num sz =
     (case hex_DecodeString num of
        Inl err \<Rightarrow> None
      | Inr data \<Rightarrow>
          let i0 = sz - length data
          in Some (map (\<lambda>i. if i < i0 then 0 else data ! (i - i0)) [0..<sz]))"

record part =
  name :: gostring
  val :: bytes

definition sexp :: "part \<Rightarrow> bytes" where
  "sexp p = bytes_of (''('' @ nat_itoa (length (name p)) @ '':'' @ name p @ nat_itoa (length (val p)) @ '':'')
              @ val p @ bytes_of '')''"

definition compute :: "part list \<Rightarrow> bytes" where
  "compute parts = sha1_Sum (concat (map sexp parts))"

definition GPGKeyGripED25519 :: "bytes \<Rightarrow> bytes option" where
  "GPGKeyGripED25519 pk =
     (case (bignum2bytes ed25519_p 32, bignum2bytes ed25519_b 32, bignum2bytes ed25519_g 65,
            bignum2bytes ed25519_n 32) of
        (Some p, Some b, Some g, Some n) \<Rightarrow>
          Some (compute [\<lparr>name = ''p'', val = p\<rparr>, \<lparr>name = ''a'', val = [1]\<rparr>, \<lparr>name = ''b'', val = b\<rparr>,
                         \<lparr>name = ''g'', val = g\<rparr>, \<lparr>name = ''n'', val = n\<rparr>, \<lparr>name = ''q'', val = pk\<rparr>])
      | _ \<Rightarrow> None)"

section \<open>Trusted keys\<close>

text \<open>The key a line of the file lists, if it lists one.\<close>

definition listed_key :: "gostring \<Rightarrow> bytes option" where
  "listed_key line =
     (let b = TrimSpace line
      in if b = [] \<or> hd b = CHR ''#'' then None
         else (case hex_DecodeString b of Inr k \<Rightarrow> if length k = 32 then Some k else None | Inl _ \<Rightarrow> None))"

lemma copy_array_exact [simp]: "length b = n \<Longrightarrow> copy_array n b = b"
  by (simp add: copy_array_def)

lemma length_copy_array [simp]: "length (copy_array n b) = n"
  by (simp add: copy_array_def)

lemma trusted_line_listed:
  "trusted_line res line = (case listed_key line of None \<Rightarrow> res | Some k \<Rightarrow> res(sha256_Sum256 k \<mapsto> k))"
proof -
  have "length b div 2 = 32" if "hex_Decode b = (k, None)" "length k = 32" for b k
    using hex_Decode_length [OF that(1)] that(2) by simp
  then show ?thesis
    by (auto simp: trusted_line_def listed_key_def hex_DecodeString_def Let_def
        split: prod.splits option.splits)
qed

lemma foldl_trusted_line_Some:
  assumes "foldl trusted_line res ls h = Some k"
  shows "res h = Some k \<or> (h = sha256_Sum256 k \<and> Some k \<in> listed_key ` set ls)"
  using assms
proof (induction ls arbitrary: res)
  case (Cons l ls)
  then have "foldl trusted_line (trusted_line res l) ls h = Some k" by simp
  from Cons.IH [OF this] show ?case
    by (auto simp: trusted_line_listed image_iff split: option.splits if_splits)
qed simp

lemma foldl_trusted_line_dom:
  "dom (foldl trusted_line res ls) = dom res \<union> {sha256_Sum256 k |k. Some k \<in> listed_key ` set ls}"
proof (induction ls arbitrary: res)
  case (Cons l ls)
  show ?case
    unfolding foldl_Cons Cons.IH by (auto simp: trusted_line_listed image_iff split: option.splits)
qed auto

lemma trusted_keys_Some:
  "trusted_keys cont h = Some k \<Longrightarrow> h = sha256_Sum256 k \<and> Some k \<in> listed_key ` set (file_lines cont)"
  using foldl_trusted_line_Some [of Map.empty "file_lines cont" h k] by (simp add: trusted_keys_def)

lemma listed_key_length: "listed_key l = Some k \<Longrightarrow> length k = 32"
  by (auto simp: listed_key_def Let_def split: if_splits sum.splits)

text \<open>The store the server authenticates against.\<close>

interpretation trusted: key_store trusted_keys
proof
  fix cont h k assume "trusted_keys cont h = Some k"
  from trusted_keys_Some [OF this] show "h = sha256_Sum256 k" and "length k = 32"
    by (auto dest: listed_key_length [OF sym])
qed

section \<open>Key files\<close>

lemma plain_names [simp]: "plain_name ''.gclpr''" "plain_name ''key.pub''" "plain_name ''key''" "plain_name ''trusted''"
  by (simp_all add: plain_name_def)

lemma filepath_Clean_not_Nil [simp]: "filepath_Clean p \<noteq> []"
  by (simp add: filepath_Clean_def Let_def)

lemma filepath_Join_clean [simp]:
  assumes "n \<noteq> []"
  shows "filepath_Clean (filepath_Join [d, n]) = filepath_Join [d, n]" and "filepath_Join [d, n] \<noteq> []"
  using assms by auto

lemma key_paths_differ:
  assumes "kd \<noteq> []"
  shows "filepath_Join [kd, ''key.pub''] \<noteq> filepath_Join [kd, ''key'']"
proof -
  obtain p q where "filepath_Join [kd, ''key.pub''] = p @ ''key.pub''" "filepath_Join [kd, ''key''] = q @ ''key''"
    using filepath_Join_name [OF assms] by (metis plain_names(2,3))
  moreover have "last (p @ ''key.pub'') \<noteq> last (q @ ''key'')"
    by simp
  ultimately show ?thesis by metis
qed

lemma CreateKeys_ok:
  fixes home
  defines "kd \<equiv> filepath_Join [home, ''.gclpr'']"
  defines "fpub \<equiv> filepath_Join [kd, ''key.pub'']" and "fkey \<equiv> filepath_Join [kd, ''key'']"
  assumes c: "CreateKeys gen s home = (Inr (pk, k), s')"
    and sp: "node_at s fpub \<noteq> Some Special" "node_at s fkey \<noteq> Some Special"
  shows "\<exists>f g. node_at s' kd = Some Directory \<and> node_at s' fpub = Some (Regular f) \<and> content f = pk \<and>
     node_at s' fkey = Some (Regular g) \<and> content g = k \<and>
     open_fault s' fpub = None \<and> open_fault s' fkey = None \<and> length pk = 32 \<and> length k = 64 \<and> uid s' = uid s \<and>
     (case node_at s fkey of
        Some (Regular h) \<Rightarrow> perm g = perm h \<and> owner g = owner h
      | None \<Rightarrow> perm g = 0x180 AND NOT (umask s) \<and> owner g = uid s
      | _ \<Rightarrow> False)"
proof -
  have ne: "kd \<noteq> []" "fpub \<noteq> []" "fkey \<noteq> []" "fpub \<noteq> fkey"
    and cl: "filepath_Clean kd = kd" "filepath_Clean fpub = fpub" "filepath_Clean fkey = fkey"
    unfolding fpub_def fkey_def kd_def by (simp_all add: key_paths_differ del: filepath_Join.simps(2))
  note [simp] = ne cl
  from c obtain s1 s2 where mk: "os_MkdirAll s kd = (None, s1)"
    and w1: "os_WriteFile s1 fpub pk 0x1A4 = (None, s2)" and w2: "os_WriteFile s2 fkey k 0x180 = (None, s')"
    and len: "length pk = 32" "length k = 64"
    unfolding fpub_def fkey_def kd_def
    by (auto simp: CreateKeys_def sign_GenerateKey_def Let_def simp del: filepath_Join.simps(2)
        split: prod.splits option.splits sum.splits)
  note mx = os_MkdirAll_extends [OF mk]
  have s1: "node_at s1 q = node_at s q \<or> node_at s1 q = Some Directory" for q
    using mx by (auto simp: node_at_def)
  have "node_at s1 fpub \<noteq> Some Special"
    using s1 [of fpub] sp by auto
  from os_WriteFile_ok [OF w1 this] obtain f where f: "nodes s2 = (nodes s1)(fpub \<mapsto> Regular f)" "content f = pk"
      "open_fault s1 fpub = None" "same_env s1 s2" "node_at s1 fpub \<noteq> Some Directory"
    by auto
  have n2: "node_at s2 fkey = node_at s1 fkey"
    using f ne [symmetric] by (simp add: node_at_def)
  moreover have "node_at s1 fkey \<noteq> Some Special"
    using s1 [of fkey] sp by auto
  ultimately obtain g where g: "nodes s' = (nodes s2)(fkey \<mapsto> Regular g)" "content g = k"
      "open_fault s2 fkey = None" "same_env s2 s'"
      "(case node_at s1 fkey of
        Some (Regular h) \<Rightarrow> perm g = perm h \<and> owner g = owner h
      | None \<Rightarrow> perm g = 0x180 AND NOT (umask s2) \<and> owner g = uid s2
      | _ \<Rightarrow> False)"
    using os_WriteFile_ok [OF w2] by auto
  have env: "same_env s s'" "umask s2 = umask s" "uid s2 = uid s"
    using mx f g by (auto simp: same_env_def)
  from g(5) have k1: "node_at s1 fkey \<noteq> Some Directory" by auto
  note g(5) [unfolded env(2,3)]
  moreover from k1 have "node_at s1 fkey = node_at s fkey" using s1 [of fkey] by auto
  moreover have "nodes s1 kd = Some Directory"
    using os_MkdirAll_ok [OF mk] by (auto simp: os_Stat_def node_at_def split: option.splits if_splits)
  moreover from this f k1 have "kd \<noteq> fpub" "kd \<noteq> fkey" by (auto simp: node_at_def)
  ultimately show ?thesis
    using f g env len by - (rule exI [of _ f], rule exI [of _ g], auto simp: node_at_def same_env_def)
qed

lemma CreateKeys_readable:
  assumes "CreateKeys gen s home = (Inr (pk, k), s')"
    and "node_at s (filepath_Join [filepath_Join [home, ''.gclpr''], ''key.pub'']) \<noteq> Some Special"
    and "case node_at s (filepath_Join [filepath_Join [home, ''.gclpr''], ''key'']) of
           Some (Regular f) \<Rightarrow> owner f \<noteq> uid s \<or> perm f AND 0x3F = 0
         | Some Special \<Rightarrow> False | _ \<Rightarrow> True"
  shows "ReadKeys checkPermissions s' home = Inr (pk, k)"
proof -
  define kd fpub fkey where p: "kd = filepath_Join [home, ''.gclpr'']"
    "fpub = filepath_Join [kd, ''key.pub'']" "fkey = filepath_Join [kd, ''key'']"
  have cl: "filepath_Clean fpub = fpub" "filepath_Clean fkey = fkey"
    unfolding p by (simp_all del: filepath_Join.simps(2))
  have sp: "node_at s fkey \<noteq> Some Special"
    using assms(3) unfolding p by auto
  from CreateKeys_ok [OF assms(1,2) sp [unfolded p]] obtain f g
    where d: "node_at s' kd = Some Directory" and f: "node_at s' fpub = Some (Regular f)" "content f = pk"
      and g: "node_at s' fkey = Some (Regular g)" "content g = k"
      and o: "open_fault s' fpub = None" "open_fault s' fkey = None"
      and l: "length pk = 32" "length k = 64" "uid s' = uid s"
      and old: "case node_at s fkey of
         Some (Regular h) \<Rightarrow> perm g = perm h \<and> owner g = owner h
       | None \<Rightarrow> perm g = 0x180 AND NOT (umask s) \<and> owner g = uid s | _ \<Rightarrow> False"
    unfolding p [symmetric] by blast
  have "(0x180 AND NOT m) AND 0x3F = (0 :: u32)" for m
    by (simp add: and.assoc and.left_commute)
  then have "owner g \<noteq> uid s \<or> perm g AND 0x3F = 0"
    using old assms(3) unfolding p [symmetric] by (auto split: option.splits node.splits)
  then show ?thesis
    unfolding ReadKeys_def Let_def p [symmetric]
    using d f g o l cl by (simp add: checkPermissions_def os_Stat_def os_ReadFile_def)
qed

section \<open>Properties\<close>

text \<open>
  A key pair saved by \<^verbatim>\<open>CreateKeys\<close> is what \<^verbatim>\<open>ReadKeys\<close> returns from the same home
  directory, whatever the umask, unless a private key file already there is owned by the
  user and open to group or others (or one of the names is a device).
\<close>

theorem CreateKeys_ReadKeys:
  assumes "CreateKeys gen s home = (Inr (pk, k), s')"
    and "node_at s (filepath_Join [filepath_Join [home, ''.gclpr''], ''key.pub'']) \<noteq> Some Special"
    and "case node_at s (filepath_Join [filepath_Join [home, ''.gclpr''], ''key'']) of
           Some (Regular f) \<Rightarrow> owner f \<noteq> uid s \<or> perm f AND 0x3F = 0
         | Some Special \<Rightarrow> False | _ \<Rightarrow> True"
  shows "ReadKeys checkPermissions s' home = Inr (pk, k)"
  using assms by (rule CreateKeys_readable)

definition example_os :: "node option \<Rightarrow> os_state" where
  "example_os key =
     \<lparr>nodes = (\<lambda>p. if p = ''/'' \<or> p = ''/h'' \<or> p = ''/h/.gclpr'' then Some Directory
                  else if p = ''/h/.gclpr/key'' then key else None),
      open_fault = Map.empty, write_fault = Map.empty, mkdir_fault = Map.empty, uid = 1000, umask = 0x12\<rparr>"

theorem CreateKeys_ReadKeys_witness:
  "ReadKeys checkPermissions (snd (CreateKeys (Inr (replicate 32 1, replicate 64 2)) (example_os None) ''/h'')) ''/h''
     = Inr (replicate 32 1, replicate 64 2)"
proof -
  let ?c = "CreateKeys (Inr (replicate 32 1, replicate 64 2)) (example_os None) ''/h''"
  have "fst ?c = Inr (replicate 32 1, replicate 64 2)"
    by code_simp
  then have "?c = (Inr (replicate 32 1, replicate 64 2), snd ?c)"
    by (metis prod.collapse)
  from CreateKeys_ReadKeys [OF this] show ?thesis
    by (simp add: example_os_def node_at_def filepath_Clean_def HasPrefix_def Let_def)
qed

text \<open>
  A private key file that already exists keeps its mode when \<^verbatim>\<open>CreateKeys\<close> overwrites
  it: if the user's old file was open to group or others, the new private key is stored
  just as open, and \<^verbatim>\<open>ReadKeys\<close> refuses it.
\<close>

theorem CreateKeys_keeps_mode:
  fixes home
  defines "fkey \<equiv> filepath_Join [filepath_Join [home, ''.gclpr''], ''key'']"
  assumes "CreateKeys gen s home = (Inr (pk, k), s')"
    and "node_at s (filepath_Join [filepath_Join [home, ''.gclpr''], ''key.pub'']) \<noteq> Some Special"
    and "node_at s fkey = Some (Regular f)" and "owner f = uid s" and "perm f AND 0x3F \<noteq> 0"
  shows "node_at s' fkey = Some (Regular (f\<lparr>content := k\<rparr>)) \<and>
     ReadKeys checkPermissions s' home =
       Inl (Wrapf ''private key file permissions are too open: ''
              (Errorf (''bad permissions '' @ oct_itoa (unat (perm f)) @ '' for file '' @ fkey)))"
proof -
  define kd fpub where p: "kd = filepath_Join [home, ''.gclpr'']" "fpub = filepath_Join [kd, ''key.pub'']"
  have k: "fkey = filepath_Join [kd, ''key'']" by (simp only: fkey_def p)
  have cl: "filepath_Clean fpub = fpub" "filepath_Clean fkey = fkey"
    unfolding p k by (simp_all del: filepath_Join.simps(2))
  have sp: "node_at s fkey \<noteq> Some Special"
    using assms(4) by simp
  from CreateKeys_ok [OF assms(2,3) sp [unfolded fkey_def]] obtain f' g
    where d: "node_at s' kd = Some Directory" and f: "node_at s' fpub = Some (Regular f')" "content f' = pk"
      and g: "node_at s' fkey = Some (Regular g)" "content g = k"
      and o: "open_fault s' fpub = None" and l: "length pk = 32" "uid s' = uid s"
      and pg: "perm g = perm f" "owner g = owner f"
    unfolding p [symmetric] k [symmetric] using assms(4) by auto
  from g pg have "g = f\<lparr>content := k\<rparr>" by (cases g; cases f) simp
  with d f g o l cl assms(5,6) show ?thesis
    unfolding ReadKeys_def Let_def p [symmetric] k [symmetric]
    by (simp add: checkPermissions_def os_Stat_def os_ReadFile_def)
qed

theorem CreateKeys_keeps_mode_witness:
  "\<exists>e. ReadKeys checkPermissions
      (snd (CreateKeys (Inr (replicate 32 1, replicate 64 2))
         (example_os (Some (Regular \<lparr>perm = 0x1A4, owner = 1000, content = []\<rparr>))) ''/h'')) ''/h'' = Inl e"
proof -
  let ?s = "example_os (Some (Regular \<lparr>perm = 0x1A4, owner = 1000, content = []\<rparr>))"
  let ?c = "CreateKeys (Inr (replicate 32 1, replicate 64 2)) ?s ''/h''"
  have "fst ?c = Inr (replicate 32 1, replicate 64 2)"
    by code_simp
  then have "?c = (Inr (replicate 32 1, replicate 64 2), snd ?c)"
    by (metis prod.collapse)
  from CreateKeys_keeps_mode [OF this, of "\<lparr>perm = 0x1A4, owner = 1000, content = []\<rparr>"] show ?thesis
    by (simp add: example_os_def node_at_def filepath_Clean_def HasPrefix_def Let_def)
qed

text \<open>
  C29. The trusted keys are exactly the keys the file lists: each stored key is listed on
  some line (64 hexadecimal digits in either case between white space, not a comment) and
  is stored under its SHA-256; and the hash of every listed key is present. Lines end with
  LF, CR or both; any other line is ignored and does not make the file fail.
\<close>

theorem ReadTrustedKeys_listed:
  assumes "ReadTrustedKeys check s home = Inr keys"
  shows "\<exists>cont. os_ReadFile s (filepath_Join [filepath_Join [home, ''.gclpr''], ''trusted'']) = Inr cont \<and>
     (\<forall>h k. keys h = Some k \<longrightarrow> h = sha256_Sum256 k \<and> (\<exists>line \<in> set (file_lines cont). listed_key line = Some k)) \<and>
     (\<forall>line \<in> set (file_lines cont). \<forall>k. listed_key line = Some k \<longrightarrow> keys (sha256_Sum256 k) \<noteq> None)"
proof -
  from assms obtain cont where "os_ReadFile s (filepath_Join [filepath_Join [home, ''.gclpr''], ''trusted'']) = Inr cont"
    and keys: "keys = trusted_keys cont"
    by (auto simp: ReadTrustedKeys_def Let_def simp del: filepath_Join.simps(2)
        split: sum.splits if_splits option.splits)
  moreover have "dom keys = {sha256_Sum256 k |k. Some k \<in> listed_key ` set (file_lines cont)}"
    unfolding keys trusted_keys_def foldl_trusted_line_dom by simp
  then have "keys (sha256_Sum256 k) \<noteq> None" if "line \<in> set (file_lines cont)" "listed_key line = Some k" for line k
    using that by (metis (mono_tags, lifting) domIff imageI mem_Collect_eq)
  moreover have "h = sha256_Sum256 k \<and> (\<exists>line \<in> set (file_lines cont). listed_key line = Some k)"
    if "keys h = Some k" for h k
    using trusted_keys_Some [of cont h k] that unfolding keys by (metis imageE)
  ultimately show ?thesis by blast
qed

definition example_trusted :: "bytes \<Rightarrow> os_state" where
  "example_trusted cont =
     (example_os None)\<lparr>nodes := (nodes (example_os None))(''/h/.gclpr/trusted'' \<mapsto>
        Regular \<lparr>perm = 0x1A4, owner = 0, content = cont\<rparr>)\<rparr>"

lemma example_trusted_read:
  "os_ReadFile (example_trusted cont) (filepath_Join [filepath_Join [''/h'', ''.gclpr''], ''trusted'']) = Inr cont"
  "ReadTrustedKeys checkPermissions (example_trusted cont) ''/h'' = Inr (trusted_keys cont)"
  by (simp_all add: example_trusted_def ReadTrustedKeys_def checkPermissions_def os_Stat_def os_ReadFile_def
      example_os_def node_at_def filepath_Clean_def HasPrefix_def Let_def)

lemma listed_key_hex:
  assumes "length k = 32"
  shows "listed_key (hex_EncodeToString k) = Some k"
proof -
  let ?h = "hex_EncodeToString k"
  have ne: "?h \<noteq> []"
    using assms by (cases k) auto
  then have "hd ?h \<noteq> CHR ''#''"
    using hex_EncodeToString_chars [of "hd ?h" k] by auto
  with ne assms show ?thesis
    by (simp add: listed_key_def TrimSpace_hex Let_def)
qed

lemma file_lines_hex: "hex_EncodeToString k \<in> set (file_lines (bytes_of (l @ [LF] @ hex_EncodeToString k @ [CR, LF])))"
proof -
  have no: "c \<noteq> CR \<and> c \<noteq> LF" if "c \<in> set (hex_EncodeToString k)" for c
    using hex_EncodeToString_chars [OF that] by auto
  then have "map (\<lambda>c. if c = CR then LF else c) (hex_EncodeToString k) = hex_EncodeToString k"
    by (intro map_idI) auto
  then have "file_lines (bytes_of (l @ [LF] @ hex_EncodeToString k @ [CR, LF]))
      = SplitOn LF ((map (\<lambda>c. if c = CR then LF else c) l @ [LF]) @ hex_EncodeToString k @ [LF, LF])"
    unfolding file_lines_def by (simp add: ReplaceAll_char)
  moreover have "SplitOn LF (hex_EncodeToString k) = [hex_EncodeToString k]"
    using no by (intro SplitOn_line) blast
  ultimately show ?thesis
    by (simp add: SplitOn_append_sep)
qed

theorem ReadTrustedKeys_listed_witness:
  "\<exists>keys. ReadTrustedKeys checkPermissions
      (example_trusted (bytes_of (''# me'' @ [LF] @ hex_EncodeToString (replicate 32 0xAB) @ [CR, LF])))
      ''/h'' = Inr keys \<and> keys (sha256_Sum256 (replicate 32 0xAB)) \<noteq> None"
proof -
  let ?cont = "bytes_of (''# me'' @ [LF] @ hex_EncodeToString (replicate 32 0xAB) @ [CR, LF])"
  have "trusted_keys ?cont (sha256_Sum256 (replicate 32 0xAB)) \<noteq> None"
    using ReadTrustedKeys_listed [OF example_trusted_read(2), of ?cont]
      file_lines_hex [of "replicate 32 0xAB" "''# me''"] listed_key_hex [of "replicate 32 0xAB"]
    unfolding example_trusted_read(1) by (metis length_replicate sum.inject(2))
  with example_trusted_read(2) show ?thesis by blast
qed

text \<open>
  The Unix permission check accepts a private key file exactly when it is a regular
  file that is owned by somebody else or closed to group and others; a file that may be
  read is only required to be regular.
\<close>

theorem checkPermissions_accepts:
  "checkPermissions s fname readOK = None \<longleftrightarrow>
     (\<exists>f. os_Stat s fname = Inr (Regular f) \<and> (readOK \<or> owner f \<noteq> uid s \<or> (\<forall>i < 6. \<not> bit (perm f) i)))"
proof -
  have "w AND 0x3F = 0 \<longleftrightarrow> (\<forall>i < 6. \<not> bit w i)" for w :: u32
  proof -
    have m: "w AND 0x3F = take_bit 6 w"
      by (simp add: take_bit_eq_mask mask_eq_decr_exp)
    have "take_bit 6 w = 0 \<longleftrightarrow> (\<forall>i. \<not> bit (take_bit 6 w) i)"
      by (auto intro: bit_eqI)
    then show ?thesis
      unfolding m by (auto simp: bit_take_bit_iff)
  qed
  then show ?thesis
    by (auto simp: checkPermissions_def split: sum.splits node.splits)
qed

theorem checkPermissions_accepts_witness:
  "checkPermissions (example_os (Some (Regular \<lparr>perm = 0x180, owner = 1000, content = []\<rparr>))) ''/h/.gclpr/key'' False = None"
proof -
  define s where "s = example_os (Some (Regular \<lparr>perm = 0x180, owner = 1000, content = []\<rparr>))"
  have "os_Stat s ''/h/.gclpr/key'' = Inr (Regular \<lparr>perm = 0x180, owner = 1000, content = []\<rparr>)"
    unfolding s_def by code_simp
  moreover have "\<not> bit (0x180 :: u32) i" if "i < 6" for i
    using that by (auto simp: less_Suc_eq numeral_eq_Suc)
  ultimately show ?thesis
    unfolding checkPermissions_accepts s_def [symmetric] by force
qed

text \<open>
  \<^verbatim>\<open>bignum2bytes\<close> gives a byte string of exactly the requested size: the decoded
  number in big-endian order with zeros in front when it is short, so that its value is
  kept, and its leading bytes when it is too long.
\<close>

definition be_value :: "bytes \<Rightarrow> nat" where
  "be_value bs = foldl (\<lambda>v b. 256 * v + unat b) 0 bs"

lemma bignum2bytes_pad:
  assumes "hex_DecodeString num = Inr data"
  shows "bignum2bytes num sz = Some (replicate (sz - length data) 0 @ take sz data)"
proof -
  let ?i0 = "sz - length data"
  have "map (\<lambda>i. if i < ?i0 then 0 else data ! (i - ?i0)) [0..<sz] = replicate ?i0 0 @ take sz data"
    by (rule nth_equalityI) (auto simp: nth_append)
  with assms show ?thesis by (simp add: bignum2bytes_def Let_def)
qed

lemma be_value_zeros: "be_value (replicate n 0 @ bs) = be_value bs"
  by (induction n) (simp_all add: be_value_def)

theorem bignum2bytes_value:
  assumes "hex_DecodeString num = Inr data"
  shows "\<exists>buf. bignum2bytes num sz = Some buf \<and> length buf = sz \<and>
     (if length data \<le> sz then be_value buf = be_value data else buf = take sz data)"
  using bignum2bytes_pad [OF assms, of sz] by (auto simp: be_value_zeros)

theorem bignum2bytes_value_witness:
  "\<exists>buf. bignum2bytes ''01Ff'' 4 = Some buf \<and> length buf = 4 \<and> be_value buf = be_value [1, 255]"
proof -
  have "hex_DecodeString ''01Ff'' = Inr [1, 255]" by code_simp
  from bignum2bytes_value [OF this, of 4] show ?thesis by simp
qed

text \<open>
  The key grip of every public key is defined, has 20 bytes, and is the SHA-1 of six
  S-expressions: the curve constants at full length, in the order p, a, b, g, n, and the
  key itself as q.
\<close>

lemma ed25519_constants:
  "\<exists>d. hex_DecodeString ed25519_p = Inr d \<and> length d = 32"
  "\<exists>d. hex_DecodeString ed25519_b = Inr d \<and> length d = 32"
  "\<exists>d. hex_DecodeString ed25519_g = Inr d \<and> length d = 65"
  "\<exists>d. hex_DecodeString ed25519_n = Inr d \<and> length d = 32"
proof -
  have ex: "\<exists>d. hex_DecodeString x = Inr d \<and> length d = n"
    if "(case hex_DecodeString x of Inr d \<Rightarrow> length d = n | Inl _ \<Rightarrow> False)" for x n
    using that by (auto split: sum.splits)
  show "\<exists>d. hex_DecodeString ed25519_p = Inr d \<and> length d = 32" by (rule ex) code_simp
  show "\<exists>d. hex_DecodeString ed25519_b = Inr d \<and> length d = 32" by (rule ex) code_simp
  show "\<exists>d. hex_DecodeString ed25519_g = Inr d \<and> length d = 65" by (rule ex) code_simp
  show "\<exists>d. hex_DecodeString ed25519_n = Inr d \<and> length d = 32" by (rule ex) code_simp
qed

theorem GPGKeyGripED25519_sexp:
  "\<exists>p b g n. hex_DecodeString ed25519_p = Inr p \<and> hex_DecodeString ed25519_b = Inr b \<and>
     hex_DecodeString ed25519_g = Inr g \<and> hex_DecodeString ed25519_n = Inr n \<and>
     GPGKeyGripED25519 pk = Some (sha1_Sum
       (bytes_of ''(1:p32:'' @ p @ bytes_of '')(1:a1:'' @ [1] @ bytes_of '')(1:b32:'' @ b
        @ bytes_of '')(1:g65:'' @ g @ bytes_of '')(1:n32:'' @ n
        @ bytes_of ('')(1:q'' @ nat_itoa (length pk) @ '':'') @ pk @ bytes_of '')'')) \<and>
     map_option length (GPGKeyGripED25519 pk) = Some 20"
proof -
  obtain p b g n where d: "hex_DecodeString ed25519_p = Inr p" "hex_DecodeString ed25519_b = Inr b"
      "hex_DecodeString ed25519_g = Inr g" "hex_DecodeString ed25519_n = Inr n"
    and l: "length p = 32" "length b = 32" "length g = 65" "length n = 32"
    using ed25519_constants by blast
  have i: "nat_itoa 1 = ''1''" "nat_itoa 32 = ''32''" "nat_itoa 65 = ''65''"
    by code_simp+
  have "GPGKeyGripED25519 pk = Some (compute [\<lparr>name = ''p'', val = p\<rparr>, \<lparr>name = ''a'', val = [1]\<rparr>,
      \<lparr>name = ''b'', val = b\<rparr>, \<lparr>name = ''g'', val = g\<rparr>, \<lparr>name = ''n'', val = n\<rparr>, \<lparr>name = ''q'', val = pk\<rparr>])"
    using l by (simp add: GPGKeyGripED25519_def bignum2bytes_pad [OF d(1)] bignum2bytes_pad [OF d(2)]
        bignum2bytes_pad [OF d(3)] bignum2bytes_pad [OF d(4)])
  with d l show ?thesis
    by (simp add: compute_def sexp_def i [simplified] bytes_of_def)
qed

end
