(* ===== verification/Server.thy ===== *)
theory Server
  imports Clipboard SecConn Keys TunnelTransport
begin

text \<open>
  \<^verbatim>\<open>Serve\<close> of \<^verbatim>\<open>server/server.go\<close>: registration and listening, what becomes of an accepted
  connection (tunnel peer or signed RPC connection), and which service a request reaches.
  The encoding of requests and replies by \<^verbatim>\<open>net/rpc\<close> is not modelled: a request is a value
  here, and the bytes it travels in are any encoding that can be decoded.
\<close>

section \<open>Listening\<close>

definition DefaultPort :: int where "DefaultPort = 2850"

text \<open>
  What \<^verbatim>\<open>Serve\<close> does before it accepts: register the three services (with what \<^verbatim>\<open>rpc.Register\<close>
  returned for each), resolve \<^verbatim>\<open>localhost\<close> and the port, and listen.
\<close>

definition Serve_listen ::
    "goerr option \<Rightarrow> goerr option \<Rightarrow> goerr option \<Rightarrow> tcpaddr res \<Rightarrow> netstate \<Rightarrow> (nat \<times> tcpaddr) res \<times> netstate" where
  "Serve_listen regURI regClipboard regTunnel resolved ns =
     (case (regURI, regClipboard, regTunnel, resolved) of
        (Some err, _, _, _) \<Rightarrow> (Inl (Wrapf ''unable to register URI rpc object: '' err), ns)
      | (None, Some err, _, _) \<Rightarrow> (Inl (Wrapf ''unable to register Clipboard rpc object: '' err), ns)
      | (None, None, Some err, _) \<Rightarrow> (Inl (Wrapf ''unable to register Tunnel rpc object: '' err), ns)
      | (None, None, None, Inl err) \<Rightarrow> (Inl (Wrapf ''unable to resolve address: '' err), ns)
      | (None, None, None, Inr a) \<Rightarrow>
          (case listenTCP ns a of
             (Inl err, ns') \<Rightarrow> (Inl (Wrapf (''unable to listen on '' @ [CHR 0x27] @ tcpaddr_String a @ [CHR 0x27] @ '': '') err), ns')
           | (Inr l, ns') \<Rightarrow> (Inr l, ns')))"

text \<open>What \<^verbatim>\<open>Serve\<close> returns when \<^verbatim>\<open>Accept\<close> fails: nothing if the listener was closed by the context.\<close>

definition Serve_accept_failed :: "goerr \<Rightarrow> goerr option" where
  "Serve_accept_failed err =
     (if \<not> errors_Is err NetErrClosed then Some (Wrapf ''gclpr server is unable to accept requests: '' err) else None)"

text \<open>
  The goroutine that waits for the end of the context: it closes the listener, which breaks the
  loop, since \<^verbatim>\<open>Accept\<close> of a closed listener fails with \<open>NetErrClosed\<close>.
\<close>

definition Serve_cancel :: "bool \<Rightarrow> nat \<Rightarrow> netstate \<Rightarrow> netstate" where
  "Serve_cancel ctx_done l ns = (if ctx_done then sock_Close ns l else ns)"

section \<open>Connections\<close>

text \<open>
  One accepted connection: it is taken by the tunnel, or it becomes a \<^verbatim>\<open>secConn\<close> on which
  \<^verbatim>\<open>rpc.ServeConn\<close> runs.
\<close>

definition Serve_connection ::
    "(gostring \<Rightarrow> goerr option) \<Rightarrow> (bytes \<rightharpoonup> bytes) \<Rightarrow> bytes \<Rightarrow> int option \<Rightarrow> int \<Rightarrow> stream \<Rightarrow> sink \<Rightarrow> tunnel
     \<Rightarrow> secConn option \<times> tunnel" where
  "Serve_connection opener keys mg lock timeout inp conn t =
     (case attach opener inp conn t of
        (NotHandled rpcReader, t') \<Rightarrow>
          (Some \<lparr>br = rpcReader, conn_out = conn, read_deadline = None, write_deadline = None, conn_closed = False,
                 pkeys = keys, magic = mg, locked = lock, ioTimeout = timeout\<rparr>, t')
      | (_, t') \<Rightarrow> (None, t'))"

section \<open>Services\<close>

datatype rpc_call =
    CallOpen gostring
  | CallCopy gostring
  | CallPaste
  | CallTunnelOpen TunnelOpenRequest

datatype rpc_reply =
    ReplyNone
  | ReplyText gostring
  | ReplyTunnel TunnelOpenResponse

text \<open>What the services act on: the system's clipboard, its desktop, and the tunnels.\<close>

record ('c, 'd) host =
  clip :: 'c
  desk :: 'd
  tun :: tunnel

text \<open>The method a request names, on the objects registered by \<^verbatim>\<open>Serve\<close>.\<close>

definition dispatch ::
    "(gostring \<Rightarrow> 'c \<Rightarrow> goerr option \<times> 'c) \<Rightarrow> ('c \<Rightarrow> gostring \<times> goerr option) \<Rightarrow>
     (gostring \<Rightarrow> 'd \<Rightarrow> goerr option \<times> 'd) \<Rightarrow> gostring \<Rightarrow> gostring res \<Rightarrow> rpc_call \<Rightarrow> ('c, 'd) host
     \<Rightarrow> rpc_reply res \<times> ('c, 'd) host" where
  "dispatch WriteAll ReadAll open le newID call h =
     (case call of
        CallOpen uri \<Rightarrow>
          (case URI_Open open uri (desk h) of
             (Some err, d) \<Rightarrow> (Inl err, h\<lparr>desk := d\<rparr>)
           | (None, d) \<Rightarrow> (Inr ReplyNone, h\<lparr>desk := d\<rparr>))
      | CallCopy text \<Rightarrow>
          (case Copy WriteAll (NewClipboard le) text (clip h) of
             (Some err, c) \<Rightarrow> (Inl err, h\<lparr>clip := c\<rparr>)
           | (None, c) \<Rightarrow> (Inr ReplyNone, h\<lparr>clip := c\<rparr>))
      | CallPaste \<Rightarrow>
          (case Paste ReadAll (clip h) of
             (t, Some err) \<Rightarrow> (Inl err, h)
           | (t, None) \<Rightarrow> (Inr (ReplyText t), h))
      | CallTunnelOpen req \<Rightarrow>
          (case Tunnel_Open newID req (tun h) of
             (Inl err, t) \<Rightarrow> (Inl err, h\<lparr>tun := t\<rparr>)
           | (Inr resp, t) \<Rightarrow> (Inr (ReplyTunnel resp), h\<lparr>tun := t\<rparr>)))"

text \<open>
  A request on a connection the tunnel did not take. The codec of \<^verbatim>\<open>net/rpc\<close> buffers 4096 bytes on
  either side, so a request of at most that size is one \<^verbatim>\<open>Write\<close> of the client and one \<^verbatim>\<open>Read\<close> here;
  then comes the call, if the bytes decode to one. A connection on which \<^verbatim>\<open>Read\<close> fails reaches no
  service.
\<close>

definition rpcBufferSize :: nat where "rpcBufferSize = 4096"

definition serve_request ::
    "(bytes \<Rightarrow> bytes \<Rightarrow> bytes \<Rightarrow> bool) \<Rightarrow> (bytes \<Rightarrow> rpc_call option) \<Rightarrow>
     (rpc_call \<Rightarrow> ('c, 'd) host \<Rightarrow> rpc_reply res \<times> ('c, 'd) host) \<Rightarrow> int \<Rightarrow> secConn \<Rightarrow> ('c, 'd) host
     \<Rightarrow> rpc_reply res option \<times> ('c, 'd) host" where
  "serve_request ed_verify decode exec time sc h =
     (case fst (secConn_Read ed_verify time sc rpcBufferSize) of
        (buf, n, None) \<Rightarrow>
          (case decode buf of
             Some call \<Rightarrow> apfst Some (exec call h)
           | None \<Rightarrow> (None, h))
      | (buf, n, Some err) \<Rightarrow> (None, h))"

section \<open>A trusted file with one key\<close>

lemma file_lines_one_hex: "file_lines (bytes_of (hex_EncodeToString k)) = [hex_EncodeToString k]"
proof -
  have no: "c \<noteq> char_of (13 :: nat) \<and> c \<noteq> char_of (10 :: nat)" if "c \<in> set (hex_EncodeToString k)" for c
    using hex_EncodeToString_chars [OF that] by auto
  then have "map (\<lambda>c. if c = char_of (13 :: nat) then char_of (10 :: nat) else c) (hex_EncodeToString k) = hex_EncodeToString k"
    by (intro map_idI) auto
  moreover have "SplitOn (char_of (10 :: nat)) (hex_EncodeToString k) = [hex_EncodeToString k]"
    using no by (intro SplitOn_line) auto
  ultimately show ?thesis
    unfolding file_lines_def by (simp add: ReplaceAll_char)
qed

lemma trusted_keys_one_hex:
  assumes "length k = 32"
  shows "trusted_keys (bytes_of (hex_EncodeToString k)) = [sha256_Sum256 k \<mapsto> k]"
  unfolding trusted_keys_def file_lines_one_hex using listed_key_hex [OF assms]
  by (simp add: trusted_line_listed)

section \<open>Properties\<close>

text \<open>
  C4. Nothing reaches a service without a trusted signature: if serving a request on a new
  connection changed the clipboard, the desktop or the tunnels, or gave an answer, then the
  server was not locked and the connection started with a frame whose message carries a
  signature that verifies under a key of the trusted store, named by that key's hash.
\<close>

theorem service_needs_trusted_signature:
  assumes "Serve_connection opener (trusted_keys cont) mg lock timeout inp conn t = (Some sc, t')"
    and "6 \<le> length mg" and "serve_request ed_verify decode exec time sc h \<noteq> (None, h)"
  shows "t' = t \<and> lock \<noteq> Some 1 \<and>
     (\<exists>ver pk sig msg. fst (ReadFrame inp) = Inr (take 6 mg @ ver @ sha256_Sum256 pk @ sig @ msg) \<and>
        length ver = length mg - 6 \<and> length sig = Overhead \<and> length pk = 32 \<and>
        pk \<in> ran (trusted_keys cont) \<and> ed_verify pk msg sig)"
proof -
  obtain r where a: "attach opener inp conn t = (NotHandled r, t')"
    using assms(1) by (auto simp: Serve_connection_def split: prod.splits attach_result.splits)
  with assms(1) have sc: "br sc = r" "pkeys sc = trusted_keys cont" "magic sc = mg" "locked sc = lock"
    by (auto simp: Serve_connection_def)
  have r: "r = inp" "t' = t"
    using attach_NotHandled [OF a] by simp_all
  from assms(3) obtain buf n where rd: "fst (secConn_Read ed_verify time sc rpcBufferSize) = (buf, n, None)"
    by (auto simp: serve_request_def split: prod.splits option.splits)
  have "6 \<le> length (magic sc)" using assms(2) sc by simp
  from trusted.accepted_request [OF this sc(2) rd] secConn_Read_ok [OF this] rd sc r show ?thesis
    by blast
qed

text \<open>The bytes a trusted client writes for a call reach the service the call names.\<close>

lemma connection_serves:
  assumes "6 \<le> length mg" "length mg = length mg'" "take 6 mg = take 6 mg'" "hd mg \<noteq> tunnelFrameAttach"
    and "length hpk = 32" "keys hpk = Some pk" "length sig = 64" "ed_verify pk p sig"
    and "decode p = Some call" "p \<noteq> []" "length mg + 32 + Overhead + length p \<le> unat MaxFrameSize" "lock \<noteq> Some 1" "length p \<le> rpcBufferSize"
  shows "\<exists>sc. Serve_connection opener keys mg' lock timeout \<lparr>avail = frame_bytes (mg @ hpk @ sig @ p) @ rest, fin = e\<rparr> conn t = (Some sc, t) \<and>
     serve_request ed_verify decode exec time sc h = apfst Some (exec call h)"
proof -
  let ?br = "\<lparr>avail = frame_bytes (mg @ hpk @ sig @ p) @ rest, fin = e\<rparr>"
  let ?sc = "\<lparr>br = ?br, conn_out = conn, read_deadline = None, write_deadline = None, conn_closed = False,
                 pkeys = keys, magic = mg', locked = lock, ioTimeout = timeout\<rparr>"
  have "mg \<noteq> []" using assms(1) by auto
  then have "attach opener ?br conn t = (NotHandled ?br, t)"
    using assms by (intro attach_hands_on [OF refl]) (auto simp: Overhead_def)
  then have "Serve_connection opener keys mg' lock timeout ?br conn t = (Some ?sc, t)"
    by (simp add: Serve_connection_def)
  moreover have "fst (secConn_Read ed_verify time ?sc rpcBufferSize) = (take rpcBufferSize p, length p, None)"
    using assms by (intro secConn_Read_signed(1) [of ?sc mg hpk pk sig]) simp_all
  then have "serve_request ed_verify decode exec time ?sc h = apfst Some (exec call h)"
    using assms(9,13) by (simp add: serve_request_def)
  ultimately show ?thesis by blast
qed


text \<open>A server that trusts the one key of a client, and a call of that client.\<close>

definition example_key :: bytes where "example_key = replicate 32 0xAB"

definition example_signer :: cli_secConn where
  "example_signer = example_client\<lparr>cli_hpk := sha256_Sum256 example_key\<rparr>"

abbreviation example_enc :: "rpc_call \<Rightarrow> bytes" where
  "example_enc call \<equiv> case call of CallPaste \<Rightarrow> [1] | _ \<Rightarrow> [2]"

abbreviation example_dec :: "bytes \<Rightarrow> rpc_call option" where
  "example_dec b \<equiv> if b = [1] then Some CallPaste else None"

abbreviation fresh_sink :: sink where
  "fresh_sink \<equiv> \<lparr>written = [], room = None, werr = EOF, dead = False\<rparr>"

abbreviation example_host :: "(unit, unit) host" where
  "example_host \<equiv> \<lparr>clip = (), desk = (), tun = NewTunnel example_net 0\<rparr>"

lemma example_write:
  "cli_secConn_Write (\<lambda>k m. replicate 64 3) [103, 99, 108, 112, 114, 0, 9, 9] example_signer [1] =
     ((1, None), snd (cli_secConn_Write (\<lambda>k m. replicate 64 3) [103, 99, 108, 112, 114, 0, 9, 9] example_signer [1]))"
  by (simp add: cli_secConn_Write_def example_signer_def example_client_def sign_Sign_def Let_def WriteFrame_unbounded)

lemma example_trusted:
  "trusted_keys (bytes_of (hex_EncodeToString example_key)) (cli_hpk example_signer) = Some example_key"
  by (subst trusted_keys_one_hex) (simp_all add: example_key_def example_signer_def)


theorem service_needs_trusted_signature_witness:
  "\<exists>ver pk sig msg.
     fst (ReadFrame \<lparr>avail = frame_bytes ([103, 99, 108, 112, 114, 0, 9, 9] @ cli_hpk example_signer @ replicate 64 3 @ [1]), fin = EOF\<rparr>) =
        Inr (take 6 [103, 99, 108, 112, 114, 0, 0, 0] @ ver @ sha256_Sum256 pk @ sig @ msg) \<and>
     length ver = 2 \<and> length sig = Overhead \<and> length pk = 32 \<and>
     pk \<in> ran (trusted_keys (bytes_of (hex_EncodeToString example_key))) \<and> sig = replicate 64 3"
proof -
  let ?mg = "[103, 99, 108, 112, 114, 0, 9, 9] :: bytes" and ?mg' = "[103, 99, 108, 112, 114, 0, 0, 0] :: bytes"
  let ?ks = "trusted_keys (bytes_of (hex_EncodeToString example_key))"
  let ?v = "\<lambda>pk m s :: bytes. s = replicate 64 3"
  let ?br = "\<lparr>avail = frame_bytes (?mg @ cli_hpk example_signer @ replicate 64 3 @ [1]), fin = EOF\<rparr>"
  let ?sc = "\<lparr>br = ?br, conn_out = fresh_sink, read_deadline = None, write_deadline = None, conn_closed = False,
                 pkeys = ?ks, magic = ?mg', locked = None, ioTimeout = 0\<rparr>"
  have l: "length (cli_hpk example_signer) = 32"
    by (simp add: example_signer_def)
  have "attach (\<lambda>u. None) ?br fresh_sink (NewTunnel example_net 0) = (NotHandled ?br, NewTunnel example_net 0)"
    using l by (intro attach_hands_on [of _ "?mg @ cli_hpk example_signer @ replicate 64 3 @ [1]" "[]" EOF])
      (simp_all add: frame_type_defs)
  then have c: "Serve_connection (\<lambda>u. None) ?ks ?mg' None 0 ?br fresh_sink (NewTunnel example_net 0) = (Some ?sc, NewTunnel example_net 0)"
    by (simp add: Serve_connection_def)
  have "fst (secConn_Read ?v 0 ?sc rpcBufferSize) = (take rpcBufferSize [1], length [1 :: 8 word], None)"
    using l example_trusted
    by (intro secConn_Read_signed(1) [of ?sc ?mg "cli_hpk example_signer" example_key "replicate 64 3" ?v "[1]" "[]" EOF])
       (simp_all add: Overhead_def)
  then have "serve_request ?v example_dec (\<lambda>call h. (Inr (ReplyText ''hi''), h)) 0 ?sc example_host \<noteq> (None, example_host)"
    by (simp add: serve_request_def rpcBufferSize_def)
  from service_needs_trusted_signature [OF c _ this] obtain ver pk sig msg where
    "fst (ReadFrame ?br) = Inr (take 6 ?mg' @ ver @ sha256_Sum256 pk @ sig @ msg)" "length ver = length ?mg' - 6"
    "length sig = Overhead" "length pk = 32" "pk \<in> ran ?ks" "sig = replicate 64 3"
    by auto
  moreover from this(2) have "length ver = 2" by simp
  ultimately show ?thesis by blast
qed

end
