(* ===== verification/GoFlag.thy ===== *)
theory GoFlag
  imports GoStrings
begin

text \<open>
  What the command line uses of Go's \<^verbatim>\<open>flag\<close>, \<^verbatim>\<open>strconv\<close> and \<^verbatim>\<open>time\<close>: parsing the arguments of a
  flag set that continues on errors, and the values of boolean, integer and duration flags.
\<close>

section \<open>Values\<close>

definition ParseBool :: "gostring \<Rightarrow> bool res" where
  "ParseBool s =
     (if s \<in> {''1'', ''t'', ''T'', ''true'', ''TRUE'', ''True''} then Inr True
      else if s \<in> {''0'', ''f'', ''F'', ''false'', ''FALSE'', ''False''} then Inr False
      else Inl (Errorf ''parse error''))"

text \<open>
  \<^verbatim>\<open>strconv.ParseInt(s, 0, 64)\<close>: a sign, a base prefix and digits with underscores between
  them. The last two arguments of \<open>underscoreOK\<close> are what was seen before and whether
  hexadecimal digits count.
\<close>

fun underscoreOK :: "gostring \<Rightarrow> char \<Rightarrow> bool \<Rightarrow> bool" where
  "underscoreOK [] i hex = (i \<noteq> CHR ''_'')"
| "underscoreOK (c # s) i hex =
     (if is_digit c \<or> (hex \<and> from_hex_char c \<noteq> None) then underscoreOK s (CHR ''0'') hex
      else if c = CHR ''_'' then i = CHR ''0'' \<and> underscoreOK s (CHR ''_'') hex
      else i \<noteq> CHR ''_'' \<and> underscoreOK s (CHR ''!'') hex)"

definition int_base :: "gostring \<Rightarrow> nat \<times> gostring \<times> bool" where
  "int_base s =
     (if HasPrefix s ''0'' then
        (if length s \<ge> 3 \<and> ascii_lower (s ! 1) = CHR ''b'' then (2, drop 2 s, True)
         else if length s \<ge> 3 \<and> ascii_lower (s ! 1) = CHR ''o'' then (8, drop 2 s, True)
         else if length s \<ge> 3 \<and> ascii_lower (s ! 1) = CHR ''x'' then (16, drop 2 s, True)
         else (8, drop 1 s, False))
      else (10, s, False))"

definition int_digits :: "nat \<Rightarrow> gostring \<Rightarrow> nat option" where
  "int_digits base s =
     foldl (\<lambda>acc c.
       case acc of
         None \<Rightarrow> None
       | Some n \<Rightarrow>
           if c = CHR ''_'' then Some n
           else (case from_hex_char c of
                   Some d \<Rightarrow> if d < base then Some (n * base + d) else None
                 | None \<Rightarrow> None)) (Some 0) s"

definition ParseInt0 :: "gostring \<Rightarrow> int res" where
  "ParseInt0 s0 =
     (case split_sign s0 of
        (neg, s) \<Rightarrow>
          (if s = [] then Inl (Errorf ''parse error'')
           else case int_base s of
             (base, ds, pre) \<Rightarrow>
               (case int_digits base ds of
                  None \<Rightarrow> Inl (Errorf ''parse error'')
                | Some n \<Rightarrow>
                    if CHR ''_'' \<in> set s \<and>
                       \<not> underscoreOK (if pre then ds else s) (if pre then CHR ''0'' else CHR ''^'') (base = 16)
                    then Inl (Errorf ''parse error'')
                    else if (if neg then int n > 2 ^ 63 else int n > 2 ^ 63 - 1) then Inl (Errorf ''value out of range'')
                    else Inr (if neg then - int n else int n))))"

text \<open>
  \<^verbatim>\<open>time.ParseDuration\<close>, in nanoseconds. A fraction is cut off at a nanosecond; Go computes it
  in floating point, which gives the same number whenever its result is exact.
\<close>

definition dur_unit :: "gostring \<Rightarrow> int option" where
  "dur_unit u =
     (if u = ''ns'' then Some 1
      else if u = ''us'' \<or> u = [CHR 0xC2, CHR 0xB5, CHR ''s''] \<or> u = [CHR 0xCE, CHR 0xBC, CHR ''s''] then Some 1000
      else if u = ''ms'' then Some 1000000 else if u = ''s'' then Some 1000000000
      else if u = ''m'' then Some 60000000000 else if u = ''h'' then Some 3600000000000 else None)"

definition dur_value :: "gostring \<Rightarrow> int" where
  "dur_value ds = foldl (\<lambda>v c. v * 10 + int (digit_val c)) 0 ds"

text \<open>One number with its unit: what it amounts to, and the rest of the text.\<close>

definition dur_item :: "gostring \<Rightarrow> (int \<times> gostring) res" where
  "dur_item s =
     (let whole = takeWhile is_digit s; s1 = dropWhile is_digit s;
          frac = (if HasPrefix s1 ''.'' then takeWhile is_digit (tl s1) else []);
          s2 = (if HasPrefix s1 ''.'' then dropWhile is_digit (tl s1) else s1);
          unit = takeWhile (\<lambda>c. c \<noteq> CHR ''.'' \<and> \<not> is_digit c) s2;
          s3 = dropWhile (\<lambda>c. c \<noteq> CHR ''.'' \<and> \<not> is_digit c) s2
      in if dur_value whole > 2 ^ 63 \<or> (whole = [] \<and> frac = []) then Inl (Errorf ''time: invalid duration'')
         else if unit = [] then Inl (Errorf ''time: missing unit in duration'')
         else case dur_unit unit of
                None \<Rightarrow> Inl (Errorf ''time: unknown unit in duration'')
              | Some k \<Rightarrow>
                  (let v = dur_value whole * k + dur_value frac * k div 10 ^ length frac
                   in if v > 2 ^ 63 then Inl (Errorf ''time: invalid duration'') else Inr (v, s3)))"

lemma dur_item_shorter: "dur_item s = Inr (v, r) \<Longrightarrow> length r < length s"
proof -
  assume a: "dur_item s = Inr (v, r)"
  define s1 where "s1 = dropWhile is_digit s"
  define s2 where "s2 = (if HasPrefix s1 ''.'' then dropWhile is_digit (tl s1) else s1)"
  define u where "u = takeWhile (\<lambda>c. c \<noteq> CHR ''.'' \<and> \<not> is_digit c) s2"
  have "u \<noteq> []" "r = dropWhile (\<lambda>c. c \<noteq> CHR ''.'' \<and> \<not> is_digit c) s2"
    using a by (auto simp: dur_item_def Let_def s1_def s2_def u_def split: if_splits option.splits)
  moreover have "length s2 = length u + length (dropWhile (\<lambda>c. c \<noteq> CHR ''.'' \<and> \<not> is_digit c) s2)"
    unfolding u_def by (metis length_append takeWhile_dropWhile_id)
  moreover have "length s2 \<le> length s"
    using length_dropWhile_le [of is_digit s] length_dropWhile_le [of is_digit "tl s1"]
    by (auto simp: s2_def s1_def)
  ultimately show ?thesis by (cases u) auto
qed

function dur_items :: "gostring \<Rightarrow> int \<Rightarrow> int res" where
  "dur_items s d =
     (if s = [] then Inr d
      else if \<not> (hd s = CHR ''.'' \<or> is_digit (hd s)) then Inl (Errorf ''time: invalid duration'')
      else case dur_item s of
             Inl err \<Rightarrow> Inl err
           | Inr (v, r) \<Rightarrow> if d + v > 2 ^ 63 then Inl (Errorf ''time: invalid duration'') else dur_items r (d + v))"
  by pat_completeness auto
termination
  by (relation "measure (\<lambda>(s, d). length s)") (auto dest: dur_item_shorter)

declare dur_items.simps [simp del]

definition ParseDuration :: "gostring \<Rightarrow> int res" where
  "ParseDuration s0 =
     (case split_sign s0 of
        (neg, s) \<Rightarrow>
          (if s = ''0'' then Inr 0
           else if s = [] then Inl (Errorf ''time: invalid duration'')
           else case dur_items s 0 of
                  Inl err \<Rightarrow> Inl err
                | Inr d \<Rightarrow>
                    if neg then Inr (- d)
                    else if d > 2 ^ 63 - 1 then Inl (Errorf ''time: invalid duration'') else Inr d))"

text \<open>
  \<^verbatim>\<open>Duration.String\<close>. \<open>fmtFrac\<close> takes the last \<open>n\<close> digits off a number and puts them before the
  digits found so far, without the zeros at the end; below a second the unit is chosen so
  that the first digit is not a zero.
\<close>

fun fmtFrac :: "nat \<Rightarrow> nat \<Rightarrow> gostring \<Rightarrow> gostring \<times> nat" where
  "fmtFrac 0 v acc = (acc, v)"
| "fmtFrac (Suc n) v acc =
     fmtFrac n (v div 10) (if acc \<noteq> [] \<or> v mod 10 \<noteq> 0 then digit_char (v mod 10) # acc else acc)"

definition dur_print :: "nat \<Rightarrow> gostring \<Rightarrow> gostring \<Rightarrow> gostring" where
  "dur_print whole frac unit = nat_itoa whole @ (if frac = [] then [] else CHR ''.'' # frac) @ unit"

definition dur_small :: "nat \<Rightarrow> nat \<Rightarrow> gostring \<Rightarrow> gostring" where
  "dur_small prec u unit = (case fmtFrac prec u [] of (frac, whole) \<Rightarrow> dur_print whole frac unit)"

definition Duration_String :: "int \<Rightarrow> gostring" where
  "Duration_String d =
     (let u = nat (abs d);
          body =
            (if u = 0 then ''0s''
             else if u < 1000 then dur_small 0 u ''ns''
             else if u < 1000000 then dur_small 3 u [CHR 0xC2, CHR 0xB5, CHR ''s'']
             else if u < 1000000000 then dur_small 6 u ''ms''
             else (case fmtFrac 9 u [] of
                     (frac, secs) \<Rightarrow>
                       (let mins = secs div 60; hours = mins div 60
                        in (if hours > 0 then dur_print hours [] ''h'' else []) @
                           (if mins > 0 then dur_print (mins mod 60) [] ''m'' else []) @
                           dur_print (secs mod 60) frac ''s'')))
      in if d < 0 then CHR ''-'' # body else body)"

subsection \<open>Printed values are read back\<close>

lemma dur_value_digits: "dur_value s = int (digits_val s)"
proof -
  have "foldl (\<lambda>v c. v * 10 + int (digit_val c)) (int n) s = int (foldl (\<lambda>v c. 10 * v + digit_val c) n s)" for n
  proof (induction s arbitrary: n)
    case (Cons c s)
    have "int n * 10 + int (digit_val c) = int (10 * n + digit_val c)" by simp
    then show ?case using Cons [of "10 * n + digit_val c"] by (simp only: foldl_Cons)
  qed simp
  from this [of 0] show ?thesis by (simp add: dur_value_def digits_val_def)
qed

lemma dur_value_itoa [simp]: "dur_value (nat_itoa n) = int n"
  by (simp add: dur_value_digits)

lemma digits_val_Cons: "digits_val (c # s) = digit_val c * 10 ^ length s + digits_val s"
proof -
  have "foldl (\<lambda>v c. 10 * v + digit_val c) n s = n * 10 ^ length s + foldl (\<lambda>v c. 10 * v + digit_val c) 0 s" for n
  proof (induction s arbitrary: n)
    case (Cons a s)
    show ?case using Cons [of "10 * n + digit_val a"] Cons [of "digit_val a"] by (simp add: algebra_simps)
  qed simp
  from this [of "digit_val c"] show ?thesis by (simp add: digits_val_def)
qed

text \<open>
  The fraction found after \<open>m\<close> digits, scaled to \<open>m\<close> digits, is what has been taken off.
\<close>

lemma fmtFrac_invariant:
  assumes "fmtFrac n v acc = (frac, q)" and "list_all is_digit acc" and "length acc \<le> m"
    and "digits_val acc * 10 ^ (m - length acc) = low"
  shows "q = v div 10 ^ n \<and> list_all is_digit frac \<and> length frac \<le> m + n \<and>
     digits_val frac * 10 ^ (m + n - length frac) = (v mod 10 ^ n) * 10 ^ m + low"
  using assms
proof (induction n v acc arbitrary: m low rule: fmtFrac.induct)
  case (2 n v acc)
  define acc' where "acc' = (if acc \<noteq> [] \<or> v mod 10 \<noteq> 0 then digit_char (v mod 10) # acc else acc)"
  have "digits_val acc' * 10 ^ (Suc m - length acc') = (v mod 10) * 10 ^ m + low"
  proof (cases "acc \<noteq> [] \<or> v mod 10 \<noteq> 0")
    case True
    have "(10 :: nat) ^ length acc * 10 ^ (m - length acc) = 10 ^ m"
      using "2.prems"(3) by (simp add: power_add [symmetric])
    with True "2.prems"(4) show ?thesis
      by (simp add: acc'_def digits_val_Cons add_mult_distrib mult.assoc)
  next
    case False
    with "2.prems"(4) show ?thesis by (auto simp: acc'_def digits_val_def)
  qed
  moreover have "list_all is_digit acc'" "length acc' \<le> Suc m"
    using "2.prems" by (auto simp: acc'_def)
  ultimately have ih: "q = v div 10 div 10 ^ n \<and> list_all is_digit frac \<and> length frac \<le> Suc m + n \<and>
     digits_val frac * 10 ^ (Suc m + n - length frac) = (v div 10 mod 10 ^ n) * 10 ^ Suc m + ((v mod 10) * 10 ^ m + low)"
    using "2.IH" [of "Suc m"] "2.prems"(1) by (simp add: acc'_def)
  have "v mod 10 ^ Suc n = v div 10 mod 10 ^ n * 10 + v mod 10"
    by (simp add: mod_mult2_eq)
  with ih show ?case
    by (auto simp: div_mult2_eq algebra_simps)
qed simp

lemma fmtFrac_value:
  assumes "fmtFrac n u [] = (frac, q)"
  shows "list_all is_digit frac" "q = u div 10 ^ n"
    and "int (digits_val frac) * 10 ^ n div 10 ^ length frac = int (u mod 10 ^ n)"
proof -
  have inv: "q = u div 10 ^ n \<and> list_all is_digit frac \<and> length frac \<le> n \<and>
     digits_val frac * 10 ^ (n - length frac) = u mod 10 ^ n"
    using fmtFrac_invariant [OF assms, of 0 0] by (simp add: digits_val_def)
  then show "list_all is_digit frac" "q = u div 10 ^ n" by simp_all
  have "(10 :: nat) ^ n = 10 ^ (n - length frac) * 10 ^ length frac"
    using inv by (simp add: power_add [symmetric])
  then have "digits_val frac * 10 ^ n = (digits_val frac * 10 ^ (n - length frac)) * 10 ^ length frac"
    by simp
  then have "digits_val frac * 10 ^ n div 10 ^ length frac = u mod 10 ^ n"
    using inv by simp
  then show "int (digits_val frac) * 10 ^ n div 10 ^ length frac = int (u mod 10 ^ n)"
    by (metis of_nat_mult of_nat_numeral of_nat_power zdiv_int)
qed

lemma takeWhile_run: "list_all P a \<Longrightarrow> b = [] \<or> \<not> P (hd b) \<Longrightarrow> takeWhile P (a @ b) = a"
  by (induction a) (cases b, auto)

lemma dropWhile_run: "list_all P a \<Longrightarrow> b = [] \<or> \<not> P (hd b) \<Longrightarrow> dropWhile P (a @ b) = b"
  by (induction a) (cases b, auto)

definition unit_name :: "gostring \<Rightarrow> bool" where
  "unit_name u \<longleftrightarrow> u \<noteq> [] \<and> list_all (\<lambda>c. c \<noteq> CHR ''.'' \<and> \<not> is_digit c) u"

lemma dur_units:
  "dur_unit ''ns'' = Some 1" "dur_unit [CHR 0xC2, CHR 0xB5, CHR ''s''] = Some 1000" "dur_unit ''ms'' = Some 1000000"
  "dur_unit ''s'' = Some 1000000000" "dur_unit ''m'' = Some 60000000000" "dur_unit ''h'' = Some 3600000000000"
  "unit_name ''ns''" "unit_name [CHR 0xC2, CHR 0xB5, CHR ''s'']" "unit_name ''ms''"
  "unit_name ''s''" "unit_name ''m''" "unit_name ''h''"
  by (simp_all add: dur_unit_def unit_name_def is_digit_def)

lemma dur_item_print:
  assumes "list_all is_digit frac" "unit_name unit" "dur_unit unit = Some k" "1 \<le> k" "rest = [] \<or> is_digit (hd rest)"
    and v: "v = int whole * k + dur_value frac * k div 10 ^ length frac" "v \<le> 2 ^ 63"
  shows "dur_item (dur_print whole frac unit @ rest) = Inr (v, rest)"
proof -
  let ?s1 = "(if frac = [] then [] else CHR ''.'' # frac) @ unit @ rest"
  have u: "unit \<noteq> []" "hd unit \<noteq> CHR ''.''" "\<not> is_digit (hd unit)"
    using assms(2) by (cases unit; simp add: unit_name_def)+
  have s1: "?s1 = [] \<or> \<not> is_digit (hd ?s1)"
    using u by (simp add: is_digit_def)
  have e: "dur_print whole frac unit @ rest = nat_itoa whole @ ?s1"
    by (simp add: dur_print_def)
  note w = takeWhile_run [OF nat_itoa_digits s1] dropWhile_run [OF nat_itoa_digits s1]
  have r: "rest = [] \<or> \<not> (hd rest \<noteq> CHR ''.'' \<and> \<not> is_digit (hd rest))"
    using assms(5) by blast
  have un: "list_all (\<lambda>c. c \<noteq> CHR ''.'' \<and> \<not> is_digit c) unit"
    using assms(2) by (simp add: unit_name_def)
  note us = takeWhile_run [OF un r] dropWhile_run [OF un r]
  have ur: "unit @ rest = [] \<or> \<not> is_digit (hd (unit @ rest))"
    using u by simp
  note fr = takeWhile_run [OF assms(1) ur] dropWhile_run [OF assms(1) ur]
  have f0: "0 \<le> dur_value frac * k div 10 ^ length frac"
    using assms(4) by (simp add: dur_value_digits pos_imp_zdiv_nonneg_iff)
  have "int whole \<le> int whole * k" using assms(4) by (simp add: mult_le_cancel_left1)
  then have wb: "int whole \<le> 2 ^ 63"
    using v f0 by linarith
  have hp: "HasPrefix ?s1 ''.'' = (frac \<noteq> [])"
    using u by (cases unit) (auto simp: HasPrefix_def)
  show ?thesis
    unfolding e dur_item_def Let_def w hp using u fr us assms(3) v wb
    by (cases "frac = []") (simp_all add: Let_def)
qed

lemma dur_print_hd: "dur_print whole frac unit \<noteq> []" "is_digit (hd (dur_print whole frac unit))"
  using nat_itoa_digits [of whole] nat_itoa_not_Nil [of whole] by (cases "nat_itoa whole"; simp add: dur_print_def)+

lemma dur_items_print:
  assumes "list_all is_digit frac" "unit_name unit" "dur_unit unit = Some k" "1 \<le> k" "rest = [] \<or> is_digit (hd rest)"
    and v: "v = int whole * k + dur_value frac * k div 10 ^ length frac" and "0 \<le> d" "d + v \<le> 2 ^ 63"
  shows "dur_items (dur_print whole frac unit @ rest) d = dur_items rest (d + v)"
proof -
  have "v \<le> 2 ^ 63" using assms(7,8) by linarith
  note i = dur_item_print [OF assms(1-5) v this]
  with assms(8) dur_print_hd [of whole frac unit] show ?thesis
    by (subst dur_items.simps) simp
qed

lemma dur_items_frac:
  assumes "fmtFrac n u [] = (frac, q)" "unit_name unit" "dur_unit unit = Some (10 ^ n)" "0 \<le> d" "d + int (w * 10 ^ n + u mod 10 ^ n) \<le> 2 ^ 63"
  shows "dur_items (dur_print w frac unit) d = Inr (d + int (w * 10 ^ n + u mod 10 ^ n))"
proof -
  have v: "int (w * 10 ^ n + u mod 10 ^ n) = int w * 10 ^ n + dur_value frac * 10 ^ n div 10 ^ length frac"
    using fmtFrac_value(3) [OF assms(1)] by (simp add: dur_value_digits)
  from dur_items_print [OF fmtFrac_value(1) [OF assms(1)] assms(2,3) _ _ v assms(4,5), of "[]"] show ?thesis
    by (simp add: dur_items.simps [of "[]"])
qed

lemma dur_items_small:
  assumes "unit_name unit" "dur_unit unit = Some (10 ^ n)" "int u \<le> 2 ^ 63"
  shows "dur_items (dur_small n u unit) 0 = Inr (int u)"
proof -
  obtain frac q where f: "fmtFrac n u [] = (frac, q)" by fastforce
  have q: "q = u div 10 ^ n" using fmtFrac_value(2) [OF f] .
  have "q * 10 ^ n + u mod 10 ^ n = u" unfolding q by (rule div_mult_mod_eq)
  with dur_items_frac [OF f assms(1,2), of 0 q] assms(3) f show ?thesis
    by (simp add: dur_small_def)
qed

lemma dur_items_seconds:
  assumes f: "fmtFrac 9 u [] = (frac, secs)" and u: "int u \<le> 2 ^ 63"
  defines "mins \<equiv> secs div 60"
  defines "hours \<equiv> mins div 60"
  shows "dur_items ((if hours > 0 then dur_print hours [] ''h'' else []) @
           (if mins > 0 then dur_print (mins mod 60) [] ''m'' else []) @ dur_print (secs mod 60) frac ''s'') 0 = Inr (int u)"
proof -
  let ?s = "dur_print (secs mod 60) frac ''s''" and ?m = "dur_print (mins mod 60) [] ''m''"
  have tot: "u = hours * 3600000000000 + (mins mod 60) * 60000000000 + ((secs mod 60) * 10 ^ 9 + u mod 10 ^ 9)"
  proof -
    have "u = secs * 10 ^ 9 + u mod 10 ^ 9" "secs = mins * 60 + secs mod 60" "mins = hours * 60 + mins mod 60"
      using fmtFrac_value(2) [OF f] by (simp_all add: mins_def hours_def)
    then show ?thesis by (simp add: algebra_simps)
  qed
  have s: "dur_items ?s d = Inr (d + int ((secs mod 60) * 10 ^ 9 + u mod 10 ^ 9))"
    if "0 \<le> d" "d + int ((secs mod 60) * 10 ^ 9 + u mod 10 ^ 9) \<le> 2 ^ 63" for d
    using that by (intro dur_items_frac [OF f]) (simp_all add: dur_units)
  have m: "dur_items ((if mins > 0 then ?m else []) @ ?s) d = Inr (d + int ((mins mod 60) * 60000000000 + ((secs mod 60) * 10 ^ 9 + u mod 10 ^ 9)))"
    if "0 \<le> d" "d + int ((mins mod 60) * 60000000000 + ((secs mod 60) * 10 ^ 9 + u mod 10 ^ 9)) \<le> 2 ^ 63" for d
  proof (cases "mins > 0")
    case True
    have "dur_items (?m @ ?s) d = dur_items ?s (d + int (mins mod 60) * 60000000000)"
      using that dur_print_hd [of "secs mod 60" frac "''s''"]
      by (intro dur_items_print [where k = 60000000000]) (simp_all add: dur_units dur_value_def)
    with True that s [of "d + int (mins mod 60) * 60000000000"] show ?thesis by (simp add: algebra_simps)
  next
    case False
    with that s show ?thesis by simp
  qed
  show ?thesis
  proof (cases "hours > 0")
    case True
    then have "mins > 0" by (auto simp: hours_def intro: Nat.gr0I)
    have "dur_items (dur_print hours [] ''h'' @ (?m @ ?s)) 0 = dur_items (?m @ ?s) (0 + int hours * 3600000000000)"
      using u tot dur_print_hd [of "mins mod 60" "[]" "''m''"]
      by (intro dur_items_print [where k = 3600000000000]) (simp_all add: dur_units dur_value_def)
    with True \<open>mins > 0\<close> u tot m [of "int hours * 3600000000000"] show ?thesis by simp
  next
    case False
    with u tot m [of 0] show ?thesis by simp
  qed
qed

lemma nat_itoa_0: "nat_itoa 0 = ''0''"
  by code_simp

lemma bare_zero: "dur_items ''0'' 0 = Inl (Errorf ''time: missing unit in duration'')"
  by code_simp

lemma ParseDuration_String:
  assumes "- (2 ^ 63) \<le> d" "d < 2 ^ 63"
  shows "ParseDuration (Duration_String d) = Inr d"
proof -
  define u where "u = nat (abs d)"
  define body where "body = (if u = 0 then ''0s''
             else if u < 1000 then dur_small 0 u ''ns''
             else if u < 1000000 then dur_small 3 u [CHR 0xC2, CHR 0xB5, CHR ''s'']
             else if u < 1000000000 then dur_small 6 u ''ms''
             else (case fmtFrac 9 u [] of
                     (frac, secs) \<Rightarrow>
                       (let mins = secs div 60; hours = mins div 60
                        in (if hours > 0 then dur_print hours [] ''h'' else []) @
                           (if mins > 0 then dur_print (mins mod 60) [] ''m'' else []) @
                           dur_print (secs mod 60) frac ''s'')))"
  have s: "Duration_String d = (if d < 0 then CHR ''-'' # body else body)"
    by (simp only: Duration_String_def Let_def body_def u_def)
  have u: "int u \<le> 2 ^ 63" "int u = abs d" using assms by (auto simp: u_def)
  have zero: "''0s'' = dur_print 0 [] ''s''"
    by (simp add: dur_print_def nat_itoa_0)
  have b: "dur_items body 0 = Inr (int u)"
  proof (cases "u = 0")
    case True
    then show ?thesis
      using dur_items_print [of "[]" "''s''" 1000000000 "[]" 0 0 0]
      by (simp add: body_def zero dur_units dur_value_def dur_items.simps [of "[]"])
  next
    case False
    with u(1) show ?thesis
      using dur_items_small [of _ 0 u] dur_items_small [of _ 3 u] dur_items_small [of _ 6 u] dur_items_seconds [of u]
      by (auto simp: body_def dur_units Let_def split: prod.split)
  qed
  have h: "body \<noteq> []" "is_digit (hd body)"
    using dur_print_hd by (auto simp: body_def zero dur_small_def Let_def hd_append split: prod.split)
  then have ss: "split_sign body = (False, body)" "split_sign (CHR ''-'' # body) = (True, body)"
    by (cases body; auto simp: split_sign_def is_digit_def)+
  have "body \<noteq> ''0''"
    using b by (auto simp: bare_zero)
  with ss b h u assms s show ?thesis
    by (simp add: ParseDuration_def)
qed

lemma int_digits_decimal: "list_all is_digit s \<Longrightarrow> int_digits 10 s = Some (digits_val s)"
proof (induction s rule: rev_induct)
  case Nil
  then show ?case by (simp add: int_digits_def digits_val_def)
next
  case (snoc c s)
  have "from_hex_char c = Some (digit_val c)" "digit_val c < 10" "c \<noteq> CHR ''_''"
    using snoc.prems by (auto simp: is_digit_def from_hex_char_def digit_val_def Let_def)
  with snoc show ?case by (simp add: int_digits_def digits_val_snoc)
qed

lemma nat_itoa_no_zero: "n \<noteq> 0 \<Longrightarrow> \<not> HasPrefix (nat_itoa n) ''0''"
proof (induction n rule: nat_itoa.induct)
  case (1 n)
  show ?case
  proof (cases "n < 10")
    case True
    then have "digit_val (digit_char n) \<noteq> digit_val CHR ''0''"
      using 1 by (simp add: digit_val_def [of "CHR ''0''"])
    then have "digit_char n \<noteq> CHR ''0''" by metis
    with True show ?thesis by (subst nat_itoa.simps) (simp add: HasPrefix_def)
  next
    case False
    with 1 have "\<not> HasPrefix (nat_itoa (n div 10)) ''0''" by simp
    with False show ?thesis
      using nat_itoa_not_Nil [of "n div 10"]
      by (subst nat_itoa.simps) (cases "nat_itoa (n div 10)"; simp add: HasPrefix_def)
  qed
qed

lemma ParseInt0_sign:
  assumes "split_sign s = (neg, nat_itoa n)" "if neg then int n \<le> 2 ^ 63 else int n < 2 ^ 63"
  shows "ParseInt0 s = Inr (if neg then - int n else int n)"
proof (cases "n = 0")
  case True
  then have "nat_itoa n = ''0''" by (simp add: nat_itoa_0)
  with assms True show ?thesis
    by (simp add: ParseInt0_def int_base_def HasPrefix_def int_digits_def)
next
  case False
  have us: "CHR ''_'' \<notin> set (nat_itoa n)"
    using nat_itoa_digits [of n] by (auto simp: list_all_iff is_digit_def)
  have b: "int_base (nat_itoa n) = (10, nat_itoa n, False)"
    using nat_itoa_no_zero [OF False] by (simp add: int_base_def)
  show ?thesis
    using assms us by (cases neg) (simp_all add: ParseInt0_def b int_digits_decimal nat_itoa_digits)
qed

lemma ParseInt0_Itoa:
  assumes "- (2 ^ 63) \<le> i" "i < 2 ^ 63"
  shows "ParseInt0 (Itoa i) = Inr i"
proof -
  have "split_sign (Itoa i) = (i < 0, nat_itoa (nat (abs i)))"
    using digit_chars_not_sign [OF nat_itoa_digits nat_itoa_not_Nil, of "nat i"] by (auto simp: Itoa_def split_sign_def)
  from ParseInt0_sign [OF this] assms show ?thesis by auto
qed

section \<open>Flag sets\<close>

text \<open>
  \<^verbatim>\<open>FlagSet.Parse\<close> over a table of flags: \<open>kind\<close> says whether a flag exists and is boolean, \<open>put\<close>
  sets it in the state. The result is the error, the arguments left and the state. A flag
  may have one dash or two; the value of a boolean flag must follow an equals sign.
\<close>

definition ErrHelp :: goerr where
  "ErrHelp = OsErr ''flag: help requested''"

text \<open>\<^verbatim>\<open>parseOne\<close> on the first argument: either parsing ends, or it goes on with the rest.\<close>

definition flag_parseOne ::
    "(gostring \<Rightarrow> bool option) \<Rightarrow> (gostring \<Rightarrow> gostring \<Rightarrow> 's \<Rightarrow> 's res) \<Rightarrow> gostring \<Rightarrow> gostring list \<Rightarrow> 's
     \<Rightarrow> (goerr option \<times> gostring list \<times> 's) + (gostring list \<times> 's)" where
  "flag_parseOne kind put s args st =
     (if length s < 2 \<or> hd s \<noteq> CHR ''-'' then Inl (None, s # args, st)
      else if s = ''--'' then Inl (None, args, st)
      else
        (let dashed = (if s ! 1 = CHR ''-'' then drop 2 s else drop 1 s);
             (name, value, hasValue) = Cut (CHR ''='') dashed;
             fail = (\<lambda>err rest. Inl (Some err, rest, st));
             assign = (\<lambda>v rest.
               case put name v st of
                 Inl err \<Rightarrow> fail (Wrapf (''invalid value '' @ Quote v @ '' for flag -'' @ name @ '': '') err) rest
               | Inr st' \<Rightarrow> Inr (rest, st'))
         in if dashed = [] \<or> hd dashed = CHR ''-'' \<or> hd dashed = CHR ''=''
            then fail (Errorf (''bad flag syntax: '' @ s)) (s # args)
            else case kind name of
              None \<Rightarrow>
                fail (if name = ''help'' \<or> name = ''h'' then ErrHelp
                      else Errorf (''flag provided but not defined: -'' @ name)) args
            | Some isBool \<Rightarrow>
                if isBool then
                  (case put name (if hasValue then value else ''true'') st of
                     Inl err \<Rightarrow> fail (Wrapf (''invalid boolean value '' @ Quote value @ '' for -'' @ name @ '': '') err) args
                   | Inr st' \<Rightarrow> Inr (args, st'))
                else if hasValue then assign value args
                else (case args of
                        [] \<Rightarrow> fail (Errorf (''flag needs an argument: -'' @ name)) args
                      | v # rest \<Rightarrow> assign v rest)))"

lemma flag_parseOne_shorter:
  "flag_parseOne kind put s args st = Inr (rest, st') \<Longrightarrow> length rest \<le> length args"
  "flag_parseOne kind put s args st = Inl (e, rest, st') \<Longrightarrow> length rest \<le> Suc (length args)"
  by (auto simp: flag_parseOne_def Let_def split: if_splits prod.splits option.splits sum.splits list.splits)

function flag_Parse ::
    "(gostring \<Rightarrow> bool option) \<Rightarrow> (gostring \<Rightarrow> gostring \<Rightarrow> 's \<Rightarrow> 's res) \<Rightarrow> gostring list \<Rightarrow> 's
     \<Rightarrow> goerr option \<times> gostring list \<times> 's" where
  "flag_Parse kind put [] st = (None, [], st)"
| "flag_Parse kind put (s # args) st =
     (case flag_parseOne kind put s args st of
        Inl r \<Rightarrow> r
      | Inr (rest, st') \<Rightarrow> flag_Parse kind put rest st')"
  by pat_completeness auto
termination
  by (relation "measure (\<lambda>(kind, put, args, st). length args)") (auto dest: flag_parseOne_shorter)

lemma flag_Parse_shorter: "flag_Parse kind put args st = (e, rest, st') \<Longrightarrow> length rest \<le> length args"
proof (induction kind put args st rule: flag_Parse.induct)
  case (2 kind put s args st)
  then show ?case
    by (fastforce split: sum.splits prod.splits dest: flag_parseOne_shorter)
qed simp

text \<open>An argument that does not start with a dash ends the flags.\<close>

lemma flag_Parse_positional:
  "length s < 2 \<or> hd s \<noteq> CHR ''-'' \<Longrightarrow> flag_Parse kind put (s # args) st = (None, s # args, st)"
  by (simp add: flag_parseOne_def)

end
