(* ===== verification/CommandLine.thy ===== *)
theory CommandLine
  imports Server GoFlag
begin

text \<open>
  The command line of \<^verbatim>\<open>cmd/cli/main_cli.go\<close>: the options and their defaults, the command named
  by the program's name or by a word, and the argument. The last section shows that the
  command line \<^verbatim>\<open>launchOAuthWorker\<close> builds for its worker is read back by the worker.
\<close>

section \<open>Commands and options\<close>

datatype command = cmdOpen | cmdCopy | cmdPaste | cmdServer | cmdGenKey | cmdOAuthWorker

fun command_String :: "command \<Rightarrow> gostring" where
  "command_String cmdOpen = ''open url in server'' @ [CHR 0x27] @ ''s default browser''"
| "command_String cmdCopy = ''send text to server clipboard''"
| "command_String cmdPaste = ''output server clipboard locally''"
| "command_String cmdServer = ''start server''"
| "command_String cmdGenKey = ''generate key pair for signing''"
| "command_String cmdOAuthWorker = ''run detached oauth tunnel worker''"

record options =
  aPort :: int
  aLE :: gostring
  aHelp :: bool
  aDebug :: bool
  aTunnel :: bool
  aOAuth :: bool
  aWorkerStatusAddr :: gostring
  aData :: gostring
  aConnectTimeout :: int
  aIOTimeout :: int

text \<open>The defaults \<^verbatim>\<open>main\<close> registers the flags with; durations are in nanoseconds.\<close>

definition default_options :: options where
  "default_options =
     \<lparr>aPort = DefaultPort, aLE = [], aHelp = False, aDebug = False, aTunnel = False, aOAuth = False,
      aWorkerStatusAddr = [], aData = [], aConnectTimeout = DefaultConnectTimeout, aIOTimeout = 60 * 10 ^ 9\<rparr>"

lemma default_options_simps [simp]:
  "aHelp default_options = False" "aDebug default_options = False" "aTunnel default_options = False"
  "aOAuth default_options = False" "aWorkerStatusAddr default_options = []"
  "aPort default_options = DefaultPort" "aConnectTimeout default_options = DefaultConnectTimeout"
  "aIOTimeout default_options = 60 * 10 ^ 9"
  by (simp_all add: default_options_def)

text \<open>The flags by name: whether there is one, and whether it is boolean; how a value is stored.\<close>

definition cli_flag :: "gostring \<Rightarrow> bool option" where
  "cli_flag nm =
     (if nm \<in> {''help'', ''tunnel'', ''oauth'', ''debug''} then Some True
      else if nm \<in> {''port'', ''line-ending'', ''connect-timeout'', ''timeout'', ''worker-status-addr''} then Some False
      else None)"

definition cli_set :: "gostring \<Rightarrow> gostring \<Rightarrow> options \<Rightarrow> options res" where
  "cli_set nm v st =
     (if nm = ''help'' then map_sum id (\<lambda>b. st\<lparr>aHelp := b\<rparr>) (ParseBool v)
      else if nm = ''port'' then map_sum id (\<lambda>n. st\<lparr>aPort := n\<rparr>) (ParseInt0 v)
      else if nm = ''line-ending'' then Inr (st\<lparr>aLE := v\<rparr>)
      else if nm = ''connect-timeout'' then map_sum id (\<lambda>d. st\<lparr>aConnectTimeout := d\<rparr>) (ParseDuration v)
      else if nm = ''timeout'' then map_sum id (\<lambda>d. st\<lparr>aIOTimeout := d\<rparr>) (ParseDuration v)
      else if nm = ''tunnel'' then map_sum id (\<lambda>b. st\<lparr>aTunnel := b\<rparr>) (ParseBool v)
      else if nm = ''oauth'' then map_sum id (\<lambda>b. st\<lparr>aOAuth := b\<rparr>) (ParseBool v)
      else if nm = ''worker-status-addr'' then Inr (st\<lparr>aWorkerStatusAddr := v\<rparr>)
      else map_sum id (\<lambda>b. st\<lparr>aDebug := b\<rparr>) (ParseBool v))"

abbreviation cli_Parse :: "gostring list \<Rightarrow> options \<Rightarrow> goerr option \<times> gostring list \<times> options" where
  "cli_Parse \<equiv> flag_Parse cli_flag cli_set"

section \<open>The command\<close>

text \<open>The expressions \<^verbatim>\<open>/?xdg-open$\<close> and so on match a name that ends in the word.\<close>

definition alias_command :: "gostring \<Rightarrow> command option" where
  "alias_command nm =
     (if HasSuffix nm ''xdg-open'' then Some cmdOpen
      else if HasSuffix nm ''pbpaste'' then Some cmdPaste
      else if HasSuffix nm ''pbcopy'' then Some cmdCopy
      else None)"

definition word_command :: "gostring \<Rightarrow> command option" where
  "word_command v =
     (if v = ''open'' then Some cmdOpen
      else if v = ''paste'' then Some cmdPaste
      else if v = ''copy'' then Some cmdCopy
      else if v = ''server'' then Some cmdServer
      else if v = ''genkey'' then Some cmdGenKey
      else if v = ''internal-oauth-worker'' then Some cmdOAuthWorker
      else None)"

text \<open>
  The first command word after the program's name is taken out of the arguments; those after
  it move up, and the last one becomes empty.
\<close>

fun take_command :: "gostring list \<Rightarrow> (command \<times> gostring list) option" where
  "take_command [] = None"
| "take_command (v # args) =
     (case word_command v of
        Some cmd \<Rightarrow> Some (cmd, args @ [[]])
      | None \<Rightarrow> map_option (apsnd (Cons v)) (take_command args))"

definition getCommand :: "gostring list \<Rightarrow> (command \<times> bool \<times> gostring list) res" where
  "getCommand args =
     (case alias_command (hd args) of
        Some cmd \<Rightarrow> Inr (cmd, True, args)
      | None \<Rightarrow>
          (case take_command (tl args) of
             Some (cmd, rest) \<Rightarrow> Inr (cmd, False, hd args # rest)
           | None \<Rightarrow> Inl (Errorf ''unknown command'')))"

definition envDebugEnabled :: "(gostring \<Rightarrow> gostring) \<Rightarrow> bool" where
  "envDebugEnabled Getenv = (Getenv ''GCLPR_DEBUG'' \<in> {''1'', ''true'', ''TRUE'', ''yes'', ''YES'', ''on'', ''ON''})"

section \<open>The arguments\<close>

text \<open>Positional arguments with flags between them; the last one stays.\<close>

function arg_loop :: "gostring list \<Rightarrow> gostring \<Rightarrow> options \<Rightarrow> goerr option \<times> gostring \<times> options" where
  "arg_loop [] arg st = (None, arg, st)"
| "arg_loop (a # args) arg st =
     (case cli_Parse args st of
        (Some err, _, st') \<Rightarrow> (Some err, a, st')
      | (None, rest, st') \<Rightarrow> arg_loop rest a st')"
  by pat_completeness auto
termination
  by (relation "measure (\<lambda>(args, arg, st). length args)") (auto dest!: flag_Parse_shorter [OF sym])

definition processCommandLine ::
    "(gostring \<Rightarrow> gostring) \<Rightarrow> bytes res \<Rightarrow> gostring list \<Rightarrow> options \<Rightarrow> command res \<times> options" where
  "processCommandLine Getenv stdin args st =
     (case getCommand args of
        Inl err \<Rightarrow> (Inl err, st)
      | Inr (cmd, aliased, args1) \<Rightarrow>
          (let args2 = (if aliased then args1 else butlast args1)
           in case cli_Parse (tl args2) st of
                (Some err, _, st1) \<Rightarrow> (Inl err, st1)
              | (None, rest, st1) \<Rightarrow>
                  (let st2 = (if \<not> aDebug st1 \<and> envDebugEnabled Getenv then st1\<lparr>aDebug := True\<rparr> else st1)
                   in if cmd \<in> {cmdPaste, cmdServer, cmdGenKey, cmdOAuthWorker} then (Inr cmd, st2)
                      else case arg_loop rest [] st2 of
                             (Some err, _, st3) \<Rightarrow> (Inl err, st3)
                           | (None, arg, st3) \<Rightarrow>
                               if aHelp st3 then (Inr cmd, st3)
                               else if aTunnel st3 \<and> aOAuth st3
                               then (Inl (Errorf ''-tunnel and -oauth cannot be used together''), st3)
                               else (let st4 = (if aliased \<and> cmd = cmdOpen \<and> \<not> aTunnel st3 \<and> \<not> aOAuth st3
                                               then st3\<lparr>aOAuth := True\<rparr> else st3)
                                     in if length arg \<noteq> 0 then (Inr cmd, st4\<lparr>aData := arg\<rparr>)
                                        else case stdin of
                                               Inl err \<Rightarrow> (Inl err, st4)
                                             | Inr b \<Rightarrow> (Inr cmd, st4\<lparr>aData := string_of b\<rparr>)))))"

section \<open>Plain command lines\<close>

text \<open>An argument that is not taken for a flag.\<close>

definition positional :: "gostring \<Rightarrow> bool" where
  "positional a \<longleftrightarrow> length a < 2 \<or> hd a \<noteq> CHR ''-''"

lemma cli_Parse_positional: "positional a \<Longrightarrow> cli_Parse (a # args) st = (None, a # args, st)"
  unfolding positional_def by (rule flag_Parse_positional)

abbreviation with_env :: "(gostring \<Rightarrow> gostring) \<Rightarrow> options \<Rightarrow> options" where
  "with_env Getenv st \<equiv> st\<lparr>aDebug := aDebug st \<or> envDebugEnabled Getenv\<rparr>"

lemma processCommandLine_plain:
  assumes "alias_command prog = None" "word_command v = Some cmd" "cmd \<in> {cmdOpen, cmdCopy}" "positional a" "a \<noteq> []"
    and "\<not> aHelp st" "\<not> (aTunnel st \<and> aOAuth st)"
  shows "processCommandLine Getenv stdin [prog, v, a] st = (Inr cmd, (with_env Getenv st)\<lparr>aData := a\<rparr>)"
  using assms by (auto simp: processCommandLine_def getCommand_def cli_Parse_positional Let_def simp del: flag_Parse.simps(2))

text \<open>A boolean flag between the command and its argument.\<close>

lemma cli_Parse_flag:
  assumes "positional a"
  shows "cli_Parse [''-oauth'', a] st = (None, [a], st\<lparr>aOAuth := True\<rparr>)"
  using assms cli_Parse_positional [OF assms, of "[]"]
  by (simp add: flag_parseOne_def Cut_def cli_flag_def cli_set_def ParseBool_def)

lemma processCommandLine_oauth:
  assumes "alias_command prog = None" "positional a" "a \<noteq> []" "\<not> aHelp st" "\<not> aTunnel st"
  shows "processCommandLine Getenv stdin [prog, ''open'', ''-oauth'', a] st = (Inr cmdOpen, (with_env Getenv st)\<lparr>aOAuth := True, aData := a\<rparr>)"
  using assms cli_Parse_flag [OF assms(2), of st]
  by (auto simp: processCommandLine_def getCommand_def word_command_def Let_def simp del: flag_Parse.simps(2))

lemma processCommandLine_alias:
  assumes "alias_command prog = Some cmdOpen" "positional a" "a \<noteq> []" "\<not> aHelp st" "\<not> aTunnel st" "\<not> aOAuth st"
  shows "processCommandLine Getenv stdin [prog, a] st = (Inr cmdOpen, (with_env Getenv st)\<lparr>aOAuth := True, aData := a\<rparr>)"
  using assms by (auto simp: processCommandLine_def getCommand_def cli_Parse_positional Let_def simp del: flag_Parse.simps(2))

lemma processCommandLine_paste:
  assumes "alias_command prog = None"
  shows "processCommandLine Getenv stdin [prog, ''paste'', ''-line-ending'', le] st = (Inr cmdPaste, (with_env Getenv st)\<lparr>aLE := le\<rparr>)"
  using assms by (simp add: processCommandLine_def getCommand_def word_command_def flag_parseOne_def Cut_def cli_flag_def cli_set_def)

end
