(* ===== verification/Worker.thy ===== *)
theory Worker
  imports CommandLine GoJson TunnelClient
begin

text \<open>
  The detached worker that serves a tunnel after \<^verbatim>\<open>gclpr open -oauth\<close> has returned,
  \<^verbatim>\<open>cmd/cli/oauth_worker.go\<close>: how it is started and detached (\<^verbatim>\<open>cmd/cli/oauth_detach_unix.go\<close>,
  \<^verbatim>\<open>cmd/cli/oauth_detach_windows.go\<close>), what it is told over the status connection, and
  how it reports that it is attached.
\<close>

section \<open>Starting the worker\<close>

text \<open>\<^verbatim>\<open>oauthWorkerHandshake\<close>, what the launcher sends over the status connection.\<close>

record oauthWorkerHandshake =
  hs_SessionID :: gostring
  hs_MACKey :: gostring

text \<open>The arguments after the name of the executable.\<close>

definition worker_args :: "options \<Rightarrow> gostring \<Rightarrow> gostring list" where
  "worker_args st statusAddr =
     [''internal-oauth-worker'', ''--port'', Itoa (aPort st), ''--connect-timeout'', Duration_String (aConnectTimeout st),
      ''--timeout'', Duration_String (aIOTimeout st), ''--worker-status-addr'', statusAddr] @
     (if aDebug st then [''--debug''] else [])"

text \<open>
  What \<^verbatim>\<open>launchOAuthWorker\<close> sets of an \<^verbatim>\<open>exec.Cmd\<close>. Its streams are interface values: nil, or a pointer
  to a file, here its name, and the pointer in the interface may be nil itself.
\<close>

datatype writer = NilInterface | OsFile "gostring option"

datatype proc_attr = NoAttr | Setsid | CREATE_NEW_PROCESS_GROUP

record exec_cmd =
  cmd_Path :: gostring
  cmd_Args :: "gostring list"
  cmd_Stdin :: writer
  cmd_Stdout :: writer
  cmd_Stderr :: writer
  SysProcAttr :: proc_attr

definition exec_Command :: "gostring \<Rightarrow> gostring list \<Rightarrow> exec_cmd" where
  "exec_Command path args =
     \<lparr>cmd_Path = path, cmd_Args = path # args, cmd_Stdin = NilInterface, cmd_Stdout = NilInterface, cmd_Stderr = NilInterface,
      SysProcAttr = NoAttr\<rparr>"

text \<open>
  What the process started gets as a stream: \<^verbatim>\<open>os/exec\<close> opens the null device for a nil interface and
  passes the descriptor of a file on, which for a nil file is no descriptor.
\<close>

datatype descriptor = DevNull | NoDescriptor | FileNamed gostring

fun child_stream :: "writer \<Rightarrow> descriptor" where
  "child_stream NilInterface = DevNull"
| "child_stream (OsFile None) = NoDescriptor"
| "child_stream (OsFile (Some f)) = FileNamed f"

definition unix_applyWorkerDetach :: "exec_cmd \<Rightarrow> exec_cmd" where
  "unix_applyWorkerDetach cmd = cmd\<lparr>SysProcAttr := Setsid\<rparr>"

definition windows_applyWorkerDetach :: "exec_cmd \<Rightarrow> exec_cmd" where
  "windows_applyWorkerDetach cmd = cmd\<lparr>SysProcAttr := CREATE_NEW_PROCESS_GROUP\<rparr>"

definition worker_cmd ::
    "(exec_cmd \<Rightarrow> exec_cmd) \<Rightarrow> options \<Rightarrow> gostring \<Rightarrow> gostring \<Rightarrow> gostring option \<Rightarrow> exec_cmd" where
  "worker_cmd applyWorkerDetach st executable statusAddr logFile =
     applyWorkerDetach ((exec_Command executable (worker_args st statusAddr))
       \<lparr>cmd_Stdin := NilInterface, cmd_Stdout := OsFile logFile, cmd_Stderr := OsFile logFile\<rparr>)"

text \<open>\<^verbatim>\<open>json.NewEncoder(conn).Encode\<close>: the value and a line feed.\<close>

definition handshake_Encode :: "oauthWorkerHandshake \<Rightarrow> gostring" where
  "handshake_Encode h = json_Marshal [(''session_id'', hs_SessionID h), (''mac_key'', hs_MACKey h)] @ [Clipboard.LF]"

text \<open>\<^verbatim>\<open>bufio.Reader.ReadString\<close> up to a line feed, on what the connection delivers.\<close>

definition ReadString :: "stream \<Rightarrow> gostring \<times> goerr option" where
  "ReadString s =
     (let txt = string_of (avail s); line = takeWhile (\<lambda>c. c \<noteq> Clipboard.LF) txt
      in if Clipboard.LF \<in> set txt then (line @ [Clipboard.LF], None) else (line, Some (fin s)))"

text \<open>What the goroutine of \<^verbatim>\<open>launchOAuthWorker\<close> puts on its channel for the worker's answer.\<close>

definition worker_answer :: "stream \<Rightarrow> goerr option" where
  "worker_answer s =
     (case ReadString s of
        (line0, err) \<Rightarrow>
          if err \<noteq> None \<and> err \<noteq> Some EOF then err
          else (let line = TrimSpace line0
                in if line = ''OK'' then None
                   else if HasPrefix line ''ERR '' then Some (Errorf (TrimPrefix line ''ERR ''))
                   else Some (Errorf ''oauth worker failed to report readiness'')))"

text \<open>
  The goroutine: \<open>accepted\<close> is the worker's connection, or the error of \<^verbatim>\<open>Accept\<close>. The second
  component is what was sent to the worker.
\<close>

definition worker_exchange ::
    "TunnelOpenResponse \<Rightarrow> bytes \<Rightarrow> (stream \<times> sink) res \<Rightarrow> goerr option \<times> sink option" where
  "worker_exchange resp key accepted =
     (case accepted of
        Inl err \<Rightarrow> (Some err, None)
      | Inr (inp, out) \<Rightarrow>
          (case Write (bytes_of (handshake_Encode \<lparr>hs_SessionID = SessionID resp, hs_MACKey = hex_EncodeToString key\<rparr>)) out of
             (Some err, out') \<Rightarrow> (Some err, Some out')
           | (None, out') \<Rightarrow> (worker_answer inp, Some out')))"

text \<open>
  \<^verbatim>\<open>launchOAuthWorker\<close>: the executable's path, the status listener, the log file and the start
  of the process may fail; \<open>Start\<close> gets the command. \<open>timely\<close> says whether the goroutine
  was done before the connect timeout.
\<close>

definition launchOAuthWorker ::
    "options \<Rightarrow> gostring res \<Rightarrow> gostring res \<Rightarrow> gostring res \<Rightarrow> (exec_cmd \<Rightarrow> exec_cmd) \<Rightarrow> (exec_cmd \<Rightarrow> goerr option) \<Rightarrow>
     (stream \<times> sink) res \<Rightarrow> bool \<Rightarrow> TunnelOpenResponse \<Rightarrow> bytes \<Rightarrow> goerr option" where
  "launchOAuthWorker st Executable Listen CreateTemp applyWorkerDetach Start accepted timely resp key =
     (case Executable of
        Inl err \<Rightarrow> Some err
      | Inr executable \<Rightarrow>
          (case Listen of
             Inl err \<Rightarrow> Some err
           | Inr statusAddr \<Rightarrow>
               (case (if aDebug st then map_sum id Some CreateTemp else Inr None) of
                  Inl err \<Rightarrow> Some err
                | Inr logFile \<Rightarrow>
                    (case Start (worker_cmd applyWorkerDetach st executable statusAddr logFile) of
                       Some err \<Rightarrow> Some err
                     | None \<Rightarrow>
                         if timely then fst (worker_exchange resp key accepted)
                         else Some (Errorf ''oauth worker startup timed out'')))))"

section \<open>The worker\<close>

text \<open>
  \<^verbatim>\<open>json.NewDecoder(conn).Decode(&handshake)\<close> takes the first value that arrives; input that is
  no value is one error here, whether it is malformed or ends too early.
\<close>

definition handshake_Decode :: "stream \<Rightarrow> oauthWorkerHandshake res" where
  "handshake_Decode s =
     (let txt = string_of (avail s)
      in if skip txt = [] then Inl (fin s)
         else case json_value (2 * length txt + 1) 0 txt of
           None \<Rightarrow> Inl (Errorf ''json: syntax error'')
         | Some (JNull, _) \<Rightarrow> Inr \<lparr>hs_SessionID = [], hs_MACKey = []\<rparr>
         | Some (JObject ms, _) \<Rightarrow>
             (case (store_members ''session_id'' [] None ms, store_members ''mac_key'' [] None ms) of
                ((sid, None), (mac, None)) \<Rightarrow> Inr \<lparr>hs_SessionID = sid, hs_MACKey = mac\<rparr>
              | _ \<Rightarrow> Inl json_type_error)
         | Some _ \<Rightarrow> Inl json_type_error)"

text \<open>The closure \<^verbatim>\<open>report\<close>: a line on the status connection, if there is one; errors are ignored.\<close>

definition report :: "gostring \<Rightarrow> sink option \<Rightarrow> sink option" where
  "report msg out = map_option (\<lambda>w. snd (Write (bytes_of (msg @ [Clipboard.LF])) w)) out"

definition report_error :: "goerr \<Rightarrow> sink option \<Rightarrow> 'a res \<times> sink option" where
  "report_error err out = (Inl err, report (''ERR '' @ err_Error err) out)"

text \<open>
  The first half of \<^verbatim>\<open>runOAuthWorker\<close>: connect to the launcher, read the handshake and check it.
  A launcher that cannot be reached leaves the handshake empty.
\<close>

definition worker_setup ::
    "options \<Rightarrow> (gostring \<Rightarrow> (stream \<times> sink) res) \<Rightarrow> (TunnelOpenResponse \<times> bytes) res \<times> sink option" where
  "worker_setup st dialStatus =
     (let status = (if aWorkerStatusAddr st = [] then None
                    else (case dialStatus (aWorkerStatusAddr st) of Inl err \<Rightarrow> None | Inr c \<Rightarrow> Some c));
          out = map_option snd status
      in case (case status of None \<Rightarrow> Inr \<lparr>hs_SessionID = [], hs_MACKey = []\<rparr> | Some (inp, _) \<Rightarrow> handshake_Decode inp) of
           Inl err \<Rightarrow> report_error (Wrapf ''oauth worker failed to read startup payload: '' err) out
         | Inr handshake \<Rightarrow>
             if hs_SessionID handshake = [] then report_error (Errorf ''oauth worker session id is required'') out
             else if hs_MACKey handshake = [] then report_error (Errorf ''oauth worker mac key is required'') out
             else (case hex_DecodeString (hs_MACKey handshake) of
                     Inl err \<Rightarrow> report_error (Wrapf ''invalid oauth worker mac key: '' err) out
                   | Inr key \<Rightarrow>
                       (Inr (\<lparr>SessionID = hs_SessionID handshake, OpenURL = [], resp_ListenPort = 0, ListenAddrs = [], AttachTimeout = aConnectTimeout st,
                              IdleTimeout = (if aIOTimeout st \<le> 0 then 60 * second else aIOTimeout st)\<rparr>, key), out)))"

text \<open>
  The second half: the tunnel client, which reports \<^verbatim>\<open>OK\<close> once its attach frame is sent, and
  whose goroutines then end with \<open>outcome\<close>. The client is the one the steps of \<open>cstep\<close> start
  from.
\<close>

definition runOAuthWorker ::
    "options \<Rightarrow> (gostring \<Rightarrow> (stream \<times> sink) res) \<Rightarrow> (stream \<times> sink) res \<Rightarrow> goerr option option
     \<Rightarrow> goerr option \<times> sink option \<times> tunnelClient option" where
  "runOAuthWorker st dialStatus dialled outcome =
     (case worker_setup st dialStatus of
        (Inl err, out) \<Rightarrow> (Some err, out, None)
      | (Inr (resp, key), out) \<Rightarrow>
          (case start_attach dialled (SessionID resp) key None of
             (Some err, c) \<Rightarrow> (Some err, out, c)
           | (None, c) \<Rightarrow> (start_result outcome, report ''OK'' out, c)))"

section \<open>Properties\<close>



text \<open>
  The worker's output: with \<^verbatim>\<open>-debug\<close> it goes to the log file; without it the launcher means to discard
  it, but assigns a nil file to the interface fields, so that the worker is started without a
  standard output and error instead of with the null device.
\<close>

lemma worker_output:
  assumes "detach \<in> {unix_applyWorkerDetach, windows_applyWorkerDetach}"
  shows "child_stream (cmd_Stdout (worker_cmd detach st exe saddr (Some f))) = FileNamed f"
    and "child_stream (cmd_Stdout (worker_cmd detach st exe saddr None)) = NoDescriptor"
    and "child_stream (cmd_Stderr (worker_cmd detach st exe saddr None)) = NoDescriptor"
    and "child_stream (cmd_Stdin (worker_cmd detach st exe saddr logFile)) = DevNull"
    and "cmd_Args (worker_cmd detach st exe saddr logFile) = exe # worker_args st saddr"
    and "SysProcAttr (worker_cmd detach st exe saddr logFile) \<noteq> NoAttr"
  using assms by (auto simp: worker_cmd_def exec_Command_def unix_applyWorkerDetach_def windows_applyWorkerDetach_def)

text \<open>
  Under the name of an alias the worker would not be one: the command line reads as a request to
  open an address called \<^verbatim>\<open>internal-oauth-worker\<close>.
\<close>

theorem worker_under_alias:
  assumes "alias_command exe = Some cmdOpen"
    and "- (2 ^ 63) \<le> aPort st" "aPort st < 2 ^ 63" "- (2 ^ 63) \<le> aConnectTimeout st" "aConnectTimeout st < 2 ^ 63"
    and "- (2 ^ 63) \<le> aIOTimeout st" "aIOTimeout st < 2 ^ 63"
  shows "\<exists>st'. processCommandLine Getenv stdin (exe # worker_args st saddr) default_options = (Inr cmdOpen, st') \<and>
     aOAuth st' \<and> aData st' = ''internal-oauth-worker''"
proof -
  let ?st = "if envDebugEnabled Getenv then default_options\<lparr>aDebug := True\<rparr> else default_options"
  have v: "ParseInt0 (Itoa (aPort st)) = Inr (aPort st)"
    "ParseDuration (Duration_String (aConnectTimeout st)) = Inr (aConnectTimeout st)"
    "ParseDuration (Duration_String (aIOTimeout st)) = Inr (aIOTimeout st)"
    using assms by (simp_all add: ParseInt0_Itoa ParseDuration_String)
  have p: "cli_Parse (worker_args st saddr) default_options = (None, worker_args st saddr, default_options)"
    unfolding worker_args_def append_Cons by (rule cli_Parse_positional) (simp add: positional_def)
  have "\<exists>st'. arg_loop (worker_args st saddr) [] ?st = (None, ''internal-oauth-worker'', st') \<and> \<not> aHelp st' \<and> \<not> aTunnel st' \<and> \<not> aOAuth st'"
    by (simp add: worker_args_def flag_parseOne_def Cut_def cli_flag_def cli_set_def v ParseBool_def)
  then obtain st' where "arg_loop (worker_args st saddr) [] ?st = (None, ''internal-oauth-worker'', st')" "\<not> aHelp st'" "\<not> aTunnel st'" "\<not> aOAuth st'"
    by blast
  with assms(1) p show ?thesis
    by (simp add: processCommandLine_def getCommand_def Let_def del: arg_loop.simps)
qed

lemma handshake_Decode_Encode:
  assumes "valid_utf8 (hs_SessionID h)" "valid_utf8 (hs_MACKey h)"
  shows "handshake_Decode \<lparr>avail = bytes_of (handshake_Encode h) @ r, fin = e\<rparr> = Inr h"
proof -
  let ?ms = "[(''session_id'', hs_SessionID h), (''mac_key'', hs_MACKey h)]"
  let ?txt = "json_Marshal ?ms @ Clipboard.LF # string_of r"
  have "list_all json_safe ''session_id''" "list_all json_safe ''mac_key''" by code_simp+
  then have "\<forall>(k, v) \<in> set ?ms. valid_utf8 k \<and> valid_utf8 v"
    using assms valid_utf8_safe by simp
  note v = json_read_Marshal [OF _ this, of "Clipboard.LF # string_of r"]
  have sk: "skip ?txt \<noteq> []"
    by (simp add: json_Marshal_def json_space_def)
  have t: "string_of (bytes_of (handshake_Encode h) @ r) = ?txt"
    by (simp add: handshake_Encode_def)
  show ?thesis
    unfolding handshake_Decode_def Let_def stream.simps t if_not_P [OF sk]
    using v by (simp add: EqualFold_def ToLower_def ascii_lower_def del: json_value.simps)
qed

lemma valid_utf8_hex: "valid_utf8 (hex_EncodeToString b)"
  by (rule valid_utf8_ascii) (auto simp: list_all_iff dest: hex_EncodeToString_chars)

lemma hex_EncodeToString_Nil [simp]: "hex_EncodeToString b = [] \<longleftrightarrow> b = []"
  by (cases b) auto

lemma worker_setup_handshake:
  assumes "valid_utf8 sid" "sid \<noteq> []" "key \<noteq> []" "aWorkerStatusAddr st \<noteq> []"
    and "dialStatus (aWorkerStatusAddr st) =
      Inr (\<lparr>avail = bytes_of (handshake_Encode \<lparr>hs_SessionID = sid, hs_MACKey = hex_EncodeToString key\<rparr>) @ r, fin = e\<rparr>, out)"
  shows "worker_setup st dialStatus =
     (Inr (\<lparr>SessionID = sid, OpenURL = [], resp_ListenPort = 0, ListenAddrs = [], AttachTimeout = aConnectTimeout st,
            IdleTimeout = (if aIOTimeout st \<le> 0 then 60 * second else aIOTimeout st)\<rparr>, key), Some out)"
  using assms by (simp add: worker_setup_def handshake_Decode_Encode valid_utf8_hex)

text \<open>What the launcher makes of the worker's line.\<close>

lemma worker_answer_lines:
  "worker_answer \<lparr>avail = bytes_of (''OK'' @ Clipboard.LF # t), fin = e\<rparr> = None"
  "prefix q (''ERR '' @ t) \<Longrightarrow> worker_answer \<lparr>avail = bytes_of q, fin = e\<rparr> \<noteq> None"
proof -
  have "TrimSpace (''OK'' @ [Clipboard.LF]) = ''OK''" by code_simp
  then show "worker_answer \<lparr>avail = bytes_of (''OK'' @ Clipboard.LF # t), fin = e\<rparr> = None"
    by (simp add: worker_answer_def ReadString_def)
  assume q: "prefix q (''ERR '' @ t)"
  show "worker_answer \<lparr>avail = bytes_of q, fin = e\<rparr> \<noteq> None"
  proof (cases q)
    case Nil
    have "TrimSpace [] = []" by code_simp
    with Nil show ?thesis by (simp add: worker_answer_def ReadString_def HasPrefix_def)
  next
    case (Cons c q')
    with q have "c = CHR ''E''" by simp
    then have p: "prefix (TrimSpace (CHR ''E'' # x)) (CHR ''E'' # x)" for x
      by (intro TrimSpace_prefix) (simp_all add: ascii_space_def)
    have "TrimSpace (CHR ''E'' # x) \<noteq> ''OK''" for x
    proof
      assume "TrimSpace (CHR ''E'' # x) = ''OK''"
      with p [of x] show False by simp
    qed
    with Cons \<open>c = CHR ''E''\<close> show ?thesis
      by (auto simp: worker_answer_def ReadString_def Let_def split: prod.split)
  qed
qed

text \<open>
  C21. The worker serves the session it was launched for: when the handshake the launcher
  writes arrives at the worker, the worker attaches with that session and that key; and from
  what the worker then wrote the launcher concludes that the worker is up exactly when the
  attach frame was sent.
\<close>

theorem worker_attaches_session:
  assumes "worker_exchange resp key (Inr (inp, \<lparr>written = [], room = None, werr = we, dead = False\<rparr>)) = (answer, Some sent)"
    and "valid_utf8 (SessionID resp)" "SessionID resp \<noteq> []" "key \<noteq> []" "aWorkerStatusAddr st \<noteq> []"
    and "dialStatus (aWorkerStatusAddr st) =
      Inr (\<lparr>avail = written sent @ r, fin = e\<rparr>, \<lparr>written = [], room = None, werr = we, dead = False\<rparr>)"
  shows "\<exists>status. runOAuthWorker st dialStatus dialled outcome =
     (case start_attach dialled (SessionID resp) key None of
        (Some err, c) \<Rightarrow> (Some err, Some status, c)
      | (None, c) \<Rightarrow> (start_result outcome, Some status, c)) \<and>
     (worker_answer \<lparr>avail = written status, fin = EOF\<rparr> = None \<longleftrightarrow> fst (start_attach dialled (SessionID resp) key None) = None)"
proof -
  let ?out = "\<lparr>written = [], room = None, werr = we, dead = False\<rparr>"
  have sent: "written sent = bytes_of (handshake_Encode \<lparr>hs_SessionID = SessionID resp, hs_MACKey = hex_EncodeToString key\<rparr>)"
    using assms(1) by (auto simp: worker_exchange_def Write_def)
  note w = worker_setup_handshake [OF assms(2-5), of dialStatus r e ?out, folded sent, OF assms(6)]
  have ok: "worker_answer \<lparr>avail = bytes_of (''OK'' @ [Clipboard.LF]), fin = EOF\<rparr> = None"
    by (rule worker_answer_lines(1))
  have no: "worker_answer \<lparr>avail = [], fin = EOF\<rparr> \<noteq> None"
    using worker_answer_lines(2) [of "[]"] by simp
  show ?thesis
  proof (cases "start_attach dialled (SessionID resp) key None")
    case (Pair r c)
    then show ?thesis
      using ok no by (cases r) (auto simp: runOAuthWorker_def w report_def Write_def)
  qed
qed

text \<open>A launcher with a session, and the worker it starts.\<close>

definition example_resp :: TunnelOpenResponse where
  "example_resp = \<lparr>SessionID = ''ab'', OpenURL = [], resp_ListenPort = 0, ListenAddrs = [], AttachTimeout = 0, IdleTimeout = 0\<rparr>"

definition example_launched :: options where
  "example_launched = default_options\<lparr>aWorkerStatusAddr := ''127.0.0.1:5''\<rparr>"

definition example_status :: "gostring \<Rightarrow> (stream \<times> sink) res" where
  "example_status a = Inr (\<lparr>avail = bytes_of (handshake_Encode \<lparr>hs_SessionID = ''ab'', hs_MACKey = hex_EncodeToString [7]\<rparr>) @ [], fin = EOF\<rparr>, fresh_sink)"

lemma start_attach_room: "fst (start_attach (Inr (inp, fresh_sink)) sid key None) = None"
  by (simp add: start_attach_def Let_def cl_writeFrame_room newTunnelClient_def newTunnelEndpoint_def)

theorem worker_attaches_session_witness:
  "\<exists>status. runOAuthWorker example_launched example_status (Inr (\<lparr>avail = [], fin = EOF\<rparr>, fresh_sink)) (Some (Some EOF)) =
     (None, Some status, snd (start_attach (Inr (\<lparr>avail = [], fin = EOF\<rparr>, fresh_sink)) ''ab'' [7] None)) \<and>
     worker_answer \<lparr>avail = written status, fin = EOF\<rparr> = None"
proof -
  let ?conn = "Inr (\<lparr>avail = [], fin = EOF\<rparr>, fresh_sink) :: (stream \<times> sink) res"
  let ?ex = "worker_exchange example_resp [7] ?conn"
  have ex: "?ex = (fst ?ex, Some (the (snd ?ex)))"
    "written (the (snd ?ex)) = bytes_of (handshake_Encode \<lparr>hs_SessionID = ''ab'', hs_MACKey = hex_EncodeToString [7]\<rparr>)"
    by (simp_all add: worker_exchange_def Write_def example_resp_def)
  have "valid_utf8 ''ab''" by (rule valid_utf8_ascii) code_simp
  moreover have "fst (start_attach ?conn ''ab'' [7] None) = None"
    by (rule start_attach_room)
  moreover have "example_status (aWorkerStatusAddr example_launched) =
      Inr (\<lparr>avail = written (the (snd ?ex)) @ [], fin = EOF\<rparr>, fresh_sink)"
    by (simp only: example_status_def ex(2))
  ultimately show ?thesis
    using worker_attaches_session [OF ex(1), of example_launched example_status "[]" EOF ?conn "Some (Some EOF)"]
    by (cases "start_attach ?conn ''ab'' [7] None") (simp add: example_resp_def example_launched_def start_result_def)
qed

text \<open>The two ways \<open>worker_setup\<close> ends when the launcher was reached.\<close>

lemma worker_setup_ends:
  assumes "dialStatus (aWorkerStatusAddr st) = Inr (inp, out0)" and "worker_setup st dialStatus = (r, Some out)"
  obtains (failed) err where "r = Inl err" "Some out = report (''ERR '' @ err_Error err) (Some out0)"
    | (ready) h resp key where "handshake_Decode inp = Inr h" "hex_DecodeString (hs_MACKey h) = Inr key" "r = Inr (resp, key)"
        "SessionID resp = hs_SessionID h" "out = out0"
proof -
  have "aWorkerStatusAddr st \<noteq> []"
    using assms(2) by (auto simp: worker_setup_def report_error_def report_def)
  then show thesis
    using assms that by (auto simp: worker_setup_def report_error_def Let_def split: sum.splits if_splits)
qed

lemma Write_text_prefix:
  "\<exists>q. prefix q m \<and> written (snd (Write (bytes_of m) \<lparr>written = [], room = rm, werr = we, dead = False\<rparr>)) = bytes_of q"
  by (cases rm) (auto simp: Write_def bytes_of_def take_map intro: exI [of _ "take _ m"] take_is_prefix)

text \<open>
  The launcher never takes a worker for ready that is not: whatever the handshake, if what
  the worker wrote on its status connection reads as success, then the worker had connected to
  the server and sent its attach frame.
\<close>

theorem launcher_believes_attached_worker:
  assumes "dialStatus (aWorkerStatusAddr st) = Inr (inp, \<lparr>written = [], room = rm, werr = we, dead = False\<rparr>)"
    and "runOAuthWorker st dialStatus dialled outcome = (result, Some status, c)"
    and "worker_answer \<lparr>avail = written status, fin = e\<rparr> = None"
  shows "\<exists>h key input output client. handshake_Decode inp = Inr h \<and> hex_DecodeString (hs_MACKey h) = Inr key \<and>
     dialled = Inr (input, output) \<and> c = Some client \<and>
     cl_writeFrame \<lparr>frame_type = tunnelFrameAttach, StreamID = 0, Payload = bytes_of (hs_SessionID h)\<rparr>
       (newTunnelClient (newTunnelEndpoint input output key)) = (None, client)"
proof -
  let ?out = "\<lparr>written = [], room = rm, werr = we, dead = False\<rparr>"
  have silent: "written status \<noteq> []"
    using assms(3) worker_answer_lines(2) [of "[]" "[]" e] by auto
  obtain r out where su: "worker_setup st dialStatus = (r, Some out)"
    using assms(2) by (cases "worker_setup st dialStatus")
      (auto simp: runOAuthWorker_def report_def split: sum.splits prod.splits option.splits)
  from assms(1) su show ?thesis
  proof (cases rule: worker_setup_ends)
    case (failed err)
    then have "status = snd (Write (bytes_of ((''ERR '' @ err_Error err) @ [Clipboard.LF])) ?out)"
      using assms(2) su by (simp add: runOAuthWorker_def report_def)
    then obtain q where "prefix q (''ERR '' @ err_Error err @ [Clipboard.LF])" "written status = bytes_of q"
      using Write_text_prefix [of "(''ERR '' @ err_Error err) @ [Clipboard.LF]" rm we] by auto
    with worker_answer_lines(2) [of q "err_Error err @ [Clipboard.LF]" e] assms(3) show ?thesis by simp
  next
    case (ready h resp key)
    have "fst (start_attach dialled (hs_SessionID h) key None) = None"
      using assms(2) su ready silent by (auto simp: runOAuthWorker_def split: prod.splits option.splits)
    with assms(2) su ready show ?thesis
      by (auto simp: runOAuthWorker_def start_attach_def Let_def split: prod.splits option.splits sum.splits)
  qed
qed

theorem launcher_believes_attached_worker_witness:
  "\<exists>h key input output client. handshake_Decode (fst (projr (example_status []))) = Inr h \<and> hex_DecodeString (hs_MACKey h) = Inr key \<and>
     (\<lparr>avail = [], fin = EOF\<rparr>, fresh_sink) = (input, output) \<and>
     cl_writeFrame \<lparr>frame_type = tunnelFrameAttach, StreamID = 0, Payload = bytes_of (hs_SessionID h)\<rparr>
       (newTunnelClient (newTunnelEndpoint input output key)) = (None, client)"
proof -
  let ?conn = "Inr (\<lparr>avail = [], fin = EOF\<rparr>, fresh_sink) :: (stream \<times> sink) res"
  have a: "fst (start_attach ?conn ''ab'' [7] None) = None"
    by (rule start_attach_room)
  have u: "valid_utf8 ''ab''" by (rule valid_utf8_ascii) code_simp
  obtain r c where "runOAuthWorker example_launched example_status ?conn None =
      (r, report ''OK'' (Some fresh_sink), c)"
    using a worker_setup_handshake [OF u, of "[7]" example_launched example_status "[]" EOF fresh_sink]
    by (cases "start_attach ?conn ''ab'' [7] None") (simp add: runOAuthWorker_def example_launched_def example_status_def)
  moreover have "worker_answer \<lparr>avail = bytes_of (''OK'' @ [Clipboard.LF]), fin = EOF\<rparr> = None"
    by (rule worker_answer_lines(1))
  ultimately show ?thesis
    using launcher_believes_attached_worker [of example_status example_launched "fst (projr (example_status []))" None EOF ?conn None r]
    by (fastforce simp: report_def Write_def example_status_def)
qed

end
