(* ===== verification/Targets.thy ===== *)
theory Targets
  imports Tunnel
begin

text \<open>
  The tunnel targets the client asks for, \<^verbatim>\<open>cmd/cli/tunnel_targets.go\<close> and
  \<^verbatim>\<open>cmd/cli/oauth_targets.go\<close>: from the URL to open, or from the \<^verbatim>\<open>redirect_uri\<close> inside it, to the
  listener the server shall bind and the local address to dial. What the client builds is
  shown to be what the server accepts.
\<close>

section \<open>Building targets\<close>

definition parseTunnelTarget :: "gostring \<Rightarrow> url res" where
  "parseTunnelTarget raw = ParseTunnelURL raw"

definition effectiveTunnelPort :: "url \<Rightarrow> int res" where
  "effectiveTunnelPort parsed =
     (if Port parsed \<noteq> [] then
        (case Sscanf_d (Port parsed) of
           Inl err \<Rightarrow> Inl (Errorf (''invalid tunnel port '' @ Quote (Port parsed)))
         | Inr port \<Rightarrow>
             if port < 1 \<or> port > 65535 then Inl (Errorf (''invalid tunnel port '' @ Quote (Port parsed)))
             else Inr port)
      else if Scheme parsed = ''http'' then Inr 80
      else if Scheme parsed = ''https'' then Inr 443
      else Inl (Errorf ''tunnel target must use http or https''))"

definition buildTunnelTargetsFromURL :: "gostring \<Rightarrow> (TunnelTarget list \<times> url) res" where
  "buildTunnelTargetsFromURL raw =
     (case parseTunnelTarget raw of
        Inl err \<Rightarrow> Inl err
      | Inr parsed \<Rightarrow>
          (case effectiveTunnelPort parsed of
             Inl err \<Rightarrow> Inl err
           | Inr port \<Rightarrow>
               (let host = Hostname parsed
                in if host = ''localhost''
                   then Inr ([\<lparr>ListenHost = ''127.0.0.1'', ListenPort = port, DialAddr = JoinHostPort ''127.0.0.1'' (Itoa port)\<rparr>,
                              \<lparr>ListenHost = ''::1'', ListenPort = port, DialAddr = JoinHostPort ''::1'' (Itoa port)\<rparr>], parsed)
                   else Inr ([\<lparr>ListenHost = host, ListenPort = port, DialAddr = JoinHostPort host (Itoa port)\<rparr>], parsed))))"

definition buildTunnelTargetsFromOAuthURL :: "gostring \<Rightarrow> TunnelTarget list res" where
  "buildTunnelTargetsFromOAuthURL raw =
     (case Parse raw of
        Inl err \<Rightarrow> Inl (Wrapf ''invalid oauth URL: '' err)
      | Inr parsed \<Rightarrow>
          (let redirectValue = Query_Get (Query parsed) ''redirect_uri''
           in if redirectValue = [] then Inl (Errorf ''oauth URL is missing redirect_uri'')
              else case ParseTunnelURL redirectValue of
                     Inl err \<Rightarrow> Inl (Wrapf ''oauth redirect_uri is invalid: '' err)
                   | Inr redirectURL \<Rightarrow>
                       (case effectiveTunnelPort redirectURL of
                          Inl err \<Rightarrow> Inl err
                        | Inr port \<Rightarrow>
                            (let host = Hostname redirectURL
                             in if host = ''localhost''
                                then Inr [\<lparr>ListenHost = ''localhost'', ListenPort = port, DialAddr = JoinHostPort ''127.0.0.1'' (Itoa port)\<rparr>]
                                else Inr [\<lparr>ListenHost = host, ListenPort = port, DialAddr = JoinHostPort host (Itoa port)\<rparr>]))))"

section \<open>The characters of an address\<close>

definition ip_char :: "char \<Rightarrow> bool" where
  "ip_char c \<longleftrightarrow> from_hex_char c \<noteq> None \<or> c = CHR ''.'' \<or> c = CHR '':''"

lemma is_digit_hex: "is_digit c \<Longrightarrow> from_hex_char c \<noteq> None"
  by (auto simp: is_digit_def from_hex_char_def Let_def)

lemma parseIPv4Fields_chars:
  assumes "parseIPv4Fields s = Some b"
  shows "list_all ip_char s"
proof -
  have "list_all is_digit (concat (SplitOn (CHR ''.'') s))"
    using assms by (auto simp: parseIPv4Fields_def ipv4_field_def split: list.splits option.splits if_splits)
  then have "\<forall>c \<in> set s. c \<noteq> CHR ''.'' \<longrightarrow> is_digit c"
    by (auto simp: concat_SplitOn_chars list_all_iff)
  then show ?thesis
    using is_digit_hex by (auto simp: list_all_iff ip_char_def)
qed

lemma hex_run_chars: "list_all ip_char (hex_run s)"
  by (auto simp: hex_run_def list_all_iff ip_char_def dest: set_takeWhileD)

lemma ipv6_groups_chars:
  "ipv6_groups n ip ell s = Some (ip', ell', []) \<Longrightarrow> list_all ip_char s"
proof (induction n ip ell s rule: ipv6_groups.induct)
  case (2 n ip ell s)
  define g where "g = hex_run s"
  have colon: "ip_char CHR '':''" by (simp add: ip_char_def)
  have s: "s = g @ drop (length g) s"
    unfolding g_def hex_run_def by (metis append_take_drop_id takeWhile_eq_take)
  have g: "list_all ip_char g" unfolding g_def by (rule hex_run_chars)
  show ?case
  proof (cases "HasPrefix (drop (length g) s) ''.''")
    case True
    with "2.prems" show ?thesis
      by (auto simp: g_def [symmetric] Let_def split: if_splits dest: parseIPv4Fields_chars)
  next
    case False
    show ?thesis
    proof (cases "drop (length g) s")
      case Nil
      with s g show ?thesis by simp
    next
      case (Cons c t)
      from "2.prems" False Cons have c: "c = CHR '':''" "t \<noteq> []"
        by (auto simp: g_def [symmetric] Let_def split: if_splits)
      have "list_all ip_char t"
        using "2.IH" "2.prems" False Cons c
        by (cases t) (auto simp: g_def [symmetric] Let_def colon split: if_splits)
      then have "list_all ip_char (g @ c # t)" using g c colon by simp
      with s Cons show ?thesis by simp
    qed
  qed
qed simp

lemma ParseIP_chars:
  assumes "ParseIP s = Some ip"
  shows "list_all ip_char s"
proof -
  consider b where "parseIPv4Fields s = Some b" | b where "parseIPv6 s = Some (V6 b [])"
    using assms by (auto simp: ParseIP_def ParseAddr_def parseIPv6_def Let_def
        split: option.splits ipaddr.splits if_splits prod.splits list.splits)
  then show ?thesis
  proof cases
    case 1
    then show ?thesis by (rule parseIPv4Fields_chars)
  next
    case 2
    obtain h z has where cut: "Cut (CHR ''%'') s = (h, z, has)" by (metis prod_cases3)
    from 2 cut have z: "z = []" "\<not> has"
      by (auto simp: parseIPv6_def Let_def split: if_splits option.splits prod.splits list.splits)
    with cut have h: "h = s" by (auto simp: Cut_def Let_def split: if_splits)
    have c: "ip_char CHR '':''" by (simp add: ip_char_def)
    show ?thesis
    proof (cases "HasPrefix h ''::''")
      case True
      then obtain r where r: "h = ''::'' @ r" by (auto simp: HasPrefix_def prefix_def)
      have "list_all ip_char r"
        using 2 cut z True r by (auto simp: parseIPv6_def Let_def split: if_splits option.splits prod.splits list.splits dest: ipv6_groups_chars)
      with r h c show ?thesis by auto
    next
      case False
      with 2 cut z h show ?thesis
        by (auto simp: parseIPv6_def Let_def split: if_splits option.splits prod.splits list.splits dest: ipv6_groups_chars)
    qed
  qed
qed

lemma loopback_host_no_brackets:
  assumes "isLoopbackTunnelHost h" and "c \<in> {CHR ''['', CHR '']''}"
  shows "c \<notin> set h"
proof
  assume "c \<in> set h"
  moreover have "ascii_lower c = c" using assms(2) by (auto simp: ascii_lower_def)
  ultimately have low: "c \<in> set (ToLower h)" unfolding ToLower_def by (metis image_eqI list.set_map)
  have "c \<in> set (TrimSuffix (ToLower h) ''.'')"
  proof (cases "HasSuffix (ToLower h) ''.''")
    case True
    then obtain z where "rev (ToLower h) = ''.'' @ z" by (auto simp: HasSuffix_def prefix_def)
    then have "rev (rev (ToLower h)) = rev z @ ''.''" by simp
    then obtain r where "ToLower h = r @ ''.''" by auto
    with low assms(2) True show ?thesis by (auto simp: TrimSuffix_def)
  qed (use low in \<open>simp add: TrimSuffix_def\<close>)
  moreover have "TrimSuffix (ToLower h) ''.'' = ''localhost'' \<or> list_all ip_char (TrimSuffix (ToLower h) ''.'')"
    using assms(1) ParseIP_chars by (auto simp: isLoopbackTunnelHost_def Let_def split: option.splits if_splits)
  ultimately show False
    using assms(2) by (auto simp: list_all_iff ip_char_def from_hex_char_def)
qed

lemma Port_digits: "list_all is_digit (Port u)"
  by (auto simp: Port_def url_splitHostPort_def split: option.split)

section \<open>The client and the server agree\<close>

lemma ParseTunnelURL_InrD:
  assumes "ParseTunnelURL raw = Inr u"
  shows "isLoopbackTunnelHost (Hostname u)" and "ToLower (Scheme u) = Scheme u"
    and "Scheme u = ''http'' \<or> Scheme u = ''https''"
proof -
  from assms have u: "url_parse raw True = Inr u" "ToLower (Scheme u) = ''http'' \<or> ToLower (Scheme u) = ''https''"
    and "isLoopbackTunnelHost (Hostname u)"
    by (auto simp: ParseTunnelURL_def ParseRequestURI_def Let_def split: sum.splits if_splits)
  then show "isLoopbackTunnelHost (Hostname u)" by simp
  show "ToLower (Scheme u) = Scheme u"
    using url_parse_Scheme [OF u(1)] by (auto simp: ToLower_def)
  with u(2) show "Scheme u = ''http'' \<or> Scheme u = ''https''" by simp
qed

lemma effective_port_cases:
  assumes "ParseTunnelURL raw = Inr u"
  shows "(\<exists>p. effectiveTunnelPort u = Inr p \<and> tunnelEffectivePort u = Inr p \<and> 1 \<le> p \<and> p \<le> 65535) \<or>
         (\<exists>e e'. effectiveTunnelPort u = Inl e \<and> tunnelEffectivePort u = Inl e')"
proof (cases "Port u = []")
  case True
  then show ?thesis
    using ParseTunnelURL_InrD(2,3) [OF assms] by (auto simp: effectiveTunnelPort_def tunnelEffectivePort_def)
next
  case False
  then have "Sscanf_d (Port u) = Atoi (Port u)"
    by (simp add: Sscanf_d_digits Port_digits)
  with False show ?thesis
    by (cases "Atoi (Port u)") (auto simp: effectiveTunnelPort_def tunnelEffectivePort_def)
qed

text \<open>
  The two implementations of the effective port agree: on a URL that passed the tunnel
  check, the client's \<^verbatim>\<open>effectiveTunnelPort\<close> and the server's \<^verbatim>\<open>tunnelEffectivePort\<close> give the
  same port, or both fail.
\<close>

theorem effectiveTunnelPort_agrees:
  assumes "ParseTunnelURL raw = Inr u"
  shows "(\<exists>p. effectiveTunnelPort u = Inr p \<and> tunnelEffectivePort u = Inr p \<and> 1 \<le> p \<and> p \<le> 65535) \<or>
         (\<exists>e e'. effectiveTunnelPort u = Inl e \<and> tunnelEffectivePort u = Inl e')"
  using assms by (rule effective_port_cases)

theorem effectiveTunnelPort_agrees_witness:
  "\<exists>u p. ParseTunnelURL ''http://localhost/'' = Inr u \<and> effectiveTunnelPort u = Inr p \<and> tunnelEffectivePort u = Inr p"
proof -
  have "\<not> isl (ParseTunnelURL ''http://localhost/'')" by code_simp
  then obtain u where u: "ParseTunnelURL ''http://localhost/'' = Inr u" by (cases "ParseTunnelURL ''http://localhost/''") auto
  moreover have "\<not> isl (effectiveTunnelPort (projr (ParseTunnelURL ''http://localhost/'')))" by code_simp
  ultimately show ?thesis
    using effectiveTunnelPort_agrees [OF u] by auto
qed

text \<open>The one target of a loopback host other than \<^verbatim>\<open>localhost\<close> spelt exactly so.\<close>

lemma target_valid:
  assumes "isLoopbackTunnelHost host" and "isLoopbackTunnelHost dialHost" and "1 \<le> port" "port \<le> 65535"
  shows "validateTunnelTarget \<lparr>ListenHost = host, ListenPort = port, DialAddr = JoinHostPort dialHost (Itoa port)\<rparr> = None"
proof -
  have "SplitHostPort (JoinHostPort dialHost (Itoa port)) = Inr (dialHost, Itoa port)"
    using loopback_host_no_brackets [OF assms(2)] Itoa_nonneg_digits [of port] assms(3)
    by (intro SplitHostPort_JoinHostPort) auto
  with assms show ?thesis by (simp add: validateTunnelTarget_def)
qed

definition good_target :: "TunnelTarget \<Rightarrow> bool" where
  "good_target t \<longleftrightarrow> validateTunnelTarget t = None \<and> is_ok (tunnelListenTargets (ListenHost t) (ListenPort t)) \<and>
     (\<exists>h. SplitHostPort (DialAddr t) = Inr (h, Itoa (ListenPort t)) \<and> isLoopbackTunnelHost h)"

lemma good_targetI:
  assumes "isLoopbackTunnelHost host" and "isLoopbackTunnelHost dialHost" and "1 \<le> port" "port \<le> 65535"
  shows "good_target \<lparr>ListenHost = host, ListenPort = port, DialAddr = JoinHostPort dialHost (Itoa port)\<rparr>"
proof -
  have "SplitHostPort (JoinHostPort dialHost (Itoa port)) = Inr (dialHost, Itoa port)"
    using loopback_host_no_brackets [OF assms(2)] Itoa_nonneg_digits [of port] assms(3)
    by (intro SplitHostPort_JoinHostPort) auto
  moreover have "is_ok (tunnelListenTargets host port)"
    using assms(1) by (auto simp: tunnelListenTargets_def isLoopbackTunnelHost_def Let_def split: option.splits if_splits)
  ultimately show ?thesis
    using assms(2) target_valid [OF assms] by (simp add: good_target_def)
qed

text \<open>
  C35. Every target the client builds passes the server's validation: if building from a URL
  or from an OAuth URL succeeds there is at least one target, and each has a port from 1 to
  65535, a loopback host to listen on and a dial address that splits into a loopback host and
  that port.
\<close>

theorem client_targets_accepted:
  "(case buildTunnelTargetsFromURL raw of
      Inr (ts, u) \<Rightarrow> ts \<noteq> [] \<and> list_all good_target ts \<and> ParseTunnelURL raw = Inr u
    | Inl e \<Rightarrow> True) \<and>
   (case buildTunnelTargetsFromOAuthURL raw of
      Inr ts \<Rightarrow> ts \<noteq> [] \<and> list_all good_target ts
    | Inl e \<Rightarrow> True)"
proof -
  have lo: "isLoopbackTunnelHost ''127.0.0.1''" "isLoopbackTunnelHost ''::1''" "isLoopbackTunnelHost ''localhost''"
    by code_simp+
  have "1 \<le> p \<and> p \<le> 65535 \<and> isLoopbackTunnelHost (Hostname u)"
    if "ParseTunnelURL r = Inr u" "effectiveTunnelPort u = Inr p" for r u p
    using effective_port_cases [OF that(1)] that(2) ParseTunnelURL_InrD(1) [OF that(1)] by auto
  then show ?thesis
    using lo by (auto simp: buildTunnelTargetsFromURL_def buildTunnelTargetsFromOAuthURL_def parseTunnelTarget_def Let_def
        intro!: good_targetI split: sum.split)
qed

end
