(* ===== verification/Cli.thy ===== *)
theory Cli
  imports Worker Targets
begin

text \<open>
  The client program of \<^verbatim>\<open>cmd/cli/main_cli.go\<close>: \<^verbatim>\<open>doRPC\<close>, the commands of \<^verbatim>\<open>run\<close> and its exit codes,
  and the whole path of a command, from the command line of the client to the clipboard of the
  server and back.
\<close>

section \<open>The system around the program\<close>

definition exitSuccess :: nat where "exitSuccess = 0"
definition exitFlagParseError :: nat where "exitFlagParseError = 6"
definition exitNoKeys :: nat where "exitNoKeys = 7"
definition exitRPCError :: nat where "exitRPCError = 8"
definition exitHelp :: nat where "exitHelp = 9"

lemmas exit_defs = exitSuccess_def exitFlagParseError_def exitNoKeys_def exitRPCError_def exitHelp_def

text \<open>
  What the program gets from the operating system and the network. \<open>Call\<close> is a call of the
  RPC client on a new connection signed with the given key hash and private key; \<open>tunnel_conn\<close>
  and \<open>tunnel_end\<close> are the tunnel client's connection and the outcome of its goroutines;
  \<open>worker_conn\<close> and \<open>worker_timely\<close> are the launched worker's connection and whether it was done
  in time; the last fields belong to a server run by this program.
\<close>

record 'n system =
  UserHomeDir :: "gostring res"
  Getenv :: "gostring \<Rightarrow> gostring"
  Stdin :: "bytes res"
  perm_check :: "os_state \<Rightarrow> gostring \<Rightarrow> bool \<Rightarrow> goerr option"
  ed_GenerateKey :: "(bytes \<times> bytes) res"
  rand_Read :: "bytes res"
  DialTimeout :: "int \<Rightarrow> int \<Rightarrow> 'n \<Rightarrow> goerr option \<times> 'n"
  Call :: "bytes \<Rightarrow> bytes \<Rightarrow> rpc_call \<Rightarrow> 'n \<Rightarrow> rpc_reply res \<times> 'n"
  tunnel_conn :: "(stream \<times> sink) res"
  tunnel_end :: "goerr option option"
  Executable :: "gostring res"
  status_Listen :: "gostring res"
  CreateTemp :: "gostring res"
  worker_detach :: "exec_cmd \<Rightarrow> exec_cmd"
  cmd_Start :: "exec_cmd \<Rightarrow> goerr option"
  worker_conn :: "(stream \<times> sink) res"
  worker_timely :: bool
  status_conn :: "gostring \<Rightarrow> (stream \<times> sink) res"
  Register :: "goerr option \<times> goerr option \<times> goerr option"
  ResolveTCPAddr :: "int \<Rightarrow> tcpaddr res"
  server_net :: netstate
  Accept_error :: goerr

text \<open>What the program changes: files, whatever is behind the network, and its output.\<close>

record 'n world =
  files :: os_state
  remote :: 'n
  stdout :: gostring
  stderr :: gostring

section \<open>Calls\<close>

definition generateTunnelMACKey :: "bytes res \<Rightarrow> bytes res" where
  "generateTunnelMACKey rnd = (case rnd of Inl err \<Rightarrow> Inl err | Inr buf \<Rightarrow> Inr (copy_array 32 buf))"

definition doRPC ::
    "'n system \<Rightarrow> options \<Rightarrow> gostring \<Rightarrow> rpc_call \<Rightarrow> 'n world \<Rightarrow> rpc_reply res \<times> 'n world" where
  "doRPC sys st home call w =
     (case ReadKeys (perm_check sys) (files w) home of
        Inl err \<Rightarrow> (Inl err, w)
      | Inr (pk, k) \<Rightarrow>
          (case DialTimeout sys (aPort st) (aConnectTimeout st) (remote w) of
             (Some err, n) \<Rightarrow> (Inl err, w\<lparr>remote := n\<rparr>)
           | (None, n) \<Rightarrow>
               (case Call sys (sha256_Sum256 pk) k call n of
                  (r, n') \<Rightarrow> (r, w\<lparr>remote := n'\<rparr>))))"

text \<open>The error \<^verbatim>\<open>doRPC\<close> returns, for calls whose reply is not looked at.\<close>

abbreviation rpc_error :: "rpc_reply res \<Rightarrow> goerr option" where
  "rpc_error r \<equiv> (case r of Inl err \<Rightarrow> Some err | Inr _ \<Rightarrow> None)"

abbreviation tunnel_request :: "options \<Rightarrow> TunnelTarget list \<Rightarrow> bytes \<Rightarrow> TunnelOpenRequest" where
  "tunnel_request st targets key \<equiv>
     \<lparr>req_URL = aData st, req_Targets = targets, req_MACKey = key, req_AttachTimeout = aConnectTimeout st,
      req_IdleTimeout = aIOTimeout st\<rparr>"

text \<open>\<^verbatim>\<open>rc.Call("Tunnel.Open", req, &resp)\<close>; a reply of another kind leaves \<^verbatim>\<open>resp\<close> empty.\<close>

definition open_tunnel ::
    "'n system \<Rightarrow> options \<Rightarrow> gostring \<Rightarrow> TunnelTarget list \<Rightarrow> bytes \<Rightarrow> 'n world \<Rightarrow> TunnelOpenResponse res \<times> 'n world" where
  "open_tunnel sys st home targets key w =
     (case doRPC sys st home (CallTunnelOpen (tunnel_request st targets key)) w of
        (Inl err, w') \<Rightarrow> (Inl err, w')
      | (Inr (ReplyTunnel resp), w') \<Rightarrow> (Inr resp, w')
      | (Inr _, w') \<Rightarrow> (Inr \<lparr>SessionID = [], OpenURL = [], resp_ListenPort = 0, ListenAddrs = [], AttachTimeout = 0, IdleTimeout = 0\<rparr>, w'))"

definition startTunnelClient :: "'n system \<Rightarrow> TunnelOpenResponse \<Rightarrow> bytes \<Rightarrow> goerr option" where
  "startTunnelClient sys resp key =
     (case start_attach (tunnel_conn sys) (SessionID resp) key None of
        (Some err, _) \<Rightarrow> Some err
      | (None, _) \<Rightarrow> start_result (tunnel_end sys))"

section \<open>Commands\<close>

text \<open>\<^verbatim>\<open>open\<close> with \<^verbatim>\<open>-tunnel\<close>: every error ends the command.\<close>

definition run_tunnel :: "'n system \<Rightarrow> options \<Rightarrow> gostring \<Rightarrow> 'n world \<Rightarrow> goerr option \<times> 'n world" where
  "run_tunnel sys st home w =
     (case buildTunnelTargetsFromURL (aData st) of
        Inl err \<Rightarrow> (Some err, w)
      | Inr (targets, _) \<Rightarrow>
          (case generateTunnelMACKey (rand_Read sys) of
             Inl err \<Rightarrow> (Some err, w)
           | Inr key \<Rightarrow>
               (case open_tunnel sys st home targets key w of
                  (Inl err, w') \<Rightarrow> (Some err, w')
                | (Inr resp, w') \<Rightarrow> (startTunnelClient sys resp key, w'))))"

text \<open>
  The attempt of \<^verbatim>\<open>open\<close> with \<^verbatim>\<open>-oauth\<close>: whether the worker was launched. Its errors are logged
  and then dropped.
\<close>

definition run_oauth :: "'n system \<Rightarrow> options \<Rightarrow> gostring \<Rightarrow> 'n world \<Rightarrow> bool \<times> 'n world" where
  "run_oauth sys st home w =
     (case buildTunnelTargetsFromOAuthURL (aData st) of
        Inl err \<Rightarrow> (False, w)
      | Inr targets \<Rightarrow>
          (case generateTunnelMACKey (rand_Read sys) of
             Inl err \<Rightarrow> (False, w)
           | Inr key \<Rightarrow>
               (case open_tunnel sys st home targets key w of
                  (Inl err, w') \<Rightarrow> (False, w')
                | (Inr resp, w') \<Rightarrow>
                    (launchOAuthWorker st (Executable sys) (status_Listen sys) (CreateTemp sys) (worker_detach sys) (cmd_Start sys)
                       (worker_conn sys) (worker_timely sys) resp key = None, w'))))"

text \<open>\<^verbatim>\<open>open\<close> without a tunnel.\<close>

definition run_uri :: "'n system \<Rightarrow> options \<Rightarrow> gostring \<Rightarrow> 'n world \<Rightarrow> goerr option \<times> 'n world" where
  "run_uri sys st home w =
     (case Parse (aData st) of
        Inl err \<Rightarrow> (Some err, w)
      | Inr _ \<Rightarrow> apfst rpc_error (doRPC sys st home (CallOpen (aData st)) w))"

definition run_open :: "'n system \<Rightarrow> options \<Rightarrow> gostring \<Rightarrow> 'n world \<Rightarrow> goerr option \<times> 'n world" where
  "run_open sys st home w =
     (if aTunnel st then run_tunnel sys st home w
      else if aOAuth st then
        (case run_oauth sys st home w of
           (True, w') \<Rightarrow> (None, w')
         | (False, w') \<Rightarrow> run_uri sys st home w')
      else run_uri sys st home w)"

definition run_paste :: "'n system \<Rightarrow> options \<Rightarrow> gostring \<Rightarrow> 'n world \<Rightarrow> goerr option \<times> 'n world" where
  "run_paste sys st home w =
     (case doRPC sys st home CallPaste w of
        (r, w') \<Rightarrow>
          (let resp = (case r of Inr (ReplyText t) \<Rightarrow> t | _ \<Rightarrow> [])
           in (rpc_error r, w'\<lparr>stdout := stdout w' @ ConvertLE resp (aLE st)\<rparr>)))"

text \<open>An existing usable key pair is not replaced; its public key is printed all the same.\<close>

definition run_genkey :: "'n system \<Rightarrow> gostring \<Rightarrow> 'n world \<Rightarrow> goerr option \<times> 'n world" where
  "run_genkey sys home w =
     (let print = (\<lambda>pk w. w\<lparr>stdout := stdout w @ [CHR 0x0A] @ ''Public key:'' @ [CHR 0x0A, CHR 0x09] @ hex_EncodeToString pk @ [CHR 0x0A]\<rparr>)
      in case ReadKeys (perm_check sys) (files w) home of
           Inr (pk, _) \<Rightarrow> (Some (Errorf ''usable keys already exist''), print pk w)
         | Inl _ \<Rightarrow>
             (case CreateKeys (ed_GenerateKey sys) (files w) home of
                (Inl err, fs) \<Rightarrow> (Some err, w\<lparr>files := fs\<rparr>)
              | (Inr (pk, _), fs) \<Rightarrow> (None, print pk (w\<lparr>files := fs\<rparr>))))"

text \<open>The server, until accepting fails; what it does for its connections is in \<open>Server\<close>.\<close>

definition run_server :: "'n system \<Rightarrow> options \<Rightarrow> gostring \<Rightarrow> 'n world \<Rightarrow> goerr option" where
  "run_server sys st home w =
     (case ReadTrustedKeys (perm_check sys) (files w) home of
        Inl err \<Rightarrow> Some err
      | Inr _ \<Rightarrow>
          (case Register sys of
             (u, c, t) \<Rightarrow>
               (case Serve_listen u c t (ResolveTCPAddr sys (aPort st)) (server_net sys) of
                  (Inl err, _) \<Rightarrow> Some err
                | (Inr _, _) \<Rightarrow> Serve_accept_failed (Accept_error sys))))"

definition run_command :: "'n system \<Rightarrow> options \<Rightarrow> gostring \<Rightarrow> command \<Rightarrow> 'n world \<Rightarrow> goerr option \<times> 'n world" where
  "run_command sys st home cmd w =
     (case cmd of
        cmdOpen \<Rightarrow> run_open sys st home w
      | cmdCopy \<Rightarrow> apfst rpc_error (doRPC sys st home (CallCopy (aData st)) w)
      | cmdPaste \<Rightarrow> run_paste sys st home w
      | cmdGenKey \<Rightarrow> run_genkey sys home w
      | cmdServer \<Rightarrow> (run_server sys st home w, w)
      | cmdOAuthWorker \<Rightarrow> (fst (runOAuthWorker st (status_conn sys) (tunnel_conn sys) (tunnel_end sys)), w))"

definition print_error :: "goerr \<Rightarrow> 'n world \<Rightarrow> 'n world" where
  "print_error err w = w\<lparr>stderr := stderr w @ [CHR 0x0A, CHR 0x0A] @ ''*** ERROR: '' @ err_Error err @ [CHR 0x0A]\<rparr>"

definition run :: "'n system \<Rightarrow> gostring list \<Rightarrow> options \<Rightarrow> 'n world \<Rightarrow> nat \<times> 'n world" where
  "run sys args st0 w =
     (case processCommandLine (Getenv sys) (Stdin sys) args st0 of
        (Inl err, _) \<Rightarrow> (exitFlagParseError, print_error err w)
      | (Inr cmd, st) \<Rightarrow>
          (if aHelp st then (exitHelp, w)
           else (case UserHomeDir sys of
                   Inl err \<Rightarrow> (exitNoKeys, print_error err w)
                 | Inr home \<Rightarrow>
                     (case run_command sys st home cmd w of
                        (Some err, w') \<Rightarrow> (exitRPCError, print_error err w')
                      | (None, w') \<Rightarrow> (exitSuccess, w')))))"

section \<open>A server behind the network\<close>

text \<open>
  The other end of a call, built from the components: the client's signed connection, the
  server's treatment of the connection, and its services. \<open>encode\<close> and \<open>decode\<close> stand for the
  codec of \<^verbatim>\<open>net/rpc\<close>, \<open>ed_sign\<close> and \<open>ed_verify\<close> for Ed25519.
\<close>

record ('c, 'd) site =
  ed_sign :: "bytes \<Rightarrow> bytes \<Rightarrow> bytes"
  ed_verify :: "bytes \<Rightarrow> bytes \<Rightarrow> bytes \<Rightarrow> bool"
  encode :: "rpc_call \<Rightarrow> bytes"
  decode :: "bytes \<Rightarrow> rpc_call option"
  client_magic :: bytes
  server_magic :: bytes
  site_keys :: "bytes \<rightharpoonup> bytes"
  site_lock :: "int option"
  site_timeout :: int
  site_le :: gostring
  WriteAll :: "gostring \<Rightarrow> 'c \<Rightarrow> goerr option \<times> 'c"
  ReadAll :: "'c \<Rightarrow> gostring \<times> goerr option"
  open_uri :: "gostring \<Rightarrow> 'd \<Rightarrow> goerr option \<times> 'd"
  tunnel_opener :: "gostring \<Rightarrow> goerr option"
  session_id :: "gostring res"

abbreviation site_dispatch :: "('c, 'd) site \<Rightarrow> rpc_call \<Rightarrow> ('c, 'd) host \<Rightarrow> rpc_reply res \<times> ('c, 'd) host" where
  "site_dispatch s \<equiv> dispatch (WriteAll s) (ReadAll s) (open_uri s) (site_le s) (session_id s)"

definition remote_call ::
    "('c, 'd) site \<Rightarrow> bytes \<Rightarrow> bytes \<Rightarrow> rpc_call \<Rightarrow> ('c, 'd) host \<Rightarrow> rpc_reply res \<times> ('c, 'd) host" where
  "remote_call s hpk k call h =
     (let c = \<lparr>cli_br = \<lparr>avail = [], fin = EOF\<rparr>, cli_out = fresh_sink, cli_closed = False, cli_hpk = hpk, cli_k = k\<rparr>
      in case cli_secConn_Write (ed_sign s) (client_magic s) c (encode s call) of
           ((_, Some err), _) \<Rightarrow> (Inl err, h)
         | ((_, None), c') \<Rightarrow>
             (case Serve_connection (tunnel_opener s) (site_keys s) (server_magic s) (site_lock s) (site_timeout s)
                     \<lparr>avail = written (cli_out c') @ [], fin = EOF\<rparr> fresh_sink (tun h) of
                (None, t) \<Rightarrow> (Inl ErrUnexpectedEOF, h\<lparr>tun := t\<rparr>)
              | (Some sc, t) \<Rightarrow>
                  (case serve_request (ed_verify s) (decode s) (site_dispatch s) 0 sc (h\<lparr>tun := t\<rparr>) of
                     (Some r, h') \<Rightarrow> (r, h')
                   | (None, h') \<Rightarrow> (Inl ErrUnexpectedEOF, h'))))"

text \<open>
  The server trusts the client's key, its version of the protocol is the client's, it is not
  locked, and signatures do what they are documented to do; a call is carried when the codec
  can decode it and it fits the codec's buffer.
\<close>

definition site_trusts :: "('c, 'd) site \<Rightarrow> bytes \<Rightarrow> bytes \<Rightarrow> bool" where
  "site_trusts s pk k \<longleftrightarrow>
     6 \<le> length (client_magic s) \<and> length (client_magic s) = length (server_magic s) \<and>
     take 6 (client_magic s) = take 6 (server_magic s) \<and> hd (client_magic s) \<noteq> tunnelFrameAttach \<and>
     site_keys s (sha256_Sum256 pk) = Some pk \<and> site_lock s \<noteq> Some 1 \<and>
     (\<forall>m. length (ed_sign s k m) = 64 \<and> ed_verify s pk m (ed_sign s k m))"

definition site_carries :: "('c, 'd) site \<Rightarrow> rpc_call \<Rightarrow> bool" where
  "site_carries s call \<longleftrightarrow>
     decode s (encode s call) = Some call \<and> encode s call \<noteq> [] \<and> length (encode s call) \<le> rpcBufferSize \<and>
     length (client_magic s) + 32 + Overhead + length (encode s call) \<le> unat MaxFrameSize"

lemma remote_call_served:
  assumes "site_trusts s pk k" "site_carries s call"
  shows "remote_call s (sha256_Sum256 pk) k call h = site_dispatch s call h"
proof -
  let ?c = "\<lparr>cli_br = \<lparr>avail = [], fin = EOF\<rparr>, cli_out = fresh_sink, cli_closed = False, cli_hpk = sha256_Sum256 pk, cli_k = k\<rparr>"
  let ?p = "encode s call"
  obtain c' n where w: "cli_secConn_Write (ed_sign s) (client_magic s) ?c ?p = ((n, None), c')"
    by (simp add: cli_secConn_Write_def sign_Sign_def Let_def WriteFrame_unbounded)
  have out: "written (cli_out c') = frame_bytes (client_magic s @ sha256_Sum256 pk @ ed_sign s k ?p @ ?p)"
    using cli_secConn_Write_ok [OF w] by simp
  have "\<exists>sc. Serve_connection (tunnel_opener s) (site_keys s) (server_magic s) (site_lock s) (site_timeout s)
          \<lparr>avail = written (cli_out c') @ [], fin = EOF\<rparr> fresh_sink (tun h) = (Some sc, tun h) \<and>
        serve_request (ed_verify s) (decode s) (site_dispatch s) 0 sc h = apfst Some (site_dispatch s call h)"
    unfolding out using assms
    by (intro connection_serves [where pk = pk]) (simp_all add: site_trusts_def site_carries_def)
  then obtain sc where "Serve_connection (tunnel_opener s) (site_keys s) (server_magic s) (site_lock s) (site_timeout s)
          \<lparr>avail = written (cli_out c') @ [], fin = EOF\<rparr> fresh_sink (tun h) = (Some sc, tun h)"
        "serve_request (ed_verify s) (decode s) (site_dispatch s) 0 sc h = apfst Some (site_dispatch s call h)"
    by blast
  then show ?thesis
    by (cases "site_dispatch s call h") (simp add: remote_call_def w Let_def)
qed

section \<open>Properties\<close>

text \<open>A call of a client whose keys are on disk, to a server that trusts them.\<close>

lemma doRPC_served:
  assumes "ReadKeys (perm_check sys) (files w) home = Inr (pk, k)" "\<forall>p t n. DialTimeout sys p t n = (None, n)"
    and "Call sys = remote_call s" "site_trusts s pk k" "site_carries s call"
  shows "doRPC sys st home call w = (case site_dispatch s call (remote w) of (r, h) \<Rightarrow> (r, w\<lparr>remote := h\<rparr>))"
  using assms by (simp add: doRPC_def remote_call_served split: prod.split)


text \<open>A site whose server trusts one key, and a client with that key on disk.\<close>

definition example_site :: "(gostring, unit) site" where
  "example_site =
     \<lparr>ed_sign = (\<lambda>k m. replicate 64 3), ed_verify = (\<lambda>pk m sig. sig = replicate 64 3),
      encode = (\<lambda>call. case call of CallPaste \<Rightarrow> [1] | CallCopy t \<Rightarrow> 2 # bytes_of t | _ \<Rightarrow> [3]),
      decode = (\<lambda>b. if b = [1] then Some CallPaste else Some (CallCopy (string_of (tl b)))),
      client_magic = [103, 99, 108, 112, 114, 0, 9, 9], server_magic = [103, 99, 108, 112, 114, 0, 0, 0],
      site_keys = [sha256_Sum256 (replicate 32 1) \<mapsto> replicate 32 1], site_lock = None, site_timeout = 0, site_le = ''CRLF'',
      WriteAll = (\<lambda>t c. (None, t)), ReadAll = (\<lambda>c. (c, None)), open_uri = (\<lambda>u d. (None, d)),
      tunnel_opener = (\<lambda>u. None), session_id = Inr ''ab''\<rparr>"

definition example_system :: "(gostring, unit) host system" where
  "example_system =
     \<lparr>UserHomeDir = Inr ''/h'', Getenv = (\<lambda>v. []), Stdin = Inr [], perm_check = checkPermissions,
      ed_GenerateKey = Inr (replicate 32 1, replicate 64 2), rand_Read = Inr (replicate 32 5),
      DialTimeout = (\<lambda>p t n. (None, n)), Call = remote_call example_site, tunnel_conn = Inl EOF, tunnel_end = None,
      Executable = Inl EOF, status_Listen = Inl EOF, CreateTemp = Inl EOF, worker_detach = unix_applyWorkerDetach, cmd_Start = (\<lambda>a. None), worker_conn = Inl EOF,
      worker_timely = False, status_conn = (\<lambda>a. Inl EOF), Register = (None, None, None), ResolveTCPAddr = (\<lambda>p. Inl EOF),
      server_net = example_net, Accept_error = EOF\<rparr>"

definition example_world :: "os_state \<Rightarrow> (gostring, unit) host world" where
  "example_world fs = \<lparr>files = fs, remote = \<lparr>clip = [], desk = (), tun = NewTunnel example_net 0\<rparr>, stdout = [], stderr = []\<rparr>"

definition example_keys :: os_state where
  "example_keys = snd (CreateKeys (Inr (replicate 32 1, replicate 64 2)) (example_os None) ''/h'')"

lemma example_created: "CreateKeys (Inr (replicate 32 1, replicate 64 2)) (example_os None) ''/h'' = (Inr (replicate 32 1, replicate 64 2), example_keys)"
proof -
  have "fst (CreateKeys (Inr (replicate 32 1, replicate 64 2)) (example_os None) ''/h'') = Inr (replicate 32 1, replicate 64 2)"
    by code_simp
  then show ?thesis unfolding example_keys_def by (metis prod.collapse)
qed

lemma example_key_nodes:
  "node_at (example_os None) (filepath_Join [filepath_Join [''/h'', ''.gclpr''], ''key.pub'']) = None"
  "node_at (example_os None) (filepath_Join [filepath_Join [''/h'', ''.gclpr''], ''key'']) = None"
  by code_simp+

lemma example_keys_read: "ReadKeys checkPermissions example_keys ''/h'' = Inr (replicate 32 1, replicate 64 2)"
  by (rule CreateKeys_readable [OF example_created]) (simp_all add: example_key_nodes del: filepath_Join.simps)

lemma example_site_trusts: "site_trusts example_site (replicate 32 1) (replicate 64 2)"
  by (simp add: site_trusts_def example_site_def frame_type_defs)

lemma example_site_carries: "site_carries example_site CallPaste" "site_carries example_site (CallCopy ''hi'')"
  by (simp_all add: site_carries_def example_site_def Overhead_def rpcBufferSize_def)


text \<open>
  C23. A generated key authorises: on a client without usable keys, a \<^verbatim>\<open>gclpr genkey\<close> that can write
  its files exits with 0 and prints a public key; a server whose trusted keys file is that one
  printed line then serves the calls of this client.
\<close>

theorem genkey_authorises:
  assumes "alias_command prog = None" "UserHomeDir sys = Inr home" "perm_check sys = checkPermissions"
    and "ReadKeys checkPermissions (files w) home = Inl err"
    and "CreateKeys (ed_GenerateKey sys) (files w) home = (Inr (pk, k), fs)" "length pk = 32"
    and "node_at (files w) (filepath_Join [filepath_Join [home, ''.gclpr''], ''key.pub'']) \<noteq> Some Special"
    and "case node_at (files w) (filepath_Join [filepath_Join [home, ''.gclpr''], ''key'']) of
           Some (Regular f) \<Rightarrow> owner f \<noteq> uid (files w) \<or> perm f AND 0x3F = 0
         | Some Special \<Rightarrow> False | _ \<Rightarrow> True"
    and "\<forall>p t n. DialTimeout sys p t n = (None, n)" "Call sys = remote_call s"
    and "site_trusts (s\<lparr>site_keys := [sha256_Sum256 pk \<mapsto> pk]\<rparr>) pk k"
  shows "\<exists>line w'. run sys [prog, ''genkey''] default_options w = (exitSuccess, w') \<and>
     stdout w' = stdout w @ [CHR 0x0A] @ ''Public key:'' @ [CHR 0x0A, CHR 0x09] @ line @ [CHR 0x0A] \<and>
     (site_keys s = trusted_keys (bytes_of line) \<longrightarrow> site_carries s call \<longrightarrow>
        doRPC sys st home call w' = (case site_dispatch s call (remote w') of (r, h) \<Rightarrow> (r, w'\<lparr>remote := h\<rparr>)))"
proof -
  let ?line = "hex_EncodeToString pk"
  let ?w' = "w\<lparr>files := fs, stdout := stdout w @ [CHR 0x0A] @ ''Public key:'' @ [CHR 0x0A, CHR 0x09] @ ?line @ [CHR 0x0A]\<rparr>"
  have cl: "processCommandLine (Getenv sys) (Stdin sys) [prog, ''genkey''] default_options =
      (Inr cmdGenKey, with_env (Getenv sys) default_options)"
    using assms(1) by (simp add: processCommandLine_def getCommand_def word_command_def)
  then have "run sys [prog, ''genkey''] default_options w = (exitSuccess, ?w')"
    using assms(2-5) by (simp add: run_def run_command_def run_genkey_def)
  moreover have "ReadKeys (perm_check sys) (files ?w') home = Inr (pk, k)"
    using CreateKeys_readable [OF assms(5,7,8)] assms(3) by simp
  moreover have "site_trusts s pk k" if "site_keys s = trusted_keys (bytes_of ?line)"
    using that assms(11) trusted_keys_one_hex [OF assms(6)] by (simp add: site_trusts_def)
  ultimately show ?thesis
    using doRPC_served [of sys ?w' home pk k s call st] assms(9,10) by auto
qed

theorem genkey_authorises_witness:
  "\<exists>line w'. run example_system [''gclpr'', ''genkey''] default_options (example_world (example_os None)) = (exitSuccess, w') \<and>
     stdout w' = [CHR 0x0A] @ ''Public key:'' @ [CHR 0x0A, CHR 0x09] @ line @ [CHR 0x0A]"
proof -
  have e: "alias_command ''gclpr'' = None" by code_simp
  have "isl (ReadKeys checkPermissions (example_os None) ''/h'')" by code_simp
  then obtain err where err: "ReadKeys checkPermissions (example_os None) ''/h'' = Inl err"
    by (cases "ReadKeys checkPermissions (example_os None) ''/h''") auto
  have t: "site_trusts (example_site\<lparr>site_keys := [sha256_Sum256 (replicate 32 1) \<mapsto> replicate 32 1]\<rparr>) (replicate 32 1) (replicate 64 2)"
    using example_site_trusts by (simp add: site_trusts_def)
  show ?thesis
    using genkey_authorises [OF e, of example_system "''/h''" "example_world (example_os None)" err "replicate 32 1" "replicate 64 2"
        example_keys example_site CallPaste default_options] err t example_created example_key_nodes
    by (auto simp: example_system_def example_world_def simp del: filepath_Join.simps)
qed

text \<open>
  Opening with OAuth falls back to a plain open: for a URL from which no callback can be
  taken, \<^verbatim>\<open>gclpr open -oauth url\<close> and the alias \<^verbatim>\<open>xdg-open url\<close> do exactly what
  \<^verbatim>\<open>gclpr open url\<close> does, with the same exit code.
\<close>

theorem oauth_falls_back:
  assumes "alias_command prog = None" "alias_command xdg = Some cmdOpen" "positional u" "u \<noteq> []"
    and "buildTunnelTargetsFromOAuthURL u = Inl err"
  shows "run sys [prog, ''open'', ''-oauth'', u] default_options w = run sys [prog, ''open'', u] default_options w \<and>
     run sys [xdg, u] default_options w = run sys [prog, ''open'', u] default_options w"
proof -
  have "processCommandLine (Getenv sys) (Stdin sys) [prog, ''open'', u] default_options =
      (Inr cmdOpen, (with_env (Getenv sys) default_options)\<lparr>aData := u\<rparr>)"
    using assms by (intro processCommandLine_plain) (simp_all add: word_command_def)
  moreover have "run_command sys ((with_env (Getenv sys) default_options)\<lparr>aOAuth := True, aData := u\<rparr>) home cmdOpen w =
      run_command sys ((with_env (Getenv sys) default_options)\<lparr>aData := u\<rparr>) home cmdOpen w" for home
    using assms(5) by (simp add: run_command_def run_open_def run_oauth_def run_uri_def doRPC_def split: sum.split)
  ultimately show ?thesis
    using processCommandLine_oauth [OF assms(1,3,4), of default_options "Getenv sys" "Stdin sys"]
      processCommandLine_alias [OF assms(2-4), of default_options "Getenv sys" "Stdin sys"]
    by (simp add: run_def split: sum.split)
qed

theorem oauth_falls_back_witness:
  "run example_system [''/usr/bin/xdg-open'', ''https://a.b/''] default_options (example_world example_keys) =
   run example_system [''gclpr'', ''open'', ''https://a.b/''] default_options (example_world example_keys)"
proof -
  have e: "alias_command ''gclpr'' = None" "alias_command ''/usr/bin/xdg-open'' = Some cmdOpen" "positional ''https://a.b/''"
    by code_simp+
  have "isl (buildTunnelTargetsFromOAuthURL ''https://a.b/'')" by code_simp
  then obtain err where "buildTunnelTargetsFromOAuthURL ''https://a.b/'' = Inl err"
    by (cases "buildTunnelTargetsFromOAuthURL ''https://a.b/''") auto
  from oauth_falls_back [OF e _ this, of example_system "example_world example_keys"] show ?thesis by simp
qed

text \<open>Only \<^verbatim>\<open>genkey\<close> writes files, and no command writes to the error output itself.\<close>

lemma doRPC_world: "doRPC sys st home call w = (r, w') \<Longrightarrow> files w' = files w \<and> stderr w' = stderr w \<and> stdout w' = stdout w"
  by (auto simp: doRPC_def split: sum.splits prod.splits option.splits)

lemma open_tunnel_world: "open_tunnel sys st home ts key w = (r, w') \<Longrightarrow> files w' = files w \<and> stderr w' = stderr w \<and> stdout w' = stdout w"
  by (auto simp: open_tunnel_def split: sum.splits prod.splits rpc_reply.splits dest: doRPC_world)

lemma run_open_world:
  assumes "run_open sys st home w = (r, w')"
  shows "files w' = files w \<and> stderr w' = stderr w"
proof -
  have uri: "files w2 = files w1 \<and> stderr w2 = stderr w1" if "run_uri sys st home w1 = (r1, w2)" for w1 w2 r1
    using that by (cases "doRPC sys st home (CallOpen (aData st)) w1")
      (auto simp: run_uri_def split: sum.splits dest: doRPC_world)
  have oauth: "files w2 = files w \<and> stderr w2 = stderr w" if "run_oauth sys st home w = (b, w2)" for w2 b
    using that by (auto simp: run_oauth_def split: sum.splits prod.splits dest: open_tunnel_world)
  have tunnel: "files w2 = files w \<and> stderr w2 = stderr w" if "run_tunnel sys st home w = (b, w2)" for w2 b
    using that by (auto simp: run_tunnel_def split: sum.splits prod.splits dest: open_tunnel_world)
  show ?thesis
    using assms by (auto simp: run_open_def split: if_splits prod.splits bool.splits dest!: uri oauth tunnel)
qed

lemma run_command_world:
  assumes "run_command sys st home cmd w = (r, w')"
  shows "stderr w' = stderr w \<and> (\<forall>kp. ReadKeys (perm_check sys) (files w) home = Inr kp \<longrightarrow> files w' = files w)"
proof (cases cmd)
  case cmdOpen
  with assms show ?thesis by (auto simp: run_command_def dest: run_open_world)
next
  case cmdCopy
  with assms show ?thesis
    by (cases "doRPC sys st home (CallCopy (aData st)) w") (auto simp: run_command_def dest: doRPC_world)
next
  case cmdPaste
  with assms show ?thesis
    by (cases "doRPC sys st home CallPaste w") (auto simp: run_command_def run_paste_def Let_def dest: doRPC_world)
next
  case cmdGenKey
  with assms show ?thesis
    by (auto simp: run_command_def run_genkey_def Let_def split: sum.splits prod.splits)
qed (use assms in \<open>auto simp: run_command_def\<close>)

text \<open>
  Outcomes: whatever the command line, the program exits with one of its five codes; it
  prints an error exactly when the code is neither success nor help; and a usable key pair is
  never changed.
\<close>

theorem run_outcome:
  assumes "run sys args st w = (code, w')"
  shows "code \<in> {exitSuccess, exitFlagParseError, exitNoKeys, exitRPCError, exitHelp} \<and>
     (stderr w' = stderr w \<longleftrightarrow> code \<in> {exitSuccess, exitHelp}) \<and>
     (\<forall>home kp. UserHomeDir sys = Inr home \<longrightarrow> ReadKeys (perm_check sys) (files w) home = Inr kp \<longrightarrow> files w' = files w)"
  using assms
  by (auto simp: run_def print_error_def exit_defs split: sum.splits prod.splits option.splits if_splits dest!: run_command_world)

theorem run_outcome_witness:
  "snd (run example_system [''gclpr'', ''nonsense''] default_options (example_world example_keys)) \<noteq> example_world example_keys \<and>
   fst (run example_system [''gclpr'', ''nonsense''] default_options (example_world example_keys)) = exitFlagParseError"
proof -
  let ?r = "run example_system [''gclpr'', ''nonsense''] default_options (example_world example_keys)"
  have c: "fst ?r = exitFlagParseError"
    by (simp add: run_def processCommandLine_def getCommand_def alias_command_def HasSuffix_def word_command_def)
  have "?r = (fst ?r, snd ?r)" by simp
  from run_outcome [OF this] c show ?thesis by (auto simp: exit_defs)
qed

end
