(* ===== verification/FilesWindows.thy ===== *)
theory FilesWindows
  imports GoFiles
begin

text \<open>
  The permission check of key files on Windows, \<^verbatim>\<open>util/files_windows.go\<close>. Security identifiers,
  the tests for well-known ones and the account lookups belong to the operating system and are
  fields of a record; an access control list is its header and the entries behind it, which
  \<^verbatim>\<open>GetAce\<close> of the operating system reads by their index.
\<close>

section \<open>Security descriptors\<close>

type_synonym sid = bytes

text \<open>\<^verbatim>\<open>AccessAllowedAce\<close>; the trustee's identifier starts at its last field, \<^verbatim>\<open>SidStart\<close>.\<close>

record AccessAllowedAce =
  AceType :: byte
  AceFlags :: byte
  AceSize :: "16 word"
  AccessMask :: u32
  TrusteeSid :: sid

text \<open>\<^verbatim>\<open>Acl\<close>, and the entries that lie behind this header.\<close>

record Acl =
  AclRevision :: byte
  Sbz1 :: byte
  AclSize :: "16 word"
  AceCount :: "16 word"
  Sbz2 :: "16 word"
  acl_entries :: "AccessAllowedAce list"

definition ACCESS_ALLOWED_ACE_TYPE :: byte where "ACCESS_ALLOWED_ACE_TYPE = 0"
definition ACCESS_DENIED_ACE_TYPE :: byte where "ACCESS_DENIED_ACE_TYPE = 1"

text \<open>
  A descriptor: its owner, and its access control list. The list is \<open>None\<close> for a null list,
  which grants everything to everyone. \<^verbatim>\<open>GetAce\<close> returns the entry of an index of the list or an
  error, and \<open>sid_Copy\<close> may run out of memory.
\<close>

record descriptor =
  sd_Owner :: "sid res"
  sd_DACL :: "Acl option res"

record win_security =
  GetTokenUser :: "sid res"
  sid_Copy :: "sid \<Rightarrow> sid res"
  LookupSID :: "gostring \<Rightarrow> sid res"
  GetNamedSecurityInfo :: "gostring \<Rightarrow> descriptor res"
  GetAce :: "Acl \<Rightarrow> u32 \<Rightarrow> AccessAllowedAce res"
  IsAdministrators :: "sid \<Rightarrow> bool"
  IsLocalSystem :: "sid \<Rightarrow> bool"
  IsValid :: "sid \<Rightarrow> bool"
  LookupAccount :: "sid \<Rightarrow> (gostring \<times> gostring \<times> u32) res"
  sid_String :: "sid \<Rightarrow> gostring"

section \<open>The check\<close>

definition getAce :: "win_security \<Rightarrow> Acl \<Rightarrow> u32 \<Rightarrow> AccessAllowedAce res" where
  "getAce w acl index = GetAce w acl index"

definition getSid :: "win_security \<Rightarrow> gostring \<Rightarrow> sid res" where
  "getSid w nm =
     (if length nm = 0
      then (case GetTokenUser w of Inl err \<Rightarrow> Inl err | Inr s \<Rightarrow> sid_Copy w s)
      else LookupSID w nm)"

text \<open>Administrators, the system account, the user and the installer need no further check.\<close>

definition trusted_sid :: "win_security \<Rightarrow> sid \<Rightarrow> sid \<Rightarrow> sid \<Rightarrow> bool" where
  "trusted_sid w userSid tiSid s \<longleftrightarrow> IsAdministrators w s \<or> IsLocalSystem w s \<or> s = userSid \<or> s = tiSid"

definition write_bits :: u32 where
  "write_bits = 0x0002 OR 0x0100 OR 0x0010 OR 0x0004"

definition same_account :: "win_security \<Rightarrow> sid \<Rightarrow> sid \<Rightarrow> bool" where
  "same_account w userSid s =
     (case (LookupAccount w userSid, LookupAccount w s) of
        (Inr (account, domain, typ), Inr (account', domain', typ')) \<Rightarrow>
          EqualFold account account' \<and> EqualFold domain domain' \<and> typ = typ'
      | _ \<Rightarrow> False)"

text \<open>The conditions under which the loop goes on to the next entry.\<close>

definition ace_accepted :: "win_security \<Rightarrow> sid \<Rightarrow> sid \<Rightarrow> bool \<Rightarrow> AccessAllowedAce \<Rightarrow> bool" where
  "ace_accepted w userSid tiSid readOK ace \<longleftrightarrow>
     AceType ace \<noteq> ACCESS_ALLOWED_ACE_TYPE \<or> trusted_sid w userSid tiSid (TrusteeSid ace) \<or>
     (readOK \<and> AccessMask ace AND write_bits = 0) \<or> same_account w userSid (TrusteeSid ace)"

definition bad_ace_error :: "win_security \<Rightarrow> gostring \<Rightarrow> sid \<Rightarrow> goerr" where
  "bad_ace_error w fname s =
     (let (account, domain) = (case LookupAccount w s of Inr (a, d, _) \<Rightarrow> (a, d) | Inl _ \<Rightarrow> ([], []))
      in Errorf (''bad permissions - try removing permissions for user: '' @ domain @ [CHR 0x5C] @ account @
                 '' ('' @ sid_String w s @ '') on file '' @ fname))"

text \<open>
  The loop over the indexes of the list: \<open>i\<close> is a 32-bit counter that stays below the 16-bit
  count of entries.
\<close>

function check_aces ::
    "win_security \<Rightarrow> gostring \<Rightarrow> sid \<Rightarrow> sid \<Rightarrow> bool \<Rightarrow> Acl \<Rightarrow> u32 \<Rightarrow> goerr option" where
  "check_aces w fname userSid tiSid readOK ddacl i =
     (if i < ucast (AceCount ddacl)
      then (case getAce w ddacl i of
              Inl err \<Rightarrow> Some (Wrapf ''failed getAce '' err)
            | Inr currentAce \<Rightarrow>
                if ace_accepted w userSid tiSid readOK currentAce
                then check_aces w fname userSid tiSid readOK ddacl (i + 1)
                else Some (bad_ace_error w fname (TrusteeSid currentAce)))
      else None)"
  by pat_completeness auto

lemma u32_next: "(i::u32) < n \<Longrightarrow> unat (i + 1) = unat i + 1"
proof -
  assume "i < n"
  then have "unat i + 1 < 2 ^ 32" using unsigned_less [of n, where 'a = nat] by (simp add: word_less_nat_alt)
  then show ?thesis by (simp add: unat_word_ariths)
qed

termination check_aces
  by (relation "measure (\<lambda>(w, fname, userSid, tiSid, readOK, ddacl, i). unat (ucast (AceCount ddacl) :: u32) - unat i)")
     (auto simp: u32_next word_less_nat_alt)

declare check_aces.simps [simp del]

text \<open>A call returns, or it panics: reading the count of entries of a null list does.\<close>

datatype outcome = Returned "goerr option" | Panicked

definition checkPermissions_windows :: "win_security \<Rightarrow> os_state \<Rightarrow> gostring \<Rightarrow> bool \<Rightarrow> outcome" where
  "checkPermissions_windows w s fname readOK =
     (case os_Stat s fname of
        Inr (Regular fi) \<Rightarrow>
          (case getSid w [] of
             Inl err \<Rightarrow> Returned (Some (Wrapf ''failed to retrieve the user sid: '' err))
           | Inr userSid \<Rightarrow>
               (case getSid w (''NT SERVICE'' @ [CHR 0x5C] @ ''TrustedInstaller'') of
                  Inl err \<Rightarrow> Returned (Some (Wrapf ''failed to retrieve the TI sid: '' err))
                | Inr tiSid \<Rightarrow>
                    (case GetNamedSecurityInfo w fname of
                       Inl err \<Rightarrow>
                         Returned (Some (Wrapf (''failed to retrieve security descriptor (owner sid and dacl) of file '' @ fname @ '': '') err))
                     | Inr sd \<Rightarrow>
                         (case (sd_Owner sd, sd_DACL sd) of
                            (Inl err, _) \<Rightarrow> Returned (Some (Wrapf (''failed to retrieve owner sid of file '' @ fname @ '': '') err))
                          | (_, Inl err) \<Rightarrow> Returned (Some (Wrapf (''failed to retrieve dacl of file '' @ fname @ '': '') err))
                          | (Inr ownerSid, Inr dacl) \<Rightarrow>
                              if \<not> IsValid w ownerSid then Returned (Some (Errorf (''invalid owner sid of file '' @ fname)))
                              else if \<not> trusted_sid w userSid tiSid ownerSid then Returned (Some (Errorf (''bad owner of file '' @ fname)))
                              else (case dacl of
                                      None \<Rightarrow> Panicked
                                    | Some ddacl \<Rightarrow> Returned (check_aces w fname userSid tiSid readOK ddacl 0))))))
      | _ \<Rightarrow> Returned (Some (Errorf (''not a regular file '' @ fname))))"

section \<open>Properties\<close>

lemma check_aces_None:
  "check_aces w fname userSid tiSid readOK ddacl i = None \<longleftrightarrow>
     (\<forall>j. i \<le> j \<and> j < ucast (AceCount ddacl) \<longrightarrow>
        (\<exists>ace. getAce w ddacl j = Inr ace \<and> ace_accepted w userSid tiSid readOK ace))"
proof (induction w fname userSid tiSid readOK ddacl i rule: check_aces.induct)
  case (1 w fname userSid tiSid readOK ddacl i)
  have step: "(\<forall>j. i \<le> j \<and> j < (n::u32) \<longrightarrow> P j) \<longleftrightarrow> P i \<and> (\<forall>j. i + 1 \<le> j \<and> j < n \<longrightarrow> P j)" if "i < n" for n P
  proof -
    have "i \<le> j \<longleftrightarrow> j = i \<or> i + 1 \<le> j" for j
      using u32_next [OF that] by (auto simp: word_le_nat_alt word_unat_eq_iff)
    then show ?thesis using that by metis
  qed
  show ?case
  proof (cases "i < ucast (AceCount ddacl)")
    case True
    then show ?thesis
      using 1 by (subst check_aces.simps) (auto simp: step [OF True] split: sum.splits)
  next
    case False
    then show ?thesis by (subst check_aces.simps) (auto simp: not_less)
  qed
qed

text \<open>Every index below a 16-bit count is one of the 32-bit counter.\<close>

lemma all_indexes: "(\<forall>j::u32. j < ucast (n :: 16 word) \<longrightarrow> P j) \<longleftrightarrow> (\<forall>k < unat n. P (word_of_nat k))"
proof -
  have n: "unat (ucast n :: u32) = unat n"
    using unsigned_less [of n, where 'a = nat] by (simp add: unsigned_ucast_eq take_bit_nat_eq_self)
  have k: "unat (word_of_nat k :: u32) = k" if "k < unat n" for k
  proof -
    have "k < 2 ^ 16" using that unsigned_less [of n, where 'a = nat] by simp
    then show ?thesis by (simp add: unat_of_nat take_bit_eq_mod)
  qed
  show ?thesis
  proof
    assume all: "\<forall>j::u32. j < ucast n \<longrightarrow> P j"
    show "\<forall>k < unat n. P (word_of_nat k)"
      using all k by (simp add: word_less_nat_alt n)
  next
    assume all: "\<forall>k < unat n. P (word_of_nat k)"
    show "\<forall>j::u32. j < ucast n \<longrightarrow> P j"
    proof (intro allI impI)
      fix j :: u32 assume "j < ucast n"
      then have "unat j < unat n" by (simp add: word_less_nat_alt n)
      with all have "P (word_of_nat (unat j))" by blast
      then show "P j" by simp
    qed
  qed
qed

text \<open>
  C36. What the Windows check accepts: once the user's and the installer's identifiers are
  known, a regular file with a valid trusted owner passes exactly when every entry of its list
  can be read and each plain allow entry for anybody else is for an account of the user's name,
  or, where reading is fine, has none of the four write bits; a file with a null list is never
  judged, the check panics.
\<close>

theorem checkPermissions_windows_accepts:
  assumes "os_Stat s fname = Inr (Regular fi)" "getSid w [] = Inr userSid"
    and "getSid w (''NT SERVICE'' @ [CHR 0x5C] @ ''TrustedInstaller'') = Inr tiSid"
    and "GetNamedSecurityInfo w fname = Inr \<lparr>sd_Owner = Inr ownerSid, sd_DACL = Inr dacl\<rparr>" "IsValid w ownerSid"
  shows "(checkPermissions_windows w s fname readOK = Returned None \<longleftrightarrow>
       trusted_sid w userSid tiSid ownerSid \<and>
       (\<exists>acl. dacl = Some acl \<and>
         (\<forall>k < unat (AceCount acl). \<exists>ace. GetAce w acl (word_of_nat k) = Inr ace \<and>
            (AceType ace = 0 \<longrightarrow> trusted_sid w userSid tiSid (TrusteeSid ace) \<or>
               same_account w userSid (TrusteeSid ace) \<or> readOK \<and> AccessMask ace AND 0x116 = 0)))) \<and>
     (checkPermissions_windows w s fname readOK = Panicked \<longleftrightarrow> trusted_sid w userSid tiSid ownerSid \<and> dacl = None)"
proof -
  have bits: "write_bits = 0x116" by (simp add: write_bits_def)
  have ok: "ace_accepted w userSid tiSid readOK ace \<longleftrightarrow>
      (AceType ace = 0 \<longrightarrow> trusted_sid w userSid tiSid (TrusteeSid ace) \<or>
         same_account w userSid (TrusteeSid ace) \<or> readOK \<and> AccessMask ace AND 0x116 = 0)" for ace
    by (auto simp: ace_accepted_def ACCESS_ALLOWED_ACE_TYPE_def bits)
  have "check_aces w fname userSid tiSid readOK acl 0 = None \<longleftrightarrow>
      (\<forall>k < unat (AceCount acl). \<exists>ace. GetAce w acl (word_of_nat k) = Inr ace \<and> ace_accepted w userSid tiSid readOK ace)" for acl
    by (simp add: check_aces_None all_indexes getAce_def)
  then show ?thesis
    using assms by (cases dacl) (simp_all add: checkPermissions_windows_def ok)
qed

text \<open>A file of the user whose list lets somebody else replace the list itself.\<close>

definition example_ace :: AccessAllowedAce where
  "example_ace = \<lparr>AceType = 0, AceFlags = 0, AceSize = 20, AccessMask = 0x40000, TrusteeSid = [9]\<rparr>"

definition example_acl :: Acl where
  "example_acl = \<lparr>AclRevision = 2, Sbz1 = 0, AclSize = 28, AceCount = 1, Sbz2 = 0, acl_entries = [example_ace]\<rparr>"

definition example_windows :: win_security where
  "example_windows =
     \<lparr>GetTokenUser = Inr [1], sid_Copy = Inr, LookupSID = (\<lambda>n. Inr [2]),
      GetNamedSecurityInfo = (\<lambda>f. Inr \<lparr>sd_Owner = Inr [1], sd_DACL = Inr (Some example_acl)\<rparr>),
      GetAce = (\<lambda>acl i. if unat i < length (acl_entries acl) then Inr (acl_entries acl ! unat i)
                      else Inl (OsErr ''The parameter is incorrect.'')),
      IsAdministrators = (\<lambda>s. False), IsLocalSystem = (\<lambda>s. False), IsValid = (\<lambda>s. True),
      LookupAccount = (\<lambda>s. Inl EOF), sid_String = (\<lambda>s. [])\<rparr>"

definition example_windows_os :: os_state where
  "example_windows_os =
     \<lparr>nodes = (\<lambda>p. Some (Regular \<lparr>perm = 0, owner = 0, content = []\<rparr>)), open_fault = Map.empty, write_fault = Map.empty,
      mkdir_fault = Map.empty, uid = 0, umask = 0\<rparr>"

theorem checkPermissions_windows_accepts_witness:
  "checkPermissions_windows example_windows example_windows_os ''t'' True = Returned None \<and>
   checkPermissions_windows example_windows example_windows_os ''t'' False \<noteq> Returned None"
proof -
  have r: "os_Stat example_windows_os ''t'' = Inr (Regular \<lparr>perm = 0, owner = 0, content = []\<rparr>)"
    by (simp add: os_Stat_def node_at_def example_windows_os_def)
  have g: "getSid example_windows [] = Inr [1]" "getSid example_windows (''NT SERVICE'' @ [CHR 0x5C] @ ''TrustedInstaller'') = Inr [2]"
    "GetNamedSecurityInfo example_windows ''t'' = Inr \<lparr>sd_Owner = Inr [1], sd_DACL = Inr (Some example_acl)\<rparr>"
    "IsValid example_windows [1]"
    by (simp_all add: getSid_def example_windows_def)
  have t: "trusted_sid example_windows [1] [2] [1]" "\<not> trusted_sid example_windows [1] [2] [9]" "\<not> same_account example_windows [1] [9]"
    by (simp_all add: trusted_sid_def same_account_def example_windows_def)
  have e: "(\<forall>k < unat (AceCount example_acl). P k) \<longleftrightarrow> P 0" "GetAce example_windows example_acl 0 = Inr example_ace" for P
    by (simp_all add: example_acl_def example_windows_def)
  have v: "AceType example_ace = 0" "TrusteeSid example_ace = [9]" "AccessMask example_ace AND 0x116 = 0"
    by (simp_all add: example_ace_def)
  from checkPermissions_windows_accepts [OF r g, of True] checkPermissions_windows_accepts [OF r g, of False] t e v show ?thesis
    by simp
qed

end
