(* ===== verification/GoUtf16.thy ===== *)
theory GoUtf16
  imports Prelude
begin

text \<open>
  Text between Go and Windows: UTF-8 decoding and encoding of \<^verbatim>\<open>unicode/utf8\<close>, surrogate pairs of
  \<^verbatim>\<open>unicode/utf16\<close>, and \<^verbatim>\<open>UTF16FromString\<close> and \<^verbatim>\<open>UTF16ToString\<close> of \<^verbatim>\<open>golang.org/x/sys/windows\<close> over
  \<^verbatim>\<open>syscall\<close>, which keep a lone surrogate as the three bytes of WTF-8. A code point is a natural
  number.
\<close>

type_synonym u16 = "16 word"

definition EINVAL :: goerr where "EINVAL = OsErr ''invalid argument''"

section \<open>UTF-8\<close>

definition RuneError :: nat where "RuneError = 0xFFFD"

abbreviation tail_byte :: "nat \<Rightarrow> bool" where
  "tail_byte b \<equiv> 0x80 \<le> b \<and> b \<le> 0xBF"

text \<open>The range of the second byte of a sequence, by its first byte.\<close>

definition second_ok :: "nat \<Rightarrow> nat \<Rightarrow> bool" where
  "second_ok b0 b1 \<longleftrightarrow>
     tail_byte b1 \<and> (b0 = 0xE0 \<longrightarrow> 0xA0 \<le> b1) \<and> (b0 = 0xED \<longrightarrow> b1 \<le> 0x9F) \<and>
     (b0 = 0xF0 \<longrightarrow> 0x90 \<le> b1) \<and> (b0 = 0xF4 \<longrightarrow> b1 \<le> 0x8F)"

text \<open>\<^verbatim>\<open>utf8.DecodeRune\<close> on a sequence that is not empty: the code point and its width.\<close>

fun DecodeRune :: "nat list \<Rightarrow> nat \<times> nat" where
  "DecodeRune [] = (RuneError, 0)"
| "DecodeRune (b0 # r) =
     (if b0 < 0x80 then (b0, 1)
      else if 0xC2 \<le> b0 \<and> b0 \<le> 0xDF then
        (case r of b1 # _ \<Rightarrow> if second_ok b0 b1 then (b0 mod 32 * 64 + b1 mod 64, 2) else (RuneError, 1)
                 | _ \<Rightarrow> (RuneError, 1))
      else if 0xE0 \<le> b0 \<and> b0 \<le> 0xEF then
        (case r of b1 # b2 # _ \<Rightarrow>
             if second_ok b0 b1 \<and> tail_byte b2 then (b0 mod 16 * 4096 + b1 mod 64 * 64 + b2 mod 64, 3) else (RuneError, 1)
         | _ \<Rightarrow> (RuneError, 1))
      else if 0xF0 \<le> b0 \<and> b0 \<le> 0xF4 then
        (case r of b1 # b2 # b3 # _ \<Rightarrow>
             if second_ok b0 b1 \<and> tail_byte b2 \<and> tail_byte b3
             then (b0 mod 8 * 262144 + b1 mod 64 * 4096 + b2 mod 64 * 64 + b3 mod 64, 4) else (RuneError, 1)
         | _ \<Rightarrow> (RuneError, 1))
      else (RuneError, 1))"

abbreviation surrogate :: "nat \<Rightarrow> bool" where
  "surrogate r \<equiv> 0xD800 \<le> r \<and> r < 0xE000"

abbreviation valid_rune :: "nat \<Rightarrow> bool" where
  "valid_rune r \<equiv> r \<le> 0x10FFFF \<and> \<not> surrogate r"

text \<open>Three bytes for a code point, whether or not it is a surrogate.\<close>

definition three_bytes :: "nat \<Rightarrow> nat list" where
  "three_bytes r = [0xE0 + r div 4096, 0x80 + r div 64 mod 64, 0x80 + r mod 64]"

definition EncodeRune :: "nat \<Rightarrow> nat list" where
  "EncodeRune r =
     (if r \<le> 0x7F then [r]
      else if r \<le> 0x7FF then [0xC0 + r div 64, 0x80 + r mod 64]
      else if r > 0x10FFFF \<or> surrogate r then three_bytes RuneError
      else if r \<le> 0xFFFF then three_bytes r
      else [0xF0 + r div 262144, 0x80 + r div 4096 mod 64, 0x80 + r div 64 mod 64, 0x80 + r mod 64])"

section \<open>UTF-16\<close>

definition utf16_EncodeRune :: "nat \<Rightarrow> u16 list" where
  "utf16_EncodeRune r =
     (if r < 0xD800 \<or> 0xE000 \<le> r \<and> r < 0x10000 then [word_of_nat r]
      else if 0x10000 \<le> r \<and> r \<le> 0x10FFFF
      then [word_of_nat (0xD800 + (r - 0x10000) div 1024), word_of_nat (0xDC00 + (r - 0x10000) mod 1024)]
      else [word_of_nat RuneError])"

text \<open>\<^verbatim>\<open>syscall.encodeWTF16\<close>.\<close>

definition lone_surrogate :: "nat list \<Rightarrow> nat option" where
  "lone_surrogate s =
     (case s of
        b0 # b1 # b2 # _ \<Rightarrow>
          if b0 = 0xED \<and> 0xA0 \<le> b1 \<and> b1 \<le> 0xBF \<and> tail_byte b2 then Some (0xD000 + b1 mod 64 * 64 + b2 mod 64) else None
      | _ \<Rightarrow> None)"

function encodeWTF16 :: "nat list \<Rightarrow> u16 list" where
  "encodeWTF16 s =
     (if s = [] then []
      else (case DecodeRune s of
              (r, n) \<Rightarrow>
                (case (if r = RuneError then lone_surrogate s else None) of
                   Some u \<Rightarrow> word_of_nat u # encodeWTF16 (drop 3 s)
                 | None \<Rightarrow> utf16_EncodeRune r @ encodeWTF16 (drop n s))))"
  by pat_completeness auto

lemma DecodeRune_width: "s \<noteq> [] \<Longrightarrow> 0 < snd (DecodeRune s)"
  by (cases s) (auto split: list.splits)

termination encodeWTF16
  by (relation "measure length") (auto simp: prod_eq_iff simp del: DecodeRune.simps intro!: diff_less DecodeRune_width)

declare encodeWTF16.simps [simp del]

definition UTF16FromString :: "gostring \<Rightarrow> u16 list res" where
  "UTF16FromString s =
     (if CHR 0x00 \<in> set s then Inl EINVAL else Inr (encodeWTF16 (map of_char s) @ [0]))"

text \<open>\<^verbatim>\<open>syscall.decodeWTF16\<close> and the cut at the first NUL of \<^verbatim>\<open>syscall.UTF16ToString\<close>.\<close>

fun decodeWTF16 :: "nat list \<Rightarrow> nat list" where
  "decodeWTF16 [] = []"
| "decodeWTF16 (r # s) =
     (if r < 0xD800 \<or> 0xE000 \<le> r then EncodeRune r @ decodeWTF16 s
      else (case s of
              r2 # s' \<Rightarrow>
                if r < 0xDC00 \<and> 0xDC00 \<le> r2 \<and> r2 < 0xE000
                then EncodeRune ((r - 0xD800) * 1024 + (r2 - 0xDC00) + 0x10000) @ decodeWTF16 s'
                else three_bytes r @ decodeWTF16 s
            | [] \<Rightarrow> three_bytes r))"

definition UTF16ToString :: "u16 list \<Rightarrow> gostring" where
  "UTF16ToString u = map char_of (decodeWTF16 (map unat (takeWhile (\<lambda>c. c \<noteq> 0) u)))"

section \<open>Round trips\<close>

lemma unat_u16 [simp]: "n < 65536 \<Longrightarrow> unat (word_of_nat n :: u16) = n"
  by (simp add: unat_of_nat)

lemma u16_zero [simp]:
  assumes "n < 65536"
  shows "(word_of_nat n :: u16) = 0 \<longleftrightarrow> n = 0"
proof
  assume "(word_of_nat n :: u16) = 0"
  with unat_u16 [OF assms] show "n = 0" by simp
qed simp

text \<open>The digits of a code point to base 64.\<close>

lemma div_4096: "r div 4096 = r div 64 div (64 :: nat)"
  by (simp add: div_mult2_eq [symmetric])

lemma div_262144: "r div 262144 = r div 64 div 64 div (64 :: nat)"
  by (simp add: div_mult2_eq [symmetric])

lemma rune_digits3: "r div 64 div 64 * 4096 + r div 64 mod 64 * 64 + r mod 64 = (r :: nat)"
  using div_mult_mod_eq [of "r div 64" 64] div_mult_mod_eq [of r 64] by linarith

lemma rune_digits4: "r div 64 div 64 div 64 * 262144 + r div 64 div 64 mod 64 * 4096 + r div 64 mod 64 * 64 + r mod 64 = (r :: nat)"
  using div_mult_mod_eq [of "r div 64 div 64" 64] rune_digits3 [of r] by linarith

lemma mod_add_multiple [simp]:
  "b < 16 \<Longrightarrow> (0xE0 + b) mod 16 = (b :: nat)" "b < 8 \<Longrightarrow> (0xF0 + b) mod 8 = b" "b < 32 \<Longrightarrow> (0xC0 + b) mod 32 = b"
  "b < 64 \<Longrightarrow> (0x80 + b) mod 64 = b"
  by (simp_all add: mod_add_left_eq [symmetric])

text \<open>Encoding a code point in UTF-8 and decoding it.\<close>

lemma tail_digit [simp]: "n mod 64 \<le> (63 :: nat)"
  using mod_less_divisor [of 64 n] by linarith

lemma DecodeRune_2:
  assumes "0x7F < r" "r \<le> 0x7FF"
  shows "DecodeRune (EncodeRune r @ s) = (r, 2)"
proof -
  have "r div 64 < 32" "2 \<le> r div 64" using assms by auto
  with assms show ?thesis by (simp add: EncodeRune_def second_ok_def)
qed

lemma DecodeRune_3:
  assumes "0x7FF < r" "r \<le> 0xFFFF" "\<not> surrogate r"
  shows "DecodeRune (EncodeRune r @ s) = (r, 3)"
proof -
  let ?d = "r div 64 div 64" and ?e = "r div 64 mod 64"
  have d: "?d < 16" "?d \<le> 15" "?e \<le> 63" "r mod 64 \<le> 63" using assms by auto
  have "second_ok (0xE0 + ?d) (0x80 + ?e)"
    using assms rune_digits3 [of r] d by (auto simp: second_ok_def)
  moreover have "EncodeRune r = three_bytes r" using assms by (auto simp: EncodeRune_def)
  ultimately show ?thesis
    using d rune_digits3 [of r] by (simp add: three_bytes_def div_4096)
qed

lemma DecodeRune_4:
  assumes "0xFFFF < r" "r \<le> 0x10FFFF"
  shows "DecodeRune (EncodeRune r @ s) = (r, 4)"
proof -
  let ?c = "r div 64 div 64 div 64" and ?d = "r div 64 div 64 mod 64" and ?e = "r div 64 mod 64"
  have d: "?c \<le> 4" "?d \<le> 63" "?e \<le> 63" "r mod 64 \<le> 63" using assms by auto
  have "?c = 0 \<Longrightarrow> 16 \<le> ?d" "?c = 4 \<Longrightarrow> ?d \<le> 15"
    using assms rune_digits4 [of r] d by linarith+
  then have "second_ok (0xF0 + ?c) (0x80 + ?d)"
    using d by (simp add: second_ok_def)
  moreover have "(0xF0 + ?c) mod 8 = ?c" using d by simp
  moreover have "EncodeRune r = [0xF0 + ?c, 0x80 + ?d, 0x80 + ?e, 0x80 + r mod 64]"
    using assms by (auto simp: EncodeRune_def div_4096 div_262144)
  ultimately show ?thesis
    using d rune_digits4 [of r] by simp
qed

lemma length_EncodeRune:
  "valid_rune r \<Longrightarrow> length (EncodeRune r) = (if r \<le> 0x7F then 1 else if r \<le> 0x7FF then 2 else if r \<le> 0xFFFF then 3 else 4)"
  by (auto simp: EncodeRune_def three_bytes_def)

lemma DecodeRune_EncodeRune:
  assumes "valid_rune r"
  shows "DecodeRune (EncodeRune r @ s) = (r, length (EncodeRune r))"
  unfolding length_EncodeRune [OF assms]
  using assms DecodeRune_2 [of r s] DecodeRune_3 [of r s] DecodeRune_4 [of r s]
  by (auto simp: EncodeRune_def [of r] simp del: DecodeRune.simps) (simp_all add: EncodeRune_def)


lemma EncodeRune_nonempty [simp]: "EncodeRune r \<noteq> []"
  by (simp add: EncodeRune_def three_bytes_def)

lemma encodeWTF16_rune:
  assumes "valid_rune r"
  shows "encodeWTF16 (EncodeRune r @ s) = utf16_EncodeRune r @ encodeWTF16 s"
proof -
  have "lone_surrogate (EncodeRune RuneError @ s) = None"
    by (simp add: EncodeRune_def three_bytes_def RuneError_def lone_surrogate_def)
  then show ?thesis
    by (subst encodeWTF16.simps) (auto simp: DecodeRune_EncodeRune [OF assms] simp del: DecodeRune.simps)
qed

lemma encodeWTF16_runes:
  "\<forall>r \<in> set rs. valid_rune r \<Longrightarrow> encodeWTF16 (concat (map EncodeRune rs)) = concat (map utf16_EncodeRune rs)"
proof (induction rs)
  case Nil
  show ?case by (simp add: encodeWTF16.simps)
qed (simp add: encodeWTF16_rune)

lemma utf16_units:
  assumes "valid_rune r"
  shows "map unat (utf16_EncodeRune r) =
     (if r < 0x10000 then [r] else [0xD800 + (r - 0x10000) div 1024, 0xDC00 + (r - 0x10000) mod 1024])"
proof -
  have "(r - 0x10000) div 1024 < 1024" using assms by auto
  moreover have "(r - 0x10000) mod 1024 < 1024" by simp
  ultimately have "0xD800 + (r - 0x10000) div 1024 < 65536" "0xDC00 + (r - 0x10000) mod 1024 < 65536" by linarith+
  with assms show ?thesis
    by (auto simp: utf16_EncodeRune_def simp del: of_nat_add)
qed

lemma decodeWTF16_rune:
  assumes "valid_rune r"
  shows "decodeWTF16 (map unat (utf16_EncodeRune r) @ s) = EncodeRune r @ decodeWTF16 s"
proof (cases "r < 0x10000")
  case False
  let ?h = "(r - 0x10000) div 1024" and ?l = "(r - 0x10000) mod 1024"
  have "?h < 1024" "?l < 1024" using assms by auto
  moreover have "?h * 1024 + ?l + 0x10000 = r"
    using False div_mult_mod_eq [of "r - 0x10000" 1024] by linarith
  ultimately show ?thesis using False by (simp add: utf16_units [OF assms])
qed (use assms in \<open>auto simp: utf16_units [OF assms]\<close>)

lemma decodeWTF16_runes:
  "\<forall>r \<in> set rs. valid_rune r \<Longrightarrow> decodeWTF16 (map unat (concat (map utf16_EncodeRune rs))) = concat (map EncodeRune rs)"
  by (induction rs) (simp_all add: decodeWTF16_rune)

lemma utf16_no_NUL:
  assumes "valid_rune r" "r \<noteq> 0"
  shows "0 \<notin> set (utf16_EncodeRune r)"
proof
  assume "0 \<in> set (utf16_EncodeRune r)"
  then have "0 \<in> set (map unat (utf16_EncodeRune r))" by (metis image_eqI list.set_map unat_0)
  with assms show False by (auto simp: utf16_units [OF assms(1)] split: if_splits)
qed

lemma EncodeRune_no_NUL: "r \<noteq> 0 \<Longrightarrow> 0 \<notin> set (EncodeRune r)"
  by (auto simp: EncodeRune_def three_bytes_def)

lemma EncodeRune_byte: "b \<in> set (EncodeRune r) \<Longrightarrow> b < 256"
proof -
  have "0x10FFFF div 262144 = (4 :: nat)" by simp
  moreover have "r div 262144 \<le> 0x10FFFF div 262144" if "r \<le> 0x10FFFF" using that by (rule div_le_mono)
  ultimately have "r \<le> 0x10FFFF \<Longrightarrow> r div 262144 \<le> 4" by simp
  then show "b \<in> set (EncodeRune r) \<Longrightarrow> b < 256"
    using tail_digit [of r] tail_digit [of "r div 64"] tail_digit [of "r div 4096"]
    by (auto simp: EncodeRune_def three_bytes_def RuneError_def split: if_splits)
qed

text \<open>The text of a sequence of code points.\<close>

definition text_of_runes :: "nat list \<Rightarrow> gostring" where
  "text_of_runes rs = map char_of (concat (map EncodeRune rs))"

lemma codes_text_of_runes: "map of_char (text_of_runes rs) = concat (map EncodeRune rs)"
  by (auto simp: text_of_runes_def intro!: map_idI dest!: EncodeRune_byte)

lemma UTF16FromString_runes:
  assumes "\<forall>r \<in> set rs. valid_rune r \<and> r \<noteq> 0"
  shows "UTF16FromString (text_of_runes rs) = Inr (concat (map utf16_EncodeRune rs) @ [0])"
proof -
  have "0 \<notin> set (map of_char (text_of_runes rs) :: nat list)"
    unfolding codes_text_of_runes using assms EncodeRune_no_NUL by auto
  then have "CHR 0x00 \<notin> set (text_of_runes rs)" by force
  with assms show ?thesis
    by (simp add: UTF16FromString_def codes_text_of_runes encodeWTF16_runes)
qed

lemma takeWhile_stop: "\<forall>x \<in> set a. P x \<Longrightarrow> \<not> P y \<Longrightarrow> takeWhile P (a @ y # b) = a"
  by (induction a) auto

text \<open>Text given to Windows and read back is the same text.\<close>

lemma UTF16ToString_FromString:
  assumes "\<forall>r \<in> set rs. valid_rune r \<and> r \<noteq> 0" "UTF16FromString (text_of_runes rs) = Inr u"
  shows "UTF16ToString (u @ v) = text_of_runes rs"
proof -
  have "takeWhile (\<lambda>c. c \<noteq> 0) (concat (map utf16_EncodeRune rs) @ 0 # v) = concat (map utf16_EncodeRune rs)"
    using assms(1) utf16_no_NUL by (intro takeWhile_stop) fastforce+
  moreover have "u = concat (map utf16_EncodeRune rs) @ [0]"
    using assms(2) UTF16FromString_runes [OF assms(1)] by simp
  ultimately show ?thesis
    using assms(1) by (simp add: UTF16ToString_def decodeWTF16_runes text_of_runes_def)
qed

text \<open>ASCII text is its own sequence of code points and of units.\<close>

lemma text_of_ascii: "\<forall>c \<in> set s. of_char c < (128 :: nat) \<Longrightarrow> text_of_runes (map of_char s) = s"
  by (induction s) (simp_all add: text_of_runes_def EncodeRune_def)

lemma of_char_zero: "of_char c = (0 :: nat) \<longleftrightarrow> c = CHR 0x00"
  using of_char_eq_iff [of c "CHR 0x00"] by simp

lemma UTF16FromString_ascii:
  assumes "\<forall>c \<in> set s. of_char c < (128 :: nat) \<and> c \<noteq> CHR 0x00"
  shows "UTF16FromString s = Inr (map (\<lambda>c. word_of_nat (of_char c)) s @ [0])"
proof -
  have "valid_rune (of_char c) \<and> (of_char c :: nat) \<noteq> 0" if "c \<in> set s" for c
    using assms that of_char_zero [of c] by fastforce
  then have "UTF16FromString (text_of_runes (map of_char s)) = Inr (concat (map utf16_EncodeRune (map of_char s)) @ [0])"
    by (intro UTF16FromString_runes) auto
  moreover have "utf16_EncodeRune (of_char c) = [word_of_nat (of_char c)]" if "c \<in> set s" for c
  proof -
    have "(of_char c :: nat) < 0xD800" using bspec [OF assms that] by linarith
    then show ?thesis by (simp only: utf16_EncodeRune_def if_True simp_thms)
  qed
  then have "map utf16_EncodeRune (map of_char s) = map (\<lambda>c. [word_of_nat (of_char c)]) s"
    by simp
  then have "concat (map utf16_EncodeRune (map of_char s)) = map (\<lambda>c. word_of_nat (of_char c)) s"
    by (simp only: concat_map_singleton)
  ultimately show ?thesis
    using assms by (simp add: text_of_ascii)
qed

text \<open>The same as a code equation, so that ASCII text is encoded without arithmetic on numbers.\<close>

lemma ascii_digit7: "\<not> digit7 c \<Longrightarrow> of_char c < (128 :: nat)"
  by (cases c) (simp add: of_char_def)

lemma UTF16FromString_code [code]:
  "UTF16FromString s =
     (if list_ex (\<lambda>c. c = CHR 0x00) s then Inl EINVAL
      else if list_all (\<lambda>c. \<not> digit7 c) s then Inr (map of_char s @ [0])
      else Inr (encodeWTF16 (map of_char s) @ [0]))"
proof -
  have "list_ex (\<lambda>c. c = CHR 0x00) s \<longleftrightarrow> CHR 0x00 \<in> set s" by (auto simp: list_ex_iff)
  moreover have "UTF16FromString s = Inr (map of_char s @ [0])" if "CHR 0x00 \<notin> set s" "list_all (\<lambda>c. \<not> digit7 c) s"
    using that by (subst UTF16FromString_ascii) (auto simp: list_all_iff of_nat_of_char intro: ascii_digit7)
  ultimately show ?thesis by (simp add: UTF16FromString_def)
qed

end
