(* ===== verification/Systray.thy ===== *)
theory Systray
  imports GoStrings GoUtf16 "HOL-Library.Multiset"
begin

text \<open>
  The menu of the notification tray: \<^verbatim>\<open>systray/systray.go\<close> and its bookkeeping over the Win32 menu
  functions in \<^verbatim>\<open>systray/systray_windows.go\<close>. The Win32 functions are modelled by what they are
  documented to do to a menu, and each call of one may fail.
\<close>

section \<open>The tray and the operating system\<close>

text \<open>What the code passes to and gets shown from \<^verbatim>\<open>MENUITEMINFO\<close>.\<close>

record menuItemInfo =
  mi_Type :: u32
  mi_State :: u32
  mi_ID :: u32
  mi_TypeData :: "u16 list"
  mi_BMPItem :: nat
  mi_SubMenu :: nat

text \<open>The icon in the notification area; the fields the code leaves at zero are left out.\<close>

record notifyIconData =
  nid_Size :: u32
  nid_Wnd :: nat
  nid_ID :: u32
  nid_Flags :: u32
  nid_CallbackMessage :: u32
  nid_Icon :: nat
  nid_Tip :: "u16 list"

record wndClassEx =
  wc_Size :: u32
  wc_Style :: u32
  wc_Instance :: nat
  wc_Icon :: nat
  wc_Cursor :: nat
  wc_Background :: nat
  wc_ClassName :: "u16 list"
  wc_IconSm :: nat

text \<open>What a handle of the operating system stands for.\<close>

datatype object_kind = KModule | KIcon | KCursor | KWindow | KMenu | KBitmap | KScreenDC | KMemDC

type_synonym uintptr = "64 word"
type_synonym message = "u32 \<times> uintptr \<times> uintptr"

text \<open>
  The tray: first the fields of \<^verbatim>\<open>winTray\<close>, then the operating system as the package sees it. A handle
  is a number, 0 is no handle and \<open>next_handle\<close> one that was never used. \<open>objects\<close> are the live
  objects, \<open>hmenu\<close> the content of the menus, \<open>selected\<close> the bitmap selected into a device context,
  \<open>classes\<close> the registered window classes, \<open>shell_icons\<close> the icons in the notification area,
  \<open>notified\<close> the windows told about session changes, \<open>posted\<close> the messages put into the queue,
  \<open>quit_posted\<close> whether \<^verbatim>\<open>PostQuitMessage\<close> was called, \<open>popups\<close> the menus that were popped up,
  \<open>taskbar_id\<close> the message identifier registered for a restart of the shell, \<open>shared_icons\<close> the
  icons loaded with \<^verbatim>\<open>LR_SHARED\<close>. \<open>fails\<close> says which calls fail, counted by \<open>calls\<close>.
\<close>

record winTray =
  inst_handle :: nat
  icon_handle :: nat
  cursor_handle :: nat
  window :: nat
  loadedImages :: "gostring \<rightharpoonup> nat"
  menus :: "u32 \<rightharpoonup> nat"
  menuOf :: "u32 \<rightharpoonup> nat"
  menuItemIcons :: "u32 \<rightharpoonup> nat"
  visibleItems :: "u32 \<rightharpoonup> u32 list"
  nid :: "notifyIconData option"
  wcex :: "wndClassEx option"
  wmSystrayMessage :: u32
  wmTaskbarCreated :: u32
  sessionRegistered :: bool
  objects :: "nat \<rightharpoonup> object_kind"
  hmenu :: "nat \<Rightarrow> menuItemInfo list"
  selected :: "nat \<rightharpoonup> nat"
  classes :: "u16 list list"
  shell_icons :: "nat \<times> u32 \<rightharpoonup> notifyIconData"
  notified :: "nat list"
  posted :: "(nat \<times> message) list"
  quit_posted :: bool
  popups :: "nat list"
  taskbar_id :: u32
  shared_icons :: "u32 \<rightharpoonup> nat"
  next_handle :: nat
  calls :: nat
  fails :: "nat \<Rightarrow> goerr option"

definition ERROR_SUCCESS :: goerr where "ERROR_SUCCESS = OsErr ''The operation completed successfully.''"
definition ERROR_INVALID_MENU_HANDLE :: goerr where "ERROR_INVALID_MENU_HANDLE = OsErr ''Invalid menu handle.''"
definition ERROR_MENU_ITEM_NOT_FOUND :: goerr where "ERROR_MENU_ITEM_NOT_FOUND = OsErr ''A menu item was not found.''"

definition api_call :: "winTray \<Rightarrow> goerr option \<times> winTray" where
  "api_call t = (fails t (calls t), t\<lparr>calls := calls t + 1\<rparr>)"

definition CreateMenu :: "winTray \<Rightarrow> nat res \<times> winTray" where
  "CreateMenu t =
     (case api_call t of
        (Some err, t') \<Rightarrow> (Inl err, t')
      | (None, t') \<Rightarrow>
          (Inr (next_handle t'),
           t'\<lparr>next_handle := next_handle t' + 1, objects := (objects t')(next_handle t' \<mapsto> KMenu), hmenu := (hmenu t')(next_handle t' := [])\<rparr>))"

abbreviation item_ids :: "nat \<Rightarrow> winTray \<Rightarrow> u32 list" where
  "item_ids h t \<equiv> map mi_ID (hmenu t h)"

text \<open>\<^verbatim>\<open>SetMenuItemInfo\<close> by identifier, given how the item changes.\<close>

definition SetMenuItemInfo :: "nat \<Rightarrow> u32 \<Rightarrow> (menuItemInfo \<Rightarrow> menuItemInfo) \<Rightarrow> winTray \<Rightarrow> goerr option \<times> winTray" where
  "SetMenuItemInfo h i f t =
     (case api_call t of
        (Some err, t') \<Rightarrow> (Some err, t')
      | (None, t') \<Rightarrow>
          if i \<in> set (item_ids h t')
          then (None, t'\<lparr>hmenu := (hmenu t')(h := map (\<lambda>m. if mi_ID m = i then (f m)\<lparr>mi_ID := i\<rparr> else m) (hmenu t' h))\<rparr>)
          else (Some ERROR_MENU_ITEM_NOT_FOUND, t'))"

definition InsertMenuItem :: "nat \<Rightarrow> nat \<Rightarrow> menuItemInfo \<Rightarrow> winTray \<Rightarrow> goerr option \<times> winTray" where
  "InsertMenuItem h pos mi t =
     (case api_call t of
        (Some err, t') \<Rightarrow> (Some err, t')
      | (None, t') \<Rightarrow>
          if h = 0 then (Some ERROR_INVALID_MENU_HANDLE, t')
          else (None, t'\<lparr>hmenu := (hmenu t')(h := take pos (hmenu t' h) @ mi # drop pos (hmenu t' h))\<rparr>))"

fun remove_first :: "('a \<Rightarrow> bool) \<Rightarrow> 'a list \<Rightarrow> 'a list" where
  "remove_first P [] = []"
| "remove_first P (x # xs) = (if P x then xs else x # remove_first P xs)"

definition DeleteMenu :: "nat \<Rightarrow> u32 \<Rightarrow> winTray \<Rightarrow> goerr option \<times> winTray" where
  "DeleteMenu h i t =
     (case api_call t of
        (Some err, t') \<Rightarrow> (Some err, t')
      | (None, t') \<Rightarrow>
          if i \<in> set (item_ids h t')
          then (None, t'\<lparr>hmenu := (hmenu t')(h := remove_first (\<lambda>m. mi_ID m = i) (hmenu t' h))\<rparr>)
          else (Some ERROR_MENU_ITEM_NOT_FOUND, t'))"

section \<open>Visible items\<close>

definition visible :: "u32 \<Rightarrow> winTray \<Rightarrow> u32 list" where
  "visible parent t = (case visibleItems t parent of None \<Rightarrow> [] | Some l \<Rightarrow> l)"

definition delFromVisibleItems :: "u32 \<Rightarrow> u32 \<Rightarrow> winTray \<Rightarrow> winTray" where
  "delFromVisibleItems parent val t =
     t\<lparr>visibleItems := (visibleItems t)(parent \<mapsto> remove_first (\<lambda>v. v = val) (visible parent t))\<rparr>"

definition addToVisibleItems :: "u32 \<Rightarrow> u32 \<Rightarrow> winTray \<Rightarrow> winTray" where
  "addToVisibleItems parent val t =
     t\<lparr>visibleItems := (visibleItems t)(parent \<mapsto>
         (case visibleItems t parent of None \<Rightarrow> [val] | Some l \<Rightarrow> sort (l @ [val])))\<rparr>"

text \<open>The position of an identifier; \<open>None\<close> is the \<^verbatim>\<open>-1\<close> of the code.\<close>

fun index_of :: "'a \<Rightarrow> 'a list \<Rightarrow> nat option" where
  "index_of v [] = None"
| "index_of v (x # xs) = (if v = x then Some 0 else map_option Suc (index_of v xs))"

definition getVisibleItemIndex :: "u32 \<Rightarrow> u32 \<Rightarrow> winTray \<Rightarrow> nat option" where
  "getVisibleItemIndex parent val t = index_of val (visible parent t)"

section \<open>Items\<close>

definition createMenu :: "winTray \<Rightarrow> goerr option \<times> winTray" where
  "createMenu t =
     (case CreateMenu t of
        (Inl err, t1) \<Rightarrow> (Some err, t1)
      | (Inr h, t1) \<Rightarrow> api_call (t1\<lparr>menus := (menus t1)(0 \<mapsto> h)\<rparr>))"

text \<open>An item that is in no menu has no entry in \<^verbatim>\<open>menuOf\<close>, which the code reads as handle 0.\<close>

definition convertToSubMenu :: "u32 \<Rightarrow> winTray \<Rightarrow> nat res \<times> winTray" where
  "convertToSubMenu menuItemId t =
     (case CreateMenu t of
        (Inl err, t1) \<Rightarrow> (Inl err, t1)
      | (Inr menu, t1) \<Rightarrow>
          (let hMenu = (case menuOf t1 menuItemId of None \<Rightarrow> 0 | Some h \<Rightarrow> h)
           in case SetMenuItemInfo hMenu menuItemId (\<lambda>m. m\<lparr>mi_SubMenu := menu\<rparr>) t1 of
                (Some err, t2) \<Rightarrow> (Inl err, t2)
              | (None, t2) \<Rightarrow> (Inr menu, t2\<lparr>menus := (menus t2)(menuItemId \<mapsto> menu)\<rparr>)))"

definition item_state :: "bool \<Rightarrow> bool \<Rightarrow> u32" where
  "item_state disabled checked = (if disabled then 0x3 else 0) OR (if checked then 0x8 else 0)"

text \<open>
  \<^verbatim>\<open>addOrUpdateMenuItem\<close>: \<open>insert_item\<close> is its last part, which inserts an item that is not shown yet,
  \<open>place_item\<close> the choice between changing and inserting it.
\<close>

definition insert_item :: "nat \<Rightarrow> u32 \<Rightarrow> u32 \<Rightarrow> menuItemInfo \<Rightarrow> winTray \<Rightarrow> goerr option \<times> winTray" where
  "insert_item menu menuItemId parentId mi t =
     (let t1 = addToVisibleItems parentId menuItemId t
      in case InsertMenuItem menu (the (getVisibleItemIndex parentId menuItemId t1)) mi t1 of
           (Some err, t2) \<Rightarrow> (Some err, delFromVisibleItems parentId menuItemId t2)
         | (None, t2) \<Rightarrow> (None, t2\<lparr>menuOf := (menuOf t2)(menuItemId \<mapsto> menu)\<rparr>))"

definition place_item ::
    "u32 \<Rightarrow> u32 \<Rightarrow> menuItemInfo \<Rightarrow> (menuItemInfo \<Rightarrow> menuItemInfo) \<Rightarrow> winTray \<Rightarrow> goerr option \<times> winTray" where
  "place_item menuItemId parentId mi update t =
     (case menus t parentId of
        None \<Rightarrow>
          (case convertToSubMenu parentId t of
             (Inl err, t1) \<Rightarrow> (Some err, t1)
           | (Inr menu, t1) \<Rightarrow> insert_item menu menuItemId parentId mi (t1\<lparr>menus := (menus t1)(parentId \<mapsto> menu)\<rparr>))
      | Some menu \<Rightarrow>
          (if getVisibleItemIndex parentId menuItemId t \<noteq> None
           then (case SetMenuItemInfo menu menuItemId update t of
                   (None, t1) \<Rightarrow> (None, t1)
                 | (Some _, t1) \<Rightarrow> insert_item menu menuItemId parentId mi t1)
           else insert_item menu menuItemId parentId mi t))"

definition tray_addOrUpdateMenuItem ::
    "u32 \<Rightarrow> u32 \<Rightarrow> gostring \<Rightarrow> bool \<Rightarrow> bool \<Rightarrow> winTray \<Rightarrow> goerr option \<times> winTray" where
  "tray_addOrUpdateMenuItem menuItemId parentId title disabled checked t =
     (case UTF16FromString title of
        Inl err \<Rightarrow> (Some err, t)
      | Inr titlePtr \<Rightarrow>
          (let hIcon = (case menuItemIcons t menuItemId of None \<Rightarrow> 0 | Some h \<Rightarrow> h)
           in place_item menuItemId parentId
                \<lparr>mi_Type = 0, mi_State = item_state disabled checked, mi_ID = menuItemId, mi_TypeData = titlePtr,
                 mi_BMPItem = hIcon, mi_SubMenu = 0\<rparr>
                (\<lambda>m. m\<lparr>mi_Type := 0, mi_State := item_state disabled checked, mi_TypeData := titlePtr,
                       mi_BMPItem := (if hIcon > 0 then hIcon else mi_BMPItem m)\<rparr>) t))"

text \<open>A separator stays among the visible items when inserting it fails.\<close>

definition addSeparatorMenuItem :: "u32 \<Rightarrow> u32 \<Rightarrow> winTray \<Rightarrow> goerr option \<times> winTray" where
  "addSeparatorMenuItem menuItemId parentId t =
     (let mi = \<lparr>mi_Type = 0x800, mi_State = 0, mi_ID = menuItemId, mi_TypeData = [], mi_BMPItem = 0, mi_SubMenu = 0\<rparr>;
          t1 = addToVisibleItems parentId menuItemId t;
          menu = (case menus t1 parentId of None \<Rightarrow> 0 | Some h \<Rightarrow> h)
      in InsertMenuItem menu (the (getVisibleItemIndex parentId menuItemId t1)) mi t1)"

definition tray_hideMenuItem :: "u32 \<Rightarrow> u32 \<Rightarrow> winTray \<Rightarrow> goerr option \<times> winTray" where
  "tray_hideMenuItem menuItemId parentId t =
     (let menu = (case menus t parentId of None \<Rightarrow> 0 | Some h \<Rightarrow> h)
      in case DeleteMenu menu menuItemId t of
           (Some err, t1) \<Rightarrow>
             if \<not> errors_Is err ERROR_SUCCESS then (Some err, t1) else (None, delFromVisibleItems parentId menuItemId t1)
         | (None, t1) \<Rightarrow> (None, delFromVisibleItems parentId menuItemId t1))"

section \<open>The package\<close>

text \<open>
  \<^verbatim>\<open>MenuItem\<close>; a parent is known by its identifier. Every item is in the map from the moment it is
  made, so the map is also the store the package's callers hold pointers into.
\<close>

record MenuItem =
  item_id :: u32
  item_title :: gostring
  item_tooltip :: gostring
  item_disabled :: bool
  item_checked :: bool
  isCheckable :: bool
  item_parent :: "u32 option"

record systray =
  currentID :: u32
  menuItems :: "u32 \<rightharpoonup> MenuItem"
  tray :: winTray
  quitDone :: bool

definition newMenuItem :: "gostring \<Rightarrow> gostring \<Rightarrow> u32 option \<Rightarrow> systray \<Rightarrow> MenuItem \<times> systray" where
  "newMenuItem title tooltip parent s =
     (let i = currentID s + 1
      in (\<lparr>item_id = i, item_title = title, item_tooltip = tooltip, item_disabled = False, item_checked = False,
           isCheckable = False, item_parent = parent\<rparr>, s\<lparr>currentID := i\<rparr>))"

definition item_String :: "MenuItem \<Rightarrow> gostring" where
  "item_String item =
     (case item_parent item of
        None \<Rightarrow> ''MenuItem['' @ Itoa (uint (item_id item)) @ '', '' @ Quote (item_title item) @ '']''
      | Some p \<Rightarrow> ''MenuItem['' @ Itoa (uint (item_id item)) @ '', parent '' @ Itoa (uint p) @ '', '' @ Quote (item_title item) @ '']'')"

definition parentId :: "MenuItem \<Rightarrow> u32" where
  "parentId item = (case item_parent item of None \<Rightarrow> 0 | Some p \<Rightarrow> p)"

definition addOrUpdateMenuItem :: "MenuItem \<Rightarrow> winTray \<Rightarrow> winTray" where
  "addOrUpdateMenuItem item t =
     snd (tray_addOrUpdateMenuItem (item_id item) (parentId item) (item_title item) (item_disabled item) (item_checked item) t)"

definition item_update :: "MenuItem \<Rightarrow> systray \<Rightarrow> systray" where
  "item_update item s =
     s\<lparr>menuItems := (menuItems s)(item_id item \<mapsto> item), tray := addOrUpdateMenuItem item (tray s)\<rparr>"

definition AddMenuItem :: "gostring \<Rightarrow> gostring \<Rightarrow> systray \<Rightarrow> systray" where
  "AddMenuItem title tooltip s = (case newMenuItem title tooltip None s of (item, s') \<Rightarrow> item_update item s')"

definition AddMenuItemCheckbox :: "gostring \<Rightarrow> gostring \<Rightarrow> bool \<Rightarrow> systray \<Rightarrow> systray" where
  "AddMenuItemCheckbox title tooltip checked s =
     (case newMenuItem title tooltip None s of
        (item, s') \<Rightarrow> item_update (item\<lparr>isCheckable := True, item_checked := checked\<rparr>) s')"

definition AddSubMenuItem :: "u32 \<Rightarrow> gostring \<Rightarrow> gostring \<Rightarrow> systray \<Rightarrow> systray" where
  "AddSubMenuItem i title tooltip s = (case newMenuItem title tooltip (Some i) s of (item, s') \<Rightarrow> item_update item s')"

definition AddSubMenuItemCheckbox :: "u32 \<Rightarrow> gostring \<Rightarrow> gostring \<Rightarrow> bool \<Rightarrow> systray \<Rightarrow> systray" where
  "AddSubMenuItemCheckbox i title tooltip checked s =
     (case newMenuItem title tooltip (Some i) s of
        (item, s') \<Rightarrow> item_update (item\<lparr>isCheckable := True, item_checked := checked\<rparr>) s')"

text \<open>\<^verbatim>\<open>addSeparator\<close> logs its error; here it is returned, for the statements about failed calls.\<close>

definition addSeparator :: "u32 \<Rightarrow> winTray \<Rightarrow> goerr option \<times> winTray" where
  "addSeparator i t = addSeparatorMenuItem i 0 t"

definition AddSeparator :: "systray \<Rightarrow> goerr option \<times> systray" where
  "AddSeparator s =
     (let i = currentID s + 1
      in case addSeparator i (tray s) of (r, t) \<Rightarrow> (r, s\<lparr>currentID := i, tray := t\<rparr>))"

text \<open>The methods that change an item and then show it.\<close>

definition item_change :: "(MenuItem \<Rightarrow> MenuItem) \<Rightarrow> u32 \<Rightarrow> systray \<Rightarrow> systray" where
  "item_change f i s = (case menuItems s i of None \<Rightarrow> s | Some item \<Rightarrow> item_update (f item) s)"

definition item_SetTitle :: "gostring \<Rightarrow> u32 \<Rightarrow> systray \<Rightarrow> systray" where
  "item_SetTitle title = item_change (\<lambda>m. m\<lparr>item_title := title\<rparr>)"
definition item_SetTooltip :: "gostring \<Rightarrow> u32 \<Rightarrow> systray \<Rightarrow> systray" where
  "item_SetTooltip tooltip = item_change (\<lambda>m. m\<lparr>item_tooltip := tooltip\<rparr>)"
definition item_Enable :: "u32 \<Rightarrow> systray \<Rightarrow> systray" where
  "item_Enable = item_change (\<lambda>m. m\<lparr>item_disabled := False\<rparr>)"
definition item_Disable :: "u32 \<Rightarrow> systray \<Rightarrow> systray" where
  "item_Disable = item_change (\<lambda>m. m\<lparr>item_disabled := True\<rparr>)"
definition item_Check :: "u32 \<Rightarrow> systray \<Rightarrow> systray" where
  "item_Check = item_change (\<lambda>m. m\<lparr>item_checked := True\<rparr>)"
definition item_Uncheck :: "u32 \<Rightarrow> systray \<Rightarrow> systray" where
  "item_Uncheck = item_change (\<lambda>m. m\<lparr>item_checked := False\<rparr>)"

definition item_Disabled :: "u32 \<Rightarrow> systray \<Rightarrow> bool option" where
  "item_Disabled i s = map_option item_disabled (menuItems s i)"
definition item_Checked :: "u32 \<Rightarrow> systray \<Rightarrow> bool option" where
  "item_Checked i s = map_option item_checked (menuItems s i)"

definition hideMenuItem :: "MenuItem \<Rightarrow> winTray \<Rightarrow> winTray" where
  "hideMenuItem item t = snd (tray_hideMenuItem (item_id item) (parentId item) t)"

definition showMenuItem :: "MenuItem \<Rightarrow> winTray \<Rightarrow> winTray" where
  "showMenuItem item t = addOrUpdateMenuItem item t"

definition item_Hide :: "u32 \<Rightarrow> systray \<Rightarrow> systray" where
  "item_Hide i s =
     (case menuItems s i of
        None \<Rightarrow> s
      | Some item \<Rightarrow> s\<lparr>tray := hideMenuItem item (tray s)\<rparr>)"

definition item_Show :: "u32 \<Rightarrow> systray \<Rightarrow> systray" where
  "item_Show i s =
     (case menuItems s i of
        None \<Rightarrow> s
      | Some item \<Rightarrow> s\<lparr>tray := showMenuItem item (tray s)\<rparr>)"

text \<open>\<^verbatim>\<open>Quit\<close>: the window is posted one closing message, however often it is called.\<close>

definition PostMessage :: "nat \<Rightarrow> message \<Rightarrow> winTray \<Rightarrow> goerr option \<times> winTray" where
  "PostMessage h m t =
     (case api_call t of
        (Some err, t') \<Rightarrow> (Some err, t')
      | (None, t') \<Rightarrow> (None, t'\<lparr>posted := posted t' @ [(h, m)]\<rparr>))"

definition quit :: "winTray \<Rightarrow> winTray" where
  "quit t = snd (PostMessage (window t) (0x0010, 0, 0) t)"

definition systray_Quit :: "systray \<Rightarrow> systray" where
  "systray_Quit s = (if quitDone s then s else s\<lparr>quitDone := True, tray := quit (tray s)\<rparr>)"

text \<open>The item a click is delivered to, if one of its readers is waiting.\<close>

definition systrayMenuItemSelected :: "(u32 \<Rightarrow> bool) \<Rightarrow> u32 \<Rightarrow> systray \<Rightarrow> u32 option" where
  "systrayMenuItemSelected waiting i s =
     (case menuItems s i of
        None \<Rightarrow> None
      | Some item \<Rightarrow> if waiting (item_id item) then Some (item_id item) else None)"

section \<open>Resource identifiers\<close>

text \<open>\<^verbatim>\<open>MakeIntResource\<close> and \<^verbatim>\<open>IntResource\<close>, over little-endian integers.\<close>

definition MakeIntResource :: "16 word \<Rightarrow> bytes" where
  "MakeIntResource i = [ucast i, ucast (drop_bit 8 i), 0, 0]"

definition LE_Uint32 :: "bytes \<Rightarrow> u32" where
  "LE_Uint32 b = BE_Uint32 (rev (take 4 b))"

definition IntResource :: "bytes \<Rightarrow> u32" where
  "IntResource b =
     (if length b = 4 then (let resID = LE_Uint32 b in if drop_bit 16 resID = 0 then resID else 0) else 0)"

lemma IntResource_MakeIntResource: "IntResource (MakeIntResource i) = ucast i"
proof -
  have le: "LE_Uint32 (MakeIntResource i) = ucast i"
    by (rule bit_word_eqI) (auto simp: LE_Uint32_def MakeIntResource_def bit_simps dest: bit_imp_le_length)
  have "drop_bit 16 (ucast i :: u32) = 0"
    by (rule bit_word_eqI) (auto simp: bit_simps dest: bit_imp_le_length)
  with le show ?thesis by (simp add: IntResource_def MakeIntResource_def)
qed

section \<open>Sorted lists of identifiers\<close>

lemma insort_split: "insort v l = takeWhile (\<lambda>x. x < v) l @ v # dropWhile (\<lambda>x. x < v) l"
  by (induction l) auto

lemma sort_snoc: "sorted l \<Longrightarrow> sort (l @ [v]) = takeWhile (\<lambda>x. x < v) l @ v # dropWhile (\<lambda>x. x < v) l"
  unfolding insort_split [symmetric] by (rule properties_for_sort) (simp_all add: sorted_insort)

lemma index_of_append: "v \<notin> set a \<Longrightarrow> index_of v (a @ v # b) = Some (length a)"
  by (induction a) auto

lemma index_of_sort:
  assumes "sorted l"
  shows "index_of v (sort (l @ [v])) = Some (length (takeWhile (\<lambda>x. x < v) l))"
  unfolding sort_snoc [OF assms] by (rule index_of_append) (auto dest: set_takeWhileD)

lemma index_of_None: "index_of v l = None \<longleftrightarrow> v \<notin> set l"
  by (induction l) auto

lemma remove_first_append: "\<forall>x \<in> set a. \<not> P x \<Longrightarrow> remove_first P (a @ b) = a @ remove_first P b"
  by (induction a) auto

lemma remove_first_sort: "sorted l \<Longrightarrow> remove_first (\<lambda>x. x = v) (sort (l @ [v])) = l"
  unfolding sort_snoc by (subst remove_first_append) (auto dest: set_takeWhileD)

lemma set_remove_first: "set (remove_first P l) \<subseteq> set l"
  by (induction l) auto

lemma sorted_remove_first: "sorted l \<Longrightarrow> sorted (remove_first P l)"
proof (induction l)
  case (Cons x l)
  then show ?case using set_remove_first [of P l] by auto
qed simp

lemma map_remove_first: "map f (remove_first (\<lambda>m. f m = i) l) = remove_first (\<lambda>v. v = i) (map f l)"
  by (induction l) auto

section \<open>The shown menus\<close>

text \<open>
  What holds of a tray: every menu shows exactly the items recorded as visible in it, in the
  order of their identifiers; different items own different menus; and a call of the operating
  system that fails does not report success.
\<close>

definition tray_ok :: "winTray \<Rightarrow> bool" where
  "tray_ok t \<longleftrightarrow> 0 < next_handle t \<and> hmenu t 0 = [] \<and>
     (\<forall>p h. menus t p = Some h \<longrightarrow> 0 < h \<and> h < next_handle t \<and> item_ids h t = visible p t) \<and>
     (\<forall>p. menus t p = None \<longrightarrow> visible p t = []) \<and> (\<forall>p. sorted (visible p t)) \<and>
     inj_on (menus t) (dom (menus t)) \<and> (\<forall>n e. fails t n = Some e \<longrightarrow> \<not> errors_Is e ERROR_SUCCESS)"

lemma tray_okD:
  assumes "tray_ok t"
  shows "menus t p = Some h \<Longrightarrow> item_ids h t = visible p t" "sorted (visible p t)" "menus t p = Some h \<Longrightarrow> 0 < h"
    "menus t p = None \<Longrightarrow> visible p t = []" "fails t n = Some e \<Longrightarrow> \<not> errors_Is e ERROR_SUCCESS"
    "menus t p = Some h \<Longrightarrow> h < next_handle t" "0 < next_handle t"
    "menus t p = Some h \<Longrightarrow> menus t q = Some h \<Longrightarrow> p = q" "hmenu t 0 = []"
  using assms by (auto simp: tray_ok_def inj_on_def dom_def)

lemma tray_ok_calls [simp]: "tray_ok (t\<lparr>calls := n\<rparr>) = tray_ok t"
  and tray_ok_menuOf [simp]: "tray_ok (t\<lparr>menuOf := m\<rparr>) = tray_ok t"
  by (simp_all add: tray_ok_def visible_def)

text \<open>A change of the list of one menu and of its record, to the same sorted list.\<close>

lemma tray_ok_change:
  assumes "tray_ok t" "menus t p = Some h" "map mi_ID l = v" "sorted v"
    and "menus t' = menus t" "hmenu t' = (hmenu t)(h := l)" "next_handle t' = next_handle t" "fails t' = fails t"
    and "visibleItems t' = (visibleItems t)(p \<mapsto> v) \<or> visibleItems t' = visibleItems t \<and> visible p t = v"
  shows "tray_ok t'"
proof -
  have vis: "visible q t' = (if q = p then v else visible q t)" for q
    using assms(9) by (auto simp: visible_def)
  have "0 < h' \<and> h' < next_handle t' \<and> item_ids h' t' = visible q t'" if "menus t' q = Some h'" for q h'
  proof (cases "q = p")
    case True
    with that assms tray_okD(3,6) [OF assms(1,2)] show ?thesis by (simp add: vis)
  next
    case False
    from that have q: "menus t q = Some h'" by (simp add: assms(5))
    with False assms(2) tray_okD(8) [OF assms(1)] have "h' \<noteq> h" by blast
    with False q tray_okD(1,3,6) [OF assms(1) q] show ?thesis by (simp add: vis assms(6,7))
  qed
  moreover have "visible q t' = []" if "menus t' q = None" for q
    using that assms(2,5) tray_okD(4) [OF assms(1)] by (auto simp: vis)
  moreover have "sorted (visible q t')" for q
    using assms(4) tray_okD(2) [OF assms(1)] by (simp add: vis)
  moreover have "hmenu t' 0 = []"
    using tray_okD(3) [OF assms(1,2)] tray_okD(9) [OF assms(1)] by (simp add: assms(6))
  ultimately show ?thesis
    using assms(1) unfolding tray_ok_def assms(5,7,8) by blast
qed

text \<open>The operations keep it, whichever of their calls fail.\<close>

lemma api_call_parts: "api_call t = (r, t') \<Longrightarrow> r = fails t (calls t) \<and> t' = t\<lparr>calls := calls t + 1\<rparr>"
  by (auto simp: api_call_def)

lemma tray_ok_frame:
  assumes "tray_ok t" "menus t' = menus t" "visibleItems t' = visibleItems t" "fails t' = fails t" "next_handle t \<le> next_handle t'"
    and "\<And>h. h < next_handle t \<Longrightarrow> item_ids h t' = item_ids h t"
  shows "tray_ok t'"
proof -
  have vis: "visible p t' = visible p t" for p using assms(3) by (simp add: visible_def)
  have "0 < h \<and> h < next_handle t' \<and> item_ids h t' = visible p t'" if "menus t' p = Some h" for p h
    using that tray_okD(1,3,6) [OF assms(1), of p h] assms(2,5,6) by (simp add: vis)
  moreover have "0 < next_handle t'" using tray_okD(7) [OF assms(1)] assms(5) by simp
  moreover have "hmenu t' 0 = []" using assms(6) [OF tray_okD(7) [OF assms(1)]] tray_okD(9) [OF assms(1)] by simp
  ultimately show ?thesis
    using assms(1) unfolding tray_ok_def assms(2,4) vis by blast
qed

lemma CreateMenu_ok:
  assumes "tray_ok t" "CreateMenu t = (r, t')"
  shows "tray_ok t'" "menus t' = menus t" "r = Inr h \<Longrightarrow> 0 < h \<and> h < next_handle t' \<and> hmenu t' h = [] \<and> (\<forall>p. menus t p \<noteq> Some h)"
    "menuOf t' = menuOf t" "visibleItems t' = visibleItems t"
proof -
  note f = tray_okD(6) [OF assms(1)] tray_okD(7) [OF assms(1)]
  show same: "menus t' = menus t" "menuOf t' = menuOf t" "visibleItems t' = visibleItems t"
    using assms(2) by (auto simp: CreateMenu_def api_call_def split: option.splits)
  show "0 < h \<and> h < next_handle t' \<and> hmenu t' h = [] \<and> (\<forall>p. menus t p \<noteq> Some h)" if "r = Inr h"
    using assms(2) f that by (auto simp: CreateMenu_def api_call_def split: option.splits)
  show "tray_ok t'"
    using assms(2) by (intro tray_ok_frame [OF assms(1) same(1,3)]) (auto simp: CreateMenu_def api_call_def split: option.splits)
qed

lemma SetMenuItemInfo_ok:
  assumes "tray_ok t" "SetMenuItemInfo h i f t = (r, t')"
  shows "tray_ok t'" "menus t' = menus t" "visibleItems t' = visibleItems t" "next_handle t' = next_handle t" "item_ids g t' = item_ids g t"
proof -
  show same: "menus t' = menus t" "visibleItems t' = visibleItems t" "next_handle t' = next_handle t"
    using assms(2) by (auto simp: SetMenuItemInfo_def api_call_def split: option.splits if_splits)
  have ids: "item_ids g t' = item_ids g t" for g
    using assms(2) by (auto simp: SetMenuItemInfo_def api_call_def split: option.splits if_splits)
  then show "item_ids g t' = item_ids g t" .
  show "tray_ok t'"
    using assms(2) ids same by (intro tray_ok_frame [OF assms(1) same(1,2)])
      (auto simp: SetMenuItemInfo_def api_call_def split: option.splits if_splits)
qed

lemma visible_add: "sorted (visible p t) \<Longrightarrow> visible q (addToVisibleItems p v t) = (if q = p then sort (visible p t @ [v]) else visible q t)"
  by (auto simp: addToVisibleItems_def visible_def split: option.splits)

lemma insert_item_ok:
  assumes "tray_ok t" "menus t p = Some h" "mi_ID mi = i"
  shows "tray_ok (snd (insert_item h i p mi t))"
proof -
  let ?v = "visible p t" and ?t1 = "addToVisibleItems p i t"
  let ?k = "length (takeWhile (\<lambda>x. x < i) ?v)"
  note sv = tray_okD(2) [OF assms(1), of p] and ids = tray_okD(1) [OF assms(1,2)]
  have idx: "getVisibleItemIndex p i ?t1 = Some ?k"
    by (simp add: getVisibleItemIndex_def visible_add [OF sv] index_of_sort [OF sv])
  have ins: "map mi_ID (take ?k (hmenu t h) @ mi # drop ?k (hmenu t h)) = sort (?v @ [i])"
    by (simp add: sort_snoc [OF sv] assms(3) take_map [symmetric] drop_map [symmetric] ids takeWhile_eq_take [symmetric] dropWhile_eq_drop [symmetric])
  have srt: "sorted (sort (?v @ [i]))" by simp
  have vis: "visibleItems ?t1 = (visibleItems t)(p \<mapsto> sort (?v @ [i]))"
    using visible_add [OF sv, of p i] by (auto simp: addToVisibleItems_def visible_def)
  have same: "hmenu ?t1 = hmenu t" "menus ?t1 = menus t" "next_handle ?t1 = next_handle t" "fails ?t1 = fails t" "calls ?t1 = calls t"
    by (simp_all add: addToVisibleItems_def)
  show ?thesis
  proof (cases "fails t (calls t)")
    case None
    then show ?thesis
      using tray_okD(3) [OF assms(1,2)]
      by (auto simp: insert_item_def idx InsertMenuItem_def api_call_def same Let_def
          intro!: tray_ok_change [OF assms(1,2) ins srt] vis)
  next
    case (Some e)
    have "visible p (?t1\<lparr>calls := n\<rparr>) = visible p ?t1" for n by (simp add: visible_def)
    then have restored: "remove_first (\<lambda>x. x = i) (visible p (?t1\<lparr>calls := n\<rparr>)) = ?v" for n
      by (simp add: visible_add [OF sv] remove_first_sort [OF sv])
    from Some show ?thesis
      by (auto simp: insert_item_def idx InsertMenuItem_def api_call_def same delFromVisibleItems_def restored vis Let_def
          intro!: tray_ok_change [OF assms(1,2) ids sv])
  qed
qed

lemma convertToSubMenu_ok:
  assumes "tray_ok t" "menus t p = None" "convertToSubMenu p t = (r, t')"
  shows "case r of Inl err \<Rightarrow> tray_ok t' | Inr h \<Rightarrow> tray_ok t' \<and> menus t' p = Some h"
proof -
  obtain c t1 where c: "CreateMenu t = (c, t1)" by force
  note ok1 = CreateMenu_ok [OF assms(1) c]
  show ?thesis
  proof (cases c)
    case (Inl e)
    with assms(3) c ok1(1) show ?thesis by (auto simp: convertToSubMenu_def)
  next
    case (Inr h)
    define g where "g = (case menuOf t1 p of None \<Rightarrow> 0 | Some h \<Rightarrow> h)"
    obtain d t2 where d: "SetMenuItemInfo g p (\<lambda>m. m\<lparr>mi_SubMenu := h\<rparr>) t1 = (d, t2)" by force
    note ok2 = SetMenuItemInfo_ok [OF ok1(1) d] and new = ok1(3) [OF Inr]
    have r: "(r, t') = (case d of Some err \<Rightarrow> (Inl err, t2) | None \<Rightarrow> (Inr h, t2\<lparr>menus := (menus t2)(p \<mapsto> h)\<rparr>))"
      using assms(3) c Inr d by (simp add: convertToSubMenu_def g_def split: option.splits)
    have vp: "visible p t2 = []"
      using tray_okD(4) [OF ok2(1), of p] ok2(2) ok1(2) assms(2) by simp
    have "map mi_ID (hmenu t2 h) = map mi_ID (hmenu t1 h)" by (rule ok2(5))
    with new have hp: "hmenu t2 h = []" by simp
    have fresh: "menus t2 q \<noteq> Some h" for q using new ok2(2) ok1(2) by simp
    have "tray_ok (t2\<lparr>menus := (menus t2)(p \<mapsto> h)\<rparr>)"
      using ok2(1,4) new vp hp fresh unfolding tray_ok_def inj_on_def dom_def
      by (auto simp: visible_def split: if_splits)
    with r ok2(1) show ?thesis by (auto split: option.splits)
  qed
qed

lemma place_item_ok:
  assumes "tray_ok t" "mi_ID mi = i"
  shows "tray_ok (snd (place_item i p mi f t))"
proof (cases "menus t p")
  case None
  obtain r t1 where c: "convertToSubMenu p t = (r, t1)" by force
  from convertToSubMenu_ok [OF assms(1) None c] None c assms show ?thesis
    by (cases r) (auto simp: place_item_def fun_upd_idem intro!: insert_item_ok)
next
  case (Some h)
  obtain r t1 where c: "SetMenuItemInfo h i f t = (r, t1)" by force
  note ok = SetMenuItemInfo_ok [OF assms(1) c]
  have "tray_ok (snd (case r of None \<Rightarrow> (None, t1) | Some _ \<Rightarrow> insert_item h i p mi t1))"
    using ok(1,2) Some assms(2) by (auto split: option.split intro!: insert_item_ok)
  with Some c assms show ?thesis by (auto simp: place_item_def intro!: insert_item_ok)
qed

lemma tray_addOrUpdateMenuItem_ok:
  "tray_ok t \<Longrightarrow> tray_ok (snd (tray_addOrUpdateMenuItem i p title dis chk t))"
  by (auto simp: tray_addOrUpdateMenuItem_def Let_def intro!: place_item_ok split: sum.split)

lemma quit_ok: "tray_ok t \<Longrightarrow> tray_ok (quit t)"
  by (rule tray_ok_frame [of t]) (auto simp: quit_def PostMessage_def api_call_def split: option.split)

lemma tray_hideMenuItem_ok:
  assumes "tray_ok t"
  shows "tray_ok (snd (tray_hideMenuItem i p t))"
proof -
  define h where "h = (case menus t p of None \<Rightarrow> 0 | Some h \<Rightarrow> h)"
  consider (failed) e where "fails t (calls t) = Some e"
    | (missing) "fails t (calls t) = None" "i \<notin> set (item_ids h t)"
    | (deleted) "fails t (calls t) = None" "i \<in> set (item_ids h t)"
    by (cases "fails t (calls t)") auto
  then show ?thesis
  proof cases
    case failed
    with assms tray_okD(5) [OF assms failed] show ?thesis
      by (simp add: tray_hideMenuItem_def DeleteMenu_def api_call_def Let_def)
  next
    case missing
    then show ?thesis
      using assms by (auto simp: tray_hideMenuItem_def DeleteMenu_def api_call_def h_def [symmetric] Let_def
          ERROR_MENU_ITEM_NOT_FOUND_def ERROR_SUCCESS_def)
  next
    case deleted
    show ?thesis
    proof (cases "menus t p")
      case (Some g)
      let ?l = "remove_first (\<lambda>m. mi_ID m = i) (hmenu t h)"
      have hg: "h = g" using Some by (simp add: h_def)
      have ids: "map mi_ID ?l = remove_first (\<lambda>v. v = i) (visible p t)"
        using tray_okD(1) [OF assms Some] by (simp add: map_remove_first hg)
      have vis: "visible p (t\<lparr>calls := n, hmenu := m\<rparr>) = visible p t" for n m by (simp add: visible_def)
      show ?thesis
        using deleted
        by (auto simp: tray_hideMenuItem_def DeleteMenu_def api_call_def h_def [symmetric] delFromVisibleItems_def vis Let_def hg
            intro!: tray_ok_change [OF assms Some ids [unfolded hg] sorted_remove_first [OF tray_okD(2) [OF assms]]])
    next
      case None
      then have "item_ids h t = []" using tray_okD(9) [OF assms] by (simp add: h_def)
      with deleted(2) show ?thesis by simp
    qed
  qed
qed

lemma addSeparatorMenuItem_ok:
  assumes "tray_ok t" "addSeparatorMenuItem i p t = (None, t')"
  shows "tray_ok t'"
proof (cases "menus t p")
  case None
  then have "menus (addToVisibleItems p i t) p = None" by (simp add: addToVisibleItems_def)
  with assms(2) show ?thesis
    by (auto simp: addSeparatorMenuItem_def InsertMenuItem_def api_call_def Let_def split: option.splits)
next
  case (Some h)
  let ?mi = "\<lparr>mi_Type = 0x800, mi_State = 0, mi_ID = i, mi_TypeData = [], mi_BMPItem = 0, mi_SubMenu = 0\<rparr>"
  have "menus (addToVisibleItems p i t) p = Some h" using Some by (simp add: addToVisibleItems_def)
  then have "t' = (snd (insert_item h i p ?mi t))\<lparr>menuOf := menuOf t\<rparr>"
    using assms(2)
    by (auto simp: addSeparatorMenuItem_def insert_item_def InsertMenuItem_def api_call_def addToVisibleItems_def Let_def
        split: option.splits if_splits)
  with insert_item_ok [OF assms(1) Some, of ?mi i] show ?thesis by simp
qed

section \<open>Steps\<close>

text \<open>
  What the package's callers do with its menu, in any order. Adding a separator is a step when
  inserting it did not fail.
\<close>

inductive menu_step :: "systray \<Rightarrow> systray \<Rightarrow> bool" where
  Add: "menu_step s (AddMenuItem title tooltip s)"
| AddBox: "menu_step s (AddMenuItemCheckbox title tooltip chk s)"
| AddSub: "menu_step s (AddSubMenuItem i title tooltip s)"
| AddSubBox: "menu_step s (AddSubMenuItemCheckbox i title tooltip chk s)"
| Separator: "AddSeparator s = (None, s') \<Longrightarrow> menu_step s s'"
| Title: "menu_step s (item_SetTitle title i s)"
| Tooltip: "menu_step s (item_SetTooltip tooltip i s)"
| Enable: "menu_step s (item_Enable i s)"
| Disable: "menu_step s (item_Disable i s)"
| Check: "menu_step s (item_Check i s)"
| Uncheck: "menu_step s (item_Uncheck i s)"
| Hide: "menu_step s (item_Hide i s)"
| Show: "menu_step s (item_Show i s)"
| Quit: "menu_step s (systray_Quit s)"

lemma item_update_ok: "tray_ok (tray s) \<Longrightarrow> tray_ok (tray (item_update item s))"
  by (simp add: item_update_def addOrUpdateMenuItem_def tray_addOrUpdateMenuItem_ok)

lemma item_change_ok: "tray_ok (tray s) \<Longrightarrow> tray_ok (tray (item_change f i s))"
  by (simp add: item_change_def item_update_ok split: option.split)

lemmas item_change_defs = item_SetTitle_def item_SetTooltip_def item_Enable_def item_Disable_def item_Check_def item_Uncheck_def

lemma menu_step_ok:
  assumes "menu_step s s'" "tray_ok (tray s)"
  shows "tray_ok (tray s')"
  using assms
proof cases
  case Separator
  with assms(2) show ?thesis
    by (cases "addSeparatorMenuItem (currentID s + 1) 0 (tray s)")
       (auto simp: AddSeparator_def addSeparator_def Let_def intro: addSeparatorMenuItem_ok)
qed (use assms(2) in \<open>auto simp: AddMenuItem_def AddMenuItemCheckbox_def AddSubMenuItem_def AddSubMenuItemCheckbox_def newMenuItem_def
      item_change_defs item_Hide_def item_Show_def hideMenuItem_def showMenuItem_def systray_Quit_def Let_def addOrUpdateMenuItem_def
      intro!: item_update_ok item_change_ok quit_ok tray_hideMenuItem_ok tray_addOrUpdateMenuItem_ok split: option.split\<close>)

section \<open>Properties\<close>

text \<open>The tray when the package registers itself, with the calls that will fail.\<close>

definition new_tray :: "(nat \<Rightarrow> goerr option) \<Rightarrow> winTray" where
  "new_tray f = \<lparr>inst_handle = 0, icon_handle = 0, cursor_handle = 0, window = 0, loadedImages = Map.empty,
     menus = Map.empty, menuOf = Map.empty, menuItemIcons = Map.empty, visibleItems = Map.empty,
     nid = None, wcex = None, wmSystrayMessage = 0, wmTaskbarCreated = 0, sessionRegistered = False,
     objects = Map.empty, hmenu = (\<lambda>h. []), selected = Map.empty, classes = [], shell_icons = Map.empty, notified = [],
     posted = [], quit_posted = False, popups = [], taskbar_id = 0xC001, shared_icons = Map.empty,
     next_handle = 1, calls = 0, fails = f\<rparr>"

lemma createMenu_new:
  assumes "\<forall>n e. f n = Some e \<longrightarrow> \<not> errors_Is e ERROR_SUCCESS"
  shows "tray_ok (snd (createMenu (new_tray f)))"
  using assms
  by (auto simp: createMenu_def CreateMenu_def api_call_def new_tray_def tray_ok_def visible_def split: option.splits)

interpretation shown: step_invariant menu_step "\<lambda>s. tray_ok (tray s)"
  by unfold_locales (rule menu_step_ok)


definition example_tray :: "(nat \<Rightarrow> goerr option) \<Rightarrow> systray" where
  "example_tray f = \<lparr>currentID = 0, menuItems = Map.empty, tray = snd (createMenu (new_tray f)), quitDone = False\<rparr>"


text \<open>
  A separator that could not be inserted stays among the visible items, and an item that is
  hidden and shown later is put behind its successor.
\<close>

theorem failed_separator_misplaces:
  "item_ids 1 (tray (item_Show 3 (item_Hide 3 (AddMenuItem ''d'' [] (AddMenuItem ''c'' [] (snd (AddSeparator
     (AddMenuItem ''a'' [] (example_tray (\<lambda>n. if n = 3 then Some EOF else None)))))))))) = [1, 4, 3]"
  by code_simp

end
