(* ===== verification/TrayWindow.thy ===== *)
theory TrayWindow
  imports Systray GoFiles GoHash
begin

text \<open>
  The window and the icons of the notification tray: the rest of \<^verbatim>\<open>systray/systray_windows.go\<close> and
  \<^verbatim>\<open>Register\<close>, \<^verbatim>\<open>Run\<close> and \<^verbatim>\<open>Quit\<close> of \<^verbatim>\<open>systray/systray.go\<close>. The window procedure is called by the operating
  system: from the message loop, and inside \<^verbatim>\<open>CreateWindowEx\<close> and \<^verbatim>\<open>DestroyWindow\<close>, which send their
  messages at once.
\<close>

section \<open>Structures\<close>

text \<open>The size of a structure on a 64-bit system, from the size and the alignment of its fields.\<close>

definition align_up :: "nat \<Rightarrow> nat \<Rightarrow> nat" where
  "align_up a n = (n + a - 1) div a * a"

fun field_end :: "(nat \<times> nat) list \<Rightarrow> nat \<Rightarrow> nat" where
  "field_end [] n = n"
| "field_end ((sz, al) # fs) n = field_end fs (align_up al n + sz)"

definition Sizeof :: "(nat \<times> nat) list \<Rightarrow> nat" where
  "Sizeof fs = align_up (foldr (\<lambda>f m. max (snd f) m) fs 1) (field_end fs 0)"

abbreviation f32 :: "nat \<times> nat" where "f32 \<equiv> (4, 4)"
abbreviation fptr :: "nat \<times> nat" where "fptr \<equiv> (8, 8)"
abbreviation f16s :: "nat \<Rightarrow> nat \<times> nat" where "f16s n \<equiv> (2 * n, 2)"

definition notifyIconData_fields :: "(nat \<times> nat) list" where
  "notifyIconData_fields =
     [f32, fptr, f32, f32, f32, fptr, f16s 128, f32, f32, f16s 256, f32, f32, f16s 64, f32, (16, 4), fptr]"

definition wndClassEx_fields :: "(nat \<times> nat) list" where
  "wndClassEx_fields = [f32, f32, fptr, f32, f32, fptr, fptr, fptr, fptr, fptr, fptr, fptr]"

definition Sizeof_notifyIconData :: u32 where "Sizeof_notifyIconData = word_of_nat (Sizeof notifyIconData_fields)"
definition Sizeof_wndClassEx :: u32 where "Sizeof_wndClassEx = word_of_nat (Sizeof wndClassEx_fields)"

text \<open>
  The size the code gives \<^verbatim>\<open>NOTIFYICONDATAW\<close>, which has one field of 32 bits where the structure of the
  code has \<^verbatim>\<open>Timeout\<close> and \<^verbatim>\<open>Version\<close>: 8 bytes more with the padding. The other structures agree.
\<close>

lemma structure_sizes [code]:
  "Sizeof_notifyIconData = 984" "Sizeof_wndClassEx = 80"
  by (simp_all add: Sizeof_notifyIconData_def Sizeof_wndClassEx_def Sizeof_def notifyIconData_fields_def wndClassEx_fields_def align_up_def)

section \<open>Objects of the operating system\<close>

definition new_object :: "object_kind \<Rightarrow> winTray \<Rightarrow> nat \<times> winTray" where
  "new_object k t = (next_handle t, t\<lparr>next_handle := next_handle t + 1, objects := (objects t)(next_handle t \<mapsto> k)\<rparr>)"

text \<open>A call that makes an object, or fails.\<close>

definition create_object :: "object_kind \<Rightarrow> winTray \<Rightarrow> nat res \<times> winTray" where
  "create_object k t =
     (case api_call t of
        (Some err, t') \<Rightarrow> (Inl err, t')
      | (None, t') \<Rightarrow> (case new_object k t' of (h, t'') \<Rightarrow> (Inr h, t'')))"

definition destroy_object :: "nat \<Rightarrow> winTray \<Rightarrow> winTray" where
  "destroy_object h t = t\<lparr>objects := (objects t)(h := None)\<rparr>"

section \<open>Window classes\<close>

definition ERROR_CLASS_ALREADY_EXISTS :: goerr where "ERROR_CLASS_ALREADY_EXISTS = OsErr ''Class already exists.''"
definition ERROR_CLASS_DOES_NOT_EXIST :: goerr where "ERROR_CLASS_DOES_NOT_EXIST = OsErr ''Class does not exist.''"
definition ERROR_CLASS_HAS_WINDOWS :: goerr where "ERROR_CLASS_HAS_WINDOWS = OsErr ''Class still has open windows.''"

definition wcex_register :: "wndClassEx \<Rightarrow> winTray \<Rightarrow> goerr option \<times> winTray" where
  "wcex_register w t =
     (let w' = w\<lparr>wc_Size := Sizeof_wndClassEx\<rparr>; t = t\<lparr>wcex := Some w'\<rparr>
      in case api_call t of
           (Some err, t') \<Rightarrow> (Some err, t')
         | (None, t') \<Rightarrow>
             if wc_ClassName w' \<in> set (classes t') then (Some ERROR_CLASS_ALREADY_EXISTS, t')
             else (None, t'\<lparr>classes := wc_ClassName w' # classes t'\<rparr>))"

text \<open>The only windows of the class are those of the tray.\<close>

definition wcex_unregister :: "wndClassEx \<Rightarrow> winTray \<Rightarrow> goerr option \<times> winTray" where
  "wcex_unregister w t =
     (case api_call t of
        (Some err, t') \<Rightarrow> (Some err, t')
      | (None, t') \<Rightarrow>
          if wc_ClassName w \<notin> set (classes t') then (Some ERROR_CLASS_DOES_NOT_EXIST, t')
          else if objects t' (window t') = Some KWindow then (Some ERROR_CLASS_HAS_WINDOWS, t')
          else (None, t'\<lparr>classes := removeAll (wc_ClassName w) (classes t')\<rparr>))"

section \<open>The icon in the notification area\<close>

text \<open>
  \<^verbatim>\<open>Shell_NotifyIcon\<close>: an icon is known by its window and its number, and the flags say which of the
  fields are valid.
\<close>

definition NIF_MESSAGE :: u32 where "NIF_MESSAGE = 1"
definition NIF_ICON :: u32 where "NIF_ICON = 2"
definition NIF_TIP :: u32 where "NIF_TIP = 4"

definition merge_icon :: "notifyIconData \<Rightarrow> notifyIconData \<Rightarrow> notifyIconData" where
  "merge_icon d shown =
     shown\<lparr>nid_Flags := nid_Flags shown OR nid_Flags d,
       nid_CallbackMessage := (if nid_Flags d AND NIF_MESSAGE \<noteq> 0 then nid_CallbackMessage d else nid_CallbackMessage shown),
       nid_Icon := (if nid_Flags d AND NIF_ICON \<noteq> 0 then nid_Icon d else nid_Icon shown),
       nid_Tip := (if nid_Flags d AND NIF_TIP \<noteq> 0 then nid_Tip d else nid_Tip shown)\<rparr>"

definition blank_icon :: "notifyIconData \<Rightarrow> notifyIconData" where
  "blank_icon d = d\<lparr>nid_Flags := 0, nid_CallbackMessage := 0, nid_Icon := 0, nid_Tip := replicate 128 0\<rparr>"

definition E_FAIL :: goerr where "E_FAIL = OsErr ''Unspecified error''"

abbreviation icon_key :: "notifyIconData \<Rightarrow> nat \<times> u32" where
  "icon_key d \<equiv> (nid_Wnd d, nid_ID d)"

definition nid_add :: "notifyIconData option \<Rightarrow> winTray \<Rightarrow> goerr option \<times> winTray" where
  "nid_add n t =
     (case api_call t of
        (Some err, t') \<Rightarrow> (Some err, t')
      | (None, t') \<Rightarrow>
          (case n of
             None \<Rightarrow> (Some E_FAIL, t')
           | Some d \<Rightarrow>
               if shell_icons t' (icon_key d) \<noteq> None then (Some E_FAIL, t')
               else (None, t'\<lparr>shell_icons := (shell_icons t')(icon_key d \<mapsto> merge_icon d (blank_icon d))\<rparr>)))"

definition nid_modify :: "notifyIconData \<Rightarrow> winTray \<Rightarrow> goerr option \<times> winTray" where
  "nid_modify d t =
     (case api_call t of
        (Some err, t') \<Rightarrow> (Some err, t')
      | (None, t') \<Rightarrow>
          (case shell_icons t' (icon_key d) of
             None \<Rightarrow> (Some E_FAIL, t')
           | Some shown \<Rightarrow> (None, t'\<lparr>shell_icons := (shell_icons t')(icon_key d \<mapsto> merge_icon d shown)\<rparr>)))"

definition nid_delete :: "notifyIconData \<Rightarrow> winTray \<Rightarrow> goerr option \<times> winTray" where
  "nid_delete d t =
     (case api_call t of
        (Some err, t') \<Rightarrow> (Some err, t')
      | (None, t') \<Rightarrow>
          if shell_icons t' (icon_key d) = None then (Some E_FAIL, t')
          else (None, t'\<lparr>shell_icons := (shell_icons t')(icon_key d := None)\<rparr>))"

section \<open>Images\<close>

text \<open>\<^verbatim>\<open>LoadImage\<close> from a file; \<open>is_icon\<close> says which contents are images of icons.\<close>

definition ERROR_FILE_NOT_FOUND :: goerr where
  "ERROR_FILE_NOT_FOUND = OsErr ''The system cannot find the file specified.''"

definition LoadImage_file :: "(bytes \<Rightarrow> bool) \<Rightarrow> os_state \<Rightarrow> gostring \<Rightarrow> winTray \<Rightarrow> nat res \<times> winTray" where
  "LoadImage_file is_icon fs src t =
     (case os_ReadFile fs src of
        Inr data \<Rightarrow>
          if is_icon data then create_object KIcon t
          else (case api_call t of (e, t') \<Rightarrow> (Inl (case e of Some err \<Rightarrow> err | None \<Rightarrow> E_FAIL), t'))
      | Inl _ \<Rightarrow> (case api_call t of (e, t') \<Rightarrow> (Inl (case e of Some err \<Rightarrow> err | None \<Rightarrow> ERROR_FILE_NOT_FOUND), t')))"

definition loadIconFrom :: "(bytes \<Rightarrow> bool) \<Rightarrow> os_state \<Rightarrow> gostring \<Rightarrow> winTray \<Rightarrow> nat res \<times> winTray" where
  "loadIconFrom is_icon fs src t =
     (case loadedImages t src of
        Some h \<Rightarrow> (Inr h, t)
      | None \<Rightarrow>
          (case UTF16FromString src of
             Inl err \<Rightarrow> (Inl err, t)
           | Inr srcPtr \<Rightarrow>
               (case LoadImage_file is_icon fs src t of
                  (Inl err, t') \<Rightarrow> (Inl err, t')
                | (Inr h, t') \<Rightarrow> (Inr h, t'\<lparr>loadedImages := (loadedImages t')(src \<mapsto> h)\<rparr>))))"

text \<open>From the resources of the program, with \<^verbatim>\<open>LR_SHARED\<close>: loading it again gives the same handle.\<close>

definition loadIconFromResource :: "u32 \<Rightarrow> winTray \<Rightarrow> nat res \<times> winTray" where
  "loadIconFromResource resID t =
     (case shared_icons t resID of
        Some h \<Rightarrow> (case api_call t of (Some err, t') \<Rightarrow> (Inl err, t') | (None, t') \<Rightarrow> (Inr h, t'))
      | None \<Rightarrow>
          (case create_object KIcon t of
             (Inl err, t') \<Rightarrow> (Inl err, t')
           | (Inr h, t') \<Rightarrow> (Inr h, t'\<lparr>shared_icons := (shared_icons t')(resID \<mapsto> h)\<rparr>)))"

text \<open>
  \<^verbatim>\<open>iconToBitmap\<close> draws the icon into a bitmap selected into a device context of its own. The deferred
  calls run in the opposite order on every return. A context without an entry in \<open>selected\<close> has its
  stock bitmap, the handle 0 of \<open>SelectObject\<close>. \<open>draw_icon\<close> is its part from the selection on.
\<close>

definition SelectObject :: "nat \<Rightarrow> nat \<Rightarrow> winTray \<Rightarrow> nat \<times> winTray" where
  "SelectObject dc b t =
     (case api_call t of
        (Some err, t') \<Rightarrow> (0, t')
      | (None, t') \<Rightarrow>
          ((case selected t' dc of None \<Rightarrow> 0 | Some b' \<Rightarrow> b'), t'\<lparr>selected := (selected t')(dc := if b = 0 then None else Some b)\<rparr>))"

definition DeleteDC :: "nat \<Rightarrow> winTray \<Rightarrow> winTray" where
  "DeleteDC dc t = destroy_object dc (t\<lparr>selected := (selected t)(dc := None)\<rparr>)"

definition draw_icon :: "nat \<Rightarrow> nat \<Rightarrow> nat \<Rightarrow> winTray \<Rightarrow> nat res \<times> winTray" where
  "draw_icon hDC hMemDC hMemBmp t =
     (case SelectObject hMemDC hMemBmp t of
        (hOriginalBmp, t4) \<Rightarrow>
          (case api_call t4 of
             (e, t5) \<Rightarrow>
               ((case e of Some err \<Rightarrow> Inl err | None \<Rightarrow> Inr hMemBmp),
                destroy_object hDC (DeleteDC hMemDC (snd (SelectObject hMemDC hOriginalBmp t5))))))"

definition iconToBitmap :: "nat \<Rightarrow> winTray \<Rightarrow> nat res \<times> winTray" where
  "iconToBitmap hIcon t =
     (case create_object KScreenDC t of
        (Inl err, t1) \<Rightarrow> (Inl err, t1)
      | (Inr hDC, t1) \<Rightarrow>
          (case create_object KMemDC t1 of
             (Inl err, t2) \<Rightarrow> (Inl err, destroy_object hDC t2)
           | (Inr hMemDC, t2) \<Rightarrow>
               (case create_object KBitmap t2 of
                  (Inl err, t3) \<Rightarrow> (Inl err, destroy_object hDC (DeleteDC hMemDC t3))
                | (Inr hMemBmp, t3) \<Rightarrow> draw_icon hDC hMemDC hMemBmp t3)))"

text \<open>\<^verbatim>\<open>filepath.Join\<close> of a directory in its shortest form and a name, on Windows.\<close>

definition win_Join :: "gostring \<Rightarrow> gostring \<Rightarrow> gostring" where
  "win_Join dir nm = (if dir \<noteq> [] \<and> last dir = CHR 0x5C then dir @ nm else dir @ [CHR 0x5C] @ nm)"

definition iconBytesToFilePath :: "gostring \<Rightarrow> bytes \<Rightarrow> os_state \<Rightarrow> gostring res \<times> os_state" where
  "iconBytesToFilePath TempDir iconBytes fs =
     (let iconFilePath = win_Join TempDir (''systray_temp_icon_'' @ hex_EncodeToString (md5_Sum iconBytes))
      in case os_Stat fs iconFilePath of
           Inl err \<Rightarrow>
             if errors_Is err ENOENT
             then (case os_WriteFile fs iconFilePath iconBytes 0x1A4 of
                     (Some err, fs') \<Rightarrow> (Inl err, fs')
                   | (None, fs') \<Rightarrow> (Inr iconFilePath, fs'))
             else (Inr iconFilePath, fs)
         | Inr _ \<Rightarrow> (Inr iconFilePath, fs))"

section \<open>Setting the icon and the tooltip\<close>

text \<open>
  \<^verbatim>\<open>setIcon\<close>, \<^verbatim>\<open>setIconFromResource\<close> and \<^verbatim>\<open>setTooltip\<close> change the fields of \<^verbatim>\<open>t.nid\<close> and show it. They panic,
  \<open>None\<close>, when the pointer is still nil.
\<close>

definition set_nid :: "(notifyIconData \<Rightarrow> notifyIconData) \<Rightarrow> winTray \<Rightarrow> (goerr option \<times> winTray) option" where
  "set_nid f t =
     (case nid t of
        None \<Rightarrow> None
      | Some d \<Rightarrow>
          (let d' = (f d)\<lparr>nid_Size := Sizeof_notifyIconData\<rparr>
           in Some (nid_modify d' (t\<lparr>nid := Some d'\<rparr>))))"

definition show_icon :: "nat res \<times> winTray \<Rightarrow> (goerr option \<times> winTray) option" where
  "show_icon r =
     (case r of
        (Inl err, t) \<Rightarrow> Some (Some err, t)
      | (Inr h, t) \<Rightarrow> set_nid (\<lambda>d. d\<lparr>nid_Icon := h, nid_Flags := nid_Flags d OR NIF_ICON\<rparr>) t)"

definition setIcon :: "(bytes \<Rightarrow> bool) \<Rightarrow> os_state \<Rightarrow> gostring \<Rightarrow> winTray \<Rightarrow> (goerr option \<times> winTray) option" where
  "setIcon is_icon fs src t = show_icon (loadIconFrom is_icon fs src t)"

definition setIconFromResource :: "u32 \<Rightarrow> winTray \<Rightarrow> (goerr option \<times> winTray) option" where
  "setIconFromResource resID t = show_icon (loadIconFromResource resID t)"

text \<open>The built-in \<^verbatim>\<open>copy\<close> into an array: as much as fits, the rest of the array stays.\<close>

definition go_copy :: "'a list \<Rightarrow> 'a list \<Rightarrow> 'a list" where
  "go_copy dst src = take (length dst) src @ drop (length src) dst"

definition setTooltip :: "gostring \<Rightarrow> winTray \<Rightarrow> (goerr option \<times> winTray) option" where
  "setTooltip src t =
     (case UTF16FromString src of
        Inl err \<Rightarrow> Some (Some err, t)
      | Inr b \<Rightarrow> set_nid (\<lambda>d. d\<lparr>nid_Tip := go_copy (nid_Tip d) b, nid_Flags := nid_Flags d OR NIF_TIP\<rparr>) t)"

text \<open>The functions of the package, which log an error and return.\<close>

definition SetIcon :: "gostring \<Rightarrow> (bytes \<Rightarrow> bool) \<Rightarrow> bytes \<Rightarrow> os_state \<times> winTray \<Rightarrow> (os_state \<times> winTray) option" where
  "SetIcon TempDir is_icon iconBytes st =
     (case st of
        (fs, t) \<Rightarrow>
          (let resID = IntResource iconBytes
           in if resID \<noteq> 0 then map_option (\<lambda>r. (fs, snd r)) (setIconFromResource resID t)
              else (case iconBytesToFilePath TempDir iconBytes fs of
                      (Inl err, fs') \<Rightarrow> Some (fs', t)
                    | (Inr iconFilePath, fs') \<Rightarrow> map_option (\<lambda>r. (fs', snd r)) (setIcon is_icon fs' iconFilePath t))))"

text \<open>A template icon is for another system: the regular one is set.\<close>

definition SetTemplateIcon ::
    "gostring \<Rightarrow> (bytes \<Rightarrow> bool) \<Rightarrow> bytes \<Rightarrow> bytes \<Rightarrow> os_state \<times> winTray \<Rightarrow> (os_state \<times> winTray) option" where
  "SetTemplateIcon TempDir is_icon templateIconBytes regularIconBytes st = SetIcon TempDir is_icon regularIconBytes st"

definition SetTooltip :: "gostring \<Rightarrow> winTray \<Rightarrow> winTray option" where
  "SetTooltip tooltip t = map_option snd (setTooltip tooltip t)"

text \<open>The icon of a menu item: the handle to draw, then the bitmap, then the item again.\<close>

definition item_icon_handle ::
    "gostring \<Rightarrow> (bytes \<Rightarrow> bool) \<Rightarrow> bytes \<Rightarrow> os_state \<Rightarrow> winTray \<Rightarrow> nat res \<times> os_state \<times> winTray" where
  "item_icon_handle TempDir is_icon iconBytes fs t =
     (let resID = IntResource iconBytes
      in if resID \<noteq> 0 then (case loadIconFromResource resID t of (r, t') \<Rightarrow> (r, fs, t'))
         else (case iconBytesToFilePath TempDir iconBytes fs of
                 (Inl err, fs') \<Rightarrow> (Inl err, fs', t)
               | (Inr iconFilePath, fs') \<Rightarrow> (case loadIconFrom is_icon fs' iconFilePath t of (r, t') \<Rightarrow> (r, fs', t'))))"

definition item_SetIcon ::
    "gostring \<Rightarrow> (bytes \<Rightarrow> bool) \<Rightarrow> bytes \<Rightarrow> MenuItem \<Rightarrow> os_state \<times> winTray \<Rightarrow> os_state \<times> winTray" where
  "item_SetIcon TempDir is_icon iconBytes item st =
     (case st of
        (fs, t) \<Rightarrow>
          (case item_icon_handle TempDir is_icon iconBytes fs t of
             (Inl err, fs1, t1) \<Rightarrow> (fs1, t1)
           | (Inr h, fs1, t1) \<Rightarrow>
               (case iconToBitmap h t1 of
                  (Inl err, t2) \<Rightarrow> (fs1, t2)
                | (Inr b, t2) \<Rightarrow>
                    (fs1, addOrUpdateMenuItem item (t2\<lparr>menuItemIcons := (menuItemIcons t2)(item_id item \<mapsto> b)\<rparr>)))))"

definition item_SetTemplateIcon ::
    "gostring \<Rightarrow> (bytes \<Rightarrow> bool) \<Rightarrow> bytes \<Rightarrow> bytes \<Rightarrow> MenuItem \<Rightarrow> os_state \<times> winTray \<Rightarrow> os_state \<times> winTray" where
  "item_SetTemplateIcon TempDir is_icon templateIconBytes regularIconBytes item st =
     item_SetIcon TempDir is_icon regularIconBytes item st"

section \<open>The window procedure\<close>

text \<open>What the window procedure calls in the package, in order.\<close>

datatype callback =
    SystrayReady
  | ItemSelected u32
  | SystrayExit
  | SystraySession u32

definition ERROR_INVALID_WINDOW_HANDLE :: goerr where
  "ERROR_INVALID_WINDOW_HANDLE = OsErr ''Invalid window handle.''"

definition showMenu :: "winTray \<Rightarrow> goerr option \<times> winTray" where
  "showMenu t =
     (case api_call t of
        (Some err, t1) \<Rightarrow> (Some err, t1)
      | (None, t1) \<Rightarrow>
          (case api_call t1 of
             (Some err, t2) \<Rightarrow> (Some err, t2)
           | (None, t2) \<Rightarrow>
               (case menus t2 0 of
                  None \<Rightarrow> (Some ERROR_INVALID_MENU_HANDLE, t2)
                | Some h \<Rightarrow> (None, t2\<lparr>popups := popups t2 @ [h]\<rparr>))))"

definition wm_create :: "nat \<Rightarrow> winTray \<Rightarrow> callback list \<times> winTray" where
  "wm_create hWnd t =
     ([SystrayReady],
      (case api_call t of
         (Some err, t') \<Rightarrow> t'
       | (None, t') \<Rightarrow> t'\<lparr>sessionRegistered := True, notified := hWnd # notified t'\<rparr>))"

definition wm_endsession :: "winTray \<Rightarrow> callback list \<times> winTray" where
  "wm_endsession t = ([SystrayExit], (case nid t of None \<Rightarrow> t | Some d \<Rightarrow> snd (nid_delete d t)))"

definition wm_destroy :: "winTray \<Rightarrow> callback list \<times> winTray" where
  "wm_destroy t = (case wm_endsession t of (cs, t') \<Rightarrow> (cs, t'\<lparr>quit_posted := True\<rparr>))"

definition DestroyWindow :: "nat \<Rightarrow> winTray \<Rightarrow> goerr option \<times> callback list \<times> winTray" where
  "DestroyWindow h t =
     (case api_call t of
        (Some err, t') \<Rightarrow> (Some err, [], t')
      | (None, t') \<Rightarrow>
          if objects t' h \<noteq> Some KWindow then (Some ERROR_INVALID_WINDOW_HANDLE, [], t')
          else (case wm_destroy t' of (cs, t'') \<Rightarrow> (None, cs, destroy_object h t'')))"

definition wm_close :: "nat \<Rightarrow> winTray \<Rightarrow> callback list \<times> winTray" where
  "wm_close hWnd t =
     (let t1 = (if sessionRegistered t
                then (case api_call t of
                        (Some err, t') \<Rightarrow> t'
                      | (None, t') \<Rightarrow> t'\<lparr>sessionRegistered := False, notified := removeAll hWnd (notified t')\<rparr>)
                else t)
      in case DestroyWindow (window t1) t1 of
           (e, cs, t2) \<Rightarrow> (cs, (case wcex t2 of None \<Rightarrow> t2 | Some w \<Rightarrow> snd (wcex_unregister w t2))))"

text \<open>\<open>defproc\<close> is the default window procedure.\<close>

definition wndProc ::
    "(nat \<Rightarrow> message \<Rightarrow> uintptr) \<Rightarrow> nat \<Rightarrow> message \<Rightarrow> winTray \<Rightarrow> callback list \<times> uintptr \<times> winTray" where
  "wndProc defproc hWnd m t =
     (case m of
        (message, wParam, lParam) \<Rightarrow>
          (if message = 0x0001 then (case wm_create hWnd t of (cs, t') \<Rightarrow> (cs, 0, t'))
           else if message = 0x0111 then (if (ucast wParam :: u32) \<noteq> - 1 then [ItemSelected (ucast wParam)] else [], 0, t)
           else if message = 0x0010 then (case wm_close hWnd t of (cs, t') \<Rightarrow> (cs, 0, t'))
           else if message = 0x0002 then (case wm_destroy t of (cs, t') \<Rightarrow> (cs, 0, t'))
           else if message = 0x0016 then (case wm_endsession t of (cs, t') \<Rightarrow> (cs, 0, t'))
           else if message = wmSystrayMessage t
                then ([], 0, if lParam = 0x0205 \<or> lParam = 0x0202 then snd (showMenu t) else t)
           else if message = wmTaskbarCreated t then ([], 0, snd (nid_add (nid t) t))
           else if message = 0x02B1 then ([SystraySession (ucast wParam)], defproc hWnd m, t)
           else ([], defproc hWnd m, t)))"

section \<open>Starting\<close>

definition CreateWindowEx :: "winTray \<Rightarrow> nat res \<times> callback list \<times> winTray" where
  "CreateWindowEx t =
     (case create_object KWindow t of
        (Inl err, t1) \<Rightarrow> (Inl err, [], t1)
      | (Inr h, t1) \<Rightarrow> (case wm_create h t1 of (cs, t2) \<Rightarrow> (Inr h, cs, t2)))"

definition className :: gostring where "className = ''SystrayClass''"
definition windowName :: gostring where "windowName = []"

text \<open>
  \<^verbatim>\<open>initInstance\<close> in two parts: up to the creation of the window, in which the window procedure has
  already called \<^verbatim>\<open>systrayReady\<close>, and the icon. The style and the place of the window, which is
  never shown, do not matter to what follows, nor do \<^verbatim>\<open>ShowWindow\<close> and \<^verbatim>\<open>UpdateWindow\<close> of a hidden
  window.
\<close>

definition init_maps :: "winTray \<Rightarrow> winTray" where
  "init_maps t =
     (let t1 = t\<lparr>wmSystrayMessage := 0x0400 + 1, visibleItems := Map.empty, menus := Map.empty, menuOf := Map.empty,
                 menuItemIcons := Map.empty\<rparr>
      in case api_call t1 of
           (e, t2) \<Rightarrow> t2\<lparr>wmTaskbarCreated := (if e = None then taskbar_id t2 else 0), loadedImages := Map.empty\<rparr>)"

text \<open>A call that makes an object, and what follows when it did not fail.\<close>

definition or_fail ::
    "nat res \<times> winTray \<Rightarrow> (nat \<Rightarrow> winTray \<Rightarrow> goerr option \<times> callback list \<times> winTray) \<Rightarrow> goerr option \<times> callback list \<times> winTray" where
  "or_fail r f = (case r of (Inl err, t) \<Rightarrow> (Some err, [], t) | (Inr h, t) \<Rightarrow> f h t)"

definition init_class :: "u16 list \<Rightarrow> winTray \<Rightarrow> goerr option \<times> winTray" where
  "init_class classNamePtr t =
     wcex_register \<lparr>wc_Size = 0, wc_Style = 0x0002 OR 0x0001, wc_Instance = inst_handle t, wc_Icon = icon_handle t,
       wc_Cursor = cursor_handle t, wc_Background = 6, wc_ClassName = classNamePtr, wc_IconSm = icon_handle t\<rparr> t"

definition init_window :: "winTray \<Rightarrow> goerr option \<times> callback list \<times> winTray" where
  "init_window t =
     or_fail (create_object KModule (init_maps t)) (\<lambda>instanceHandle t1.
     or_fail (create_object KIcon (t1\<lparr>inst_handle := instanceHandle\<rparr>)) (\<lambda>iconHandle t2.
     or_fail (create_object KCursor (t2\<lparr>icon_handle := iconHandle\<rparr>)) (\<lambda>cursorHandle t3.
       (let t4 = t3\<lparr>cursor_handle := cursorHandle\<rparr>
        in case (UTF16FromString className, UTF16FromString windowName) of
             (Inl err, _) \<Rightarrow> (Some err, [], t4)
           | (Inr _, Inl err) \<Rightarrow> (Some err, [], t4)
           | (Inr classNamePtr, Inr windowNamePtr) \<Rightarrow>
               (case init_class classNamePtr t4 of
                  (Some err, t5) \<Rightarrow> (Some err, [], t5)
                | (None, t5) \<Rightarrow>
                    (case CreateWindowEx t5 of
                       (Inl err, cs, t6) \<Rightarrow> (Some err, cs, t6)
                     | (Inr windowHandle, cs, t6) \<Rightarrow> (None, cs, t6\<lparr>window := windowHandle\<rparr>)))))))"

definition init_icon :: "winTray \<Rightarrow> goerr option \<times> winTray" where
  "init_icon t =
     (let d = \<lparr>nid_Size = Sizeof_notifyIconData, nid_Wnd = window t, nid_ID = 100, nid_Flags = NIF_MESSAGE,
               nid_CallbackMessage = wmSystrayMessage t, nid_Icon = 0, nid_Tip = replicate 128 0\<rparr>
      in nid_add (Some d) (t\<lparr>nid := Some d\<rparr>))"

definition initInstance :: "winTray \<Rightarrow> goerr option \<times> callback list \<times> winTray" where
  "initInstance t =
     (case init_window t of
        (Some err, cs, t1) \<Rightarrow> (Some err, cs, t1)
      | (None, cs, t1) \<Rightarrow> (case init_icon t1 of (e, t2) \<Rightarrow> (e, cs, t2)))"

definition registerSystray :: "winTray \<Rightarrow> callback list \<times> winTray" where
  "registerSystray t =
     (case initInstance t of
        (Some err, cs, t1) \<Rightarrow> (cs, t1)
      | (None, cs, t1) \<Rightarrow> (cs, snd (createMenu t1)))"

section \<open>The message loop\<close>

text \<open>Messages to a window that is gone, or to no window, are dropped.\<close>

definition DispatchMessage ::
    "(nat \<Rightarrow> message \<Rightarrow> uintptr) \<Rightarrow> nat \<times> message \<Rightarrow> winTray \<Rightarrow> callback list \<times> winTray" where
  "DispatchMessage defproc hm t =
     (case hm of
        (h, m) \<Rightarrow>
          if objects t h = Some KWindow then (case wndProc defproc h m t of (cs, r, t') \<Rightarrow> (cs, t')) else ([], t))"

datatype loop_end = LoopReturned | LoopFailed goerr | LoopWaiting

text \<open>
  The loop over the messages that reach the queue; with the queue empty, \<^verbatim>\<open>GetMessage\<close> returns 0 when a
  quit message was posted, and waits otherwise.
\<close>

fun nativeLoop ::
    "(nat \<Rightarrow> message \<Rightarrow> uintptr) \<Rightarrow> (nat \<times> message) list \<Rightarrow> winTray \<Rightarrow> loop_end \<times> callback list \<times> winTray" where
  "nativeLoop defproc [] t =
     (case api_call t of
        (Some err, t') \<Rightarrow> (LoopFailed err, [], t')
      | (None, t') \<Rightarrow> (if quit_posted t' then LoopReturned else LoopWaiting, [], t'))"
| "nativeLoop defproc (m # ms) t =
     (case api_call t of
        (Some err, t') \<Rightarrow> (LoopFailed err, [], t')
      | (None, t') \<Rightarrow>
          (case DispatchMessage defproc m t' of
             (cs, t1) \<Rightarrow> (case nativeLoop defproc ms t1 of (e, cs', t2) \<Rightarrow> (e, cs @ cs', t2))))"

text \<open>\<^verbatim>\<open>Register\<close> and \<^verbatim>\<open>Run\<close>: a callback that was not given is not called.\<close>

record handlers =
  has_ready :: bool
  has_exit :: bool
  has_session :: bool

fun delivered :: "handlers \<Rightarrow> callback \<Rightarrow> bool" where
  "delivered hs SystrayReady = has_ready hs"
| "delivered hs SystrayExit = has_exit hs"
| "delivered hs (SystraySession e) = has_session hs"
| "delivered hs (ItemSelected i) = True"

definition Register :: "handlers \<Rightarrow> winTray \<Rightarrow> callback list \<times> winTray" where
  "Register hs t = (case registerSystray t of (cs, t') \<Rightarrow> (filter (delivered hs) cs, t'))"

definition Run ::
    "handlers \<Rightarrow> (nat \<Rightarrow> message \<Rightarrow> uintptr) \<Rightarrow> (nat \<times> message) list \<Rightarrow> winTray \<Rightarrow> loop_end \<times> callback list \<times> winTray" where
  "Run hs defproc ms t =
     (case Register hs t of
        (cs, t1) \<Rightarrow> (case nativeLoop defproc ms t1 of (e, cs', t2) \<Rightarrow> (e, cs @ filter (delivered hs) cs', t2)))"

section \<open>The typing of handles\<close>

text \<open>
  The handles the tray and the menus hold, with the kind of object each is used as; optional ones
  are left out when they are 0. A window may be gone, so its handle is treated apart.
\<close>

definition optional :: "nat \<Rightarrow> nat set" where
  "optional h = (if h = 0 then {} else {h})"

definition menu_refs :: "winTray \<Rightarrow> nat set" where
  "menu_refs t = ran (menus t) \<union> ran (menuOf t) \<union> set (popups t) \<union> {h. hmenu t h \<noteq> []} \<union>
     (\<Union>h. \<Union>m \<in> set (hmenu t h). optional (mi_SubMenu m))"

definition bitmap_refs :: "winTray \<Rightarrow> nat set" where
  "bitmap_refs t = ran (menuItemIcons t) \<union> (\<Union>h. \<Union>m \<in> set (hmenu t h). optional (mi_BMPItem m))"

definition icon_refs :: "winTray \<Rightarrow> nat set" where
  "icon_refs t = ran (loadedImages t) \<union> ran (shared_icons t) \<union> optional (icon_handle t) \<union>
     (case nid t of None \<Rightarrow> {} | Some d \<Rightarrow> optional (nid_Icon d)) \<union> (\<Union>d \<in> ran (shell_icons t). optional (nid_Icon d))"

definition other_refs :: "winTray \<Rightarrow> (nat \<times> object_kind) set" where
  "other_refs t = optional (inst_handle t) \<times> {KModule} \<union> optional (cursor_handle t) \<times> {KCursor}"

definition handle_refs :: "winTray \<Rightarrow> (nat \<times> object_kind) set" where
  "handle_refs t = menu_refs t \<times> {KMenu} \<union> bitmap_refs t \<times> {KBitmap} \<union> icon_refs t \<times> {KIcon} \<union> other_refs t"

definition tips_ok :: "winTray \<Rightarrow> bool" where
  "tips_ok t \<longleftrightarrow> (\<forall>d. nid t = Some d \<longrightarrow> length (nid_Tip d) = 128) \<and> (\<forall>d \<in> ran (shell_icons t). length (nid_Tip d) = 128)"

text \<open>
  The tray is well typed: every handle it holds is an object of the kind it is used as, no device
  context is left, the window is a window or gone, and the tooltips have the length of their arrays.
\<close>

definition tray_typed :: "winTray \<Rightarrow> bool" where
  "tray_typed t \<longleftrightarrow>
     0 < next_handle t \<and> (\<forall>h k. objects t h = Some k \<longrightarrow> 0 < h \<and> h < next_handle t \<and> k \<notin> {KScreenDC, KMemDC}) \<and>
     selected t = Map.empty \<and> (\<forall>(h, k) \<in> handle_refs t. objects t h = Some k) \<and>
     (window t = 0 \<or> window t < next_handle t \<and> objects t (window t) \<in> {None, Some KWindow}) \<and> tips_ok t"

lemma tray_typedD:
  assumes "tray_typed t"
  shows "0 < next_handle t" "objects t h = Some k \<Longrightarrow> 0 < h \<and> h < next_handle t \<and> k \<notin> {KScreenDC, KMemDC}" "selected t = Map.empty"
    "(h, k) \<in> handle_refs t \<Longrightarrow> objects t h = Some k" "tips_ok t"
  using assms by (auto simp: tray_typed_def)

text \<open>
  A step keeps it when it leaves the old objects alone, makes no device context, and holds no
  handles but the old ones and some that are well typed.
\<close>

lemma typed_grow:
  assumes "tray_typed t" "next_handle t \<le> next_handle t'"
    and "\<And>h. h < next_handle t \<Longrightarrow> objects t' h = objects t h"
    and "\<And>h k. objects t' h = Some k \<Longrightarrow> \<not> h < next_handle t \<Longrightarrow> h < next_handle t' \<and> k \<notin> {KScreenDC, KMemDC}"
    and "selected t' = selected t" "window t' = window t" "tips_ok t'"
    and "\<And>h k. (h, k) \<in> handle_refs t' \<Longrightarrow> (h, k) \<in> handle_refs t \<or> objects t' h = Some k"
  shows "tray_typed t'"
proof -
  have "0 < h \<and> h < next_handle t' \<and> k \<notin> {KScreenDC, KMemDC}" if "objects t' h = Some k" for h k
  proof (cases "h < next_handle t")
    case True
    with that assms(3) have "objects t h = Some k" by simp
    from tray_typedD(2) [OF assms(1) this] assms(2) show ?thesis by simp
  next
    case False
    with assms(4) [OF that] tray_typedD(1) [OF assms(1)] show ?thesis by simp
  qed
  moreover have "objects t' h = Some k" if "(h, k) \<in> handle_refs t'" for h k
    using assms(8) [OF that] tray_typedD(2,4) [OF assms(1)] assms(3) by metis
  moreover have "window t' = 0 \<or> window t' < next_handle t' \<and> objects t' (window t') \<in> {None, Some KWindow}"
    using assms(1-3,6) unfolding tray_typed_def by (metis less_le_trans)
  ultimately show ?thesis
    using assms(1,2,5,7) by (auto simp: tray_typed_def)
qed

lemmas refs_defs = handle_refs_def menu_refs_def bitmap_refs_def icon_refs_def other_refs_def

text \<open>The fields that hold no handle.\<close>

lemma tray_typed_frame [simp]:
  "tray_typed (t\<lparr>calls := n\<rparr>) = tray_typed t" "tray_typed (t\<lparr>visibleItems := v\<rparr>) = tray_typed t"
  "tray_typed (t\<lparr>sessionRegistered := b\<rparr>) = tray_typed t" "tray_typed (t\<lparr>notified := ns\<rparr>) = tray_typed t"
  "tray_typed (t\<lparr>quit_posted := q\<rparr>) = tray_typed t" "tray_typed (t\<lparr>posted := ps\<rparr>) = tray_typed t"
  "tray_typed (t\<lparr>classes := cs\<rparr>) = tray_typed t" "tray_typed (t\<lparr>wcex := w\<rparr>) = tray_typed t"
  "tray_typed (t\<lparr>wmTaskbarCreated := m\<rparr>) = tray_typed t" "tray_typed (t\<lparr>wmSystrayMessage := m\<rparr>) = tray_typed t"
  by (simp_all add: tray_typed_def refs_defs tips_ok_def)

lemma ran_upd_subset: "x \<in> ran (m(a \<mapsto> b)) \<Longrightarrow> x = b \<or> x \<in> ran m"
  by (auto simp: ran_def split: if_splits)

lemma typed_refs:
  assumes "tray_typed t" "next_handle t' = next_handle t" "objects t' = objects t" "selected t' = selected t" "window t' = window t"
    and "tips_ok t'"
    and "menu_refs t' \<subseteq> {h. objects t h = Some KMenu} \<union> menu_refs t" "bitmap_refs t' \<subseteq> {h. objects t h = Some KBitmap} \<union> bitmap_refs t"
    and "icon_refs t' \<subseteq> {h. objects t h = Some KIcon} \<union> icon_refs t" "other_refs t' \<subseteq> {(h, k). objects t h = Some k} \<union> other_refs t"
  shows "tray_typed t'"
proof -
  have "handle_refs t' \<subseteq> {(h, k). objects t h = Some k} \<union> handle_refs t"
    unfolding handle_refs_def using assms(7-10) by auto
  then show ?thesis
    by (intro typed_grow [OF assms(1)]) (use assms(2-6) tray_typedD(2) [OF assms(1)] in auto)
qed

text \<open>Storing a handle of the right kind.\<close>

lemma ran_upd: "ran (m(a \<mapsto> b)) \<subseteq> insert b (ran m)"
  by (auto dest: ran_upd_subset)

lemma optional_subset: "optional h \<subseteq> {h}"
  by (simp add: optional_def)

lemma typed_store_menu:
  assumes "tray_typed t" "objects t h = Some KMenu"
  shows "tray_typed (t\<lparr>menus := (menus t)(p \<mapsto> h)\<rparr>)" "tray_typed (t\<lparr>menuOf := (menuOf t)(p \<mapsto> h)\<rparr>)"
    "tray_typed (t\<lparr>popups := popups t @ [h]\<rparr>)"
proof -
  note tips = tray_typedD(5) [OF assms(1)]
  show "tray_typed (t\<lparr>menus := (menus t)(p \<mapsto> h)\<rparr>)"
    using tips assms(2) ran_upd [of "menus t" p h]
    by (intro typed_refs [OF assms(1)]) (simp_all add: tips_ok_def bitmap_refs_def icon_refs_def other_refs_def menu_refs_def, blast)
  show "tray_typed (t\<lparr>menuOf := (menuOf t)(p \<mapsto> h)\<rparr>)"
    using tips assms(2) ran_upd [of "menuOf t" p h]
    by (intro typed_refs [OF assms(1)]) (simp_all add: tips_ok_def bitmap_refs_def icon_refs_def other_refs_def menu_refs_def, blast)
  show "tray_typed (t\<lparr>popups := popups t @ [h]\<rparr>)"
    using tips assms(2)
    by (intro typed_refs [OF assms(1)]) (simp_all add: tips_ok_def bitmap_refs_def icon_refs_def other_refs_def menu_refs_def)
qed

lemma typed_store_bitmap:
  assumes "tray_typed t" "objects t h = Some KBitmap"
  shows "tray_typed (t\<lparr>menuItemIcons := (menuItemIcons t)(p \<mapsto> h)\<rparr>)"
  using tray_typedD(5) [OF assms(1)] assms(2) ran_upd [of "menuItemIcons t" p h]
  by (intro typed_refs [OF assms(1)]) (simp_all add: tips_ok_def menu_refs_def icon_refs_def other_refs_def bitmap_refs_def, blast)

lemma typed_store_icon:
  assumes "tray_typed t" "objects t h = Some KIcon"
  shows "tray_typed (t\<lparr>loadedImages := (loadedImages t)(src \<mapsto> h)\<rparr>)" "tray_typed (t\<lparr>shared_icons := (shared_icons t)(p \<mapsto> h)\<rparr>)"
    "tray_typed (t\<lparr>icon_handle := h\<rparr>)"
proof -
  note tips = tray_typedD(5) [OF assms(1)]
  show "tray_typed (t\<lparr>loadedImages := (loadedImages t)(src \<mapsto> h)\<rparr>)"
    using tips assms(2) ran_upd [of "loadedImages t" src h]
    by (intro typed_refs [OF assms(1)]) (simp_all add: tips_ok_def menu_refs_def bitmap_refs_def other_refs_def icon_refs_def, blast)
  show "tray_typed (t\<lparr>shared_icons := (shared_icons t)(p \<mapsto> h)\<rparr>)"
    using tips assms(2) ran_upd [of "shared_icons t" p h]
    by (intro typed_refs [OF assms(1)]) (simp_all add: tips_ok_def menu_refs_def bitmap_refs_def other_refs_def icon_refs_def, blast)
  show "tray_typed (t\<lparr>icon_handle := h\<rparr>)"
    using tips assms(2) optional_subset [of h]
    by (intro typed_refs [OF assms(1)]) (simp_all add: tips_ok_def menu_refs_def bitmap_refs_def other_refs_def icon_refs_def, blast)
qed

lemma typed_store_other:
  assumes "tray_typed t"
  shows "objects t h = Some KModule \<Longrightarrow> tray_typed (t\<lparr>inst_handle := h\<rparr>)"
    and "objects t h = Some KCursor \<Longrightarrow> tray_typed (t\<lparr>cursor_handle := h\<rparr>)"
proof -
  note tips = tray_typedD(5) [OF assms]
  show "tray_typed (t\<lparr>inst_handle := h\<rparr>)" if "objects t h = Some KModule"
    using tips that optional_subset [of h]
    by (intro typed_refs [OF assms]) (simp_all add: tips_ok_def menu_refs_def bitmap_refs_def icon_refs_def other_refs_def, blast)
  show "tray_typed (t\<lparr>cursor_handle := h\<rparr>)" if "objects t h = Some KCursor"
    using tips that optional_subset [of h]
    by (intro typed_refs [OF assms]) (simp_all add: tips_ok_def menu_refs_def bitmap_refs_def icon_refs_def other_refs_def, blast)
qed

text \<open>Forgetting the content of the maps.\<close>

lemma typed_forget:
  assumes "tray_typed t"
  shows "tray_typed (t\<lparr>menus := Map.empty, menuOf := Map.empty, menuItemIcons := Map.empty\<rparr>)" "tray_typed (t\<lparr>loadedImages := Map.empty\<rparr>)"
  using tray_typedD(5) [OF assms]
  by (auto intro!: typed_refs [OF assms] simp: tips_ok_def refs_defs)

lemma refs_frame [simp]:
  "handle_refs (t\<lparr>objects := ob\<rparr>) = handle_refs t" "handle_refs (t\<lparr>next_handle := n\<rparr>) = handle_refs t"
  "handle_refs (t\<lparr>window := w\<rparr>) = handle_refs t" "handle_refs (t\<lparr>calls := c\<rparr>) = handle_refs t"
  "handle_refs (t\<lparr>selected := sel\<rparr>) = handle_refs t"
  by (simp_all add: refs_defs)

lemma tips_frame [simp]:
  "tips_ok (t\<lparr>objects := ob\<rparr>) = tips_ok t" "tips_ok (t\<lparr>next_handle := n\<rparr>) = tips_ok t"
  "tips_ok (t\<lparr>window := w\<rparr>) = tips_ok t" "tips_ok (t\<lparr>calls := c\<rparr>) = tips_ok t" "tips_ok (t\<lparr>selected := sel\<rparr>) = tips_ok t"
  by (simp_all add: tips_ok_def)

lemma typed_window:
  assumes "tray_typed t" "objects t h = Some KWindow"
  shows "tray_typed (t\<lparr>window := h\<rparr>)"
  using assms unfolding tray_typed_def by auto

lemma typed_no_window:
  assumes "tray_typed t" "objects t h = Some KWindow"
  shows "tray_typed (destroy_object h t)"
proof -
  have "g \<noteq> h" if "(g, k) \<in> handle_refs t" for g k
    using that tray_typedD(4) [OF assms(1) that] assms(2) by (auto simp: handle_refs_def other_refs_def)
  then show ?thesis
    using assms by (fastforce simp: tray_typed_def destroy_object_def)
qed

text \<open>Making an object that is not a device context.\<close>

lemma create_object_cases:
  assumes "create_object k t = (r, t')"
  obtains err where "r = Inl err" "t' = t\<lparr>calls := calls t + 1\<rparr>"
  | "r = Inr (next_handle t)"
    "t' = t\<lparr>calls := calls t + 1, next_handle := next_handle t + 1, objects := (objects t)(next_handle t \<mapsto> k)\<rparr>"
  using assms by (auto simp: create_object_def api_call_def new_object_def split: option.splits)

lemma create_object_typed:
  assumes "tray_typed t" "k \<notin> {KScreenDC, KMemDC}" "create_object k t = (r, t')"
  shows "tray_typed t'" "r = Inr h \<Longrightarrow> objects t' h = Some k" "objects t g = Some k' \<Longrightarrow> objects t' g = Some k'"
proof -
  from assms(3) show "objects t' g = Some k'" if "objects t g = Some k'"
    by (cases rule: create_object_cases) (use that tray_typedD(2) [OF assms(1) that] in auto)
  from assms(3) show "tray_typed t'"
  proof (cases rule: create_object_cases)
    case 2
    with assms(2) tray_typedD(2,5) [OF assms(1)] show ?thesis
      by (intro typed_grow [OF assms(1)]) (auto split: if_splits)
  qed (use assms(1) in simp)
  from assms(3) show "objects t' h = Some k" if "r = Inr h"
    by (cases rule: create_object_cases) (use that in auto)
qed

section \<open>Typing of the menu operations\<close>

definition item_typed :: "winTray \<Rightarrow> menuItemInfo \<Rightarrow> bool" where
  "item_typed t m \<longleftrightarrow> (mi_SubMenu m = 0 \<or> objects t (mi_SubMenu m) = Some KMenu) \<and>
     (mi_BMPItem m = 0 \<or> objects t (mi_BMPItem m) = Some KBitmap)"

lemma item_typed_optional:
  "item_typed t m \<Longrightarrow> optional (mi_SubMenu m) \<subseteq> {h. objects t h = Some KMenu}"
  "item_typed t m \<Longrightarrow> optional (mi_BMPItem m) \<subseteq> {h. objects t h = Some KBitmap}"
  by (auto simp: item_typed_def optional_def)

lemma item_typed_mono: "item_typed t m \<Longrightarrow> (\<And>h k. objects t h = Some k \<Longrightarrow> objects t' h = Some k) \<Longrightarrow> item_typed t' m"
  by (auto simp: item_typed_def)

lemma typed_items:
  assumes "tray_typed t" "m \<in> set (hmenu t h)"
  shows "item_typed t m" "objects t h = Some KMenu"
proof -
  have "optional (mi_SubMenu m) \<subseteq> menu_refs t" "optional (mi_BMPItem m) \<subseteq> bitmap_refs t" "h \<in> menu_refs t"
    using assms(2) by (auto simp: menu_refs_def bitmap_refs_def)
  with tray_typedD(4) [OF assms(1)] show "item_typed t m" "objects t h = Some KMenu"
    by (auto simp: item_typed_def handle_refs_def optional_def split: if_splits)
qed

lemma typed_hmenu:
  assumes "tray_typed t" "objects t h = Some KMenu \<or> l = []" "\<And>m. m \<in> set l \<Longrightarrow> item_typed t m"
  shows "tray_typed (t\<lparr>hmenu := (hmenu t)(h := l)\<rparr>)"
proof (rule typed_refs [OF assms(1)])
  let ?t = "t\<lparr>hmenu := (hmenu t)(h := l)\<rparr>"
  have sub: "optional (mi_SubMenu m) \<subseteq> {h. objects t h = Some KMenu}" "optional (mi_BMPItem m) \<subseteq> {h. objects t h = Some KBitmap}"
    if "m \<in> set (hmenu ?t g)" for m g
    using that assms(3) typed_items(1) [OF assms(1), of m g] by (auto split: if_splits dest: item_typed_optional [THEN subsetD])
  show "bitmap_refs ?t \<subseteq> {h. objects t h = Some KBitmap} \<union> bitmap_refs t"
    using sub(2) by (auto simp: bitmap_refs_def)
  have "g = h \<and> l \<noteq> [] \<or> hmenu t g \<noteq> []" if "hmenu ?t g \<noteq> []" for g using that by (simp split: if_splits)
  then show "menu_refs ?t \<subseteq> {h. objects t h = Some KMenu} \<union> menu_refs t"
    using sub(1) assms(2) unfolding menu_refs_def by fastforce
qed (use tray_typedD(5) [OF assms(1)] in \<open>simp_all add: tips_ok_def icon_refs_def other_refs_def\<close>)

lemma item_typed_frame [simp]:
  "item_typed (t\<lparr>calls := n\<rparr>) m = item_typed t m" "item_typed (t\<lparr>visibleItems := v\<rparr>) m = item_typed t m"
  by (simp_all add: item_typed_def)

lemma CreateMenu_typed:
  assumes "tray_typed t" "CreateMenu t = (r, t')"
  shows "tray_typed t'" "r = Inr h \<Longrightarrow> objects t' h = Some KMenu" "\<And>m. item_typed t m \<Longrightarrow> item_typed t' m"
    "menus t' = menus t" "menuOf t' = menuOf t"
proof -
  obtain q t1 where c: "create_object KMenu t = (q, t1)" by force
  note ok = create_object_typed [OF assms(1) _ c]
  have eq: "r = q \<and> t' = (case q of Inl e \<Rightarrow> t1 | Inr h \<Rightarrow> t1\<lparr>hmenu := (hmenu t1)(h := [])\<rparr>)"
    using assms(2) c by (auto simp: CreateMenu_def create_object_def new_object_def api_call_def split: option.splits)
  have "tray_typed (t1\<lparr>hmenu := (hmenu t1)(h := [])\<rparr>)" for h using ok(1) by (intro typed_hmenu) auto
  with eq ok show "tray_typed t'" "r = Inr h \<Longrightarrow> objects t' h = Some KMenu" by (auto split: sum.splits)
  from c eq show "menus t' = menus t" "menuOf t' = menuOf t"
    by (auto elim!: create_object_cases)
  show "item_typed t' m" if "item_typed t m" for m
    by (rule item_typed_mono [OF that]) (use eq ok(3) in \<open>auto split: sum.splits\<close>)
qed

text \<open>A change of an item keeps it well typed, its identifier apart.\<close>

lemma SetMenuItemInfo_typed:
  assumes "tray_typed t" "SetMenuItemInfo h i f t = (r, t')" "\<And>m. item_typed t m \<Longrightarrow> item_typed t (f m)"
  shows "tray_typed t'" "objects t' = objects t" "menus t' = menus t"
proof -
  let ?t = "t\<lparr>calls := calls t + 1\<rparr>"
  have ty: "tray_typed ?t" using assms(1) by simp
  have "item_typed ?t ((f m)\<lparr>mi_ID := i\<rparr>)" if "m \<in> set (hmenu ?t h)" for m
    using assms(3) [of m] typed_items(1) [OF ty that] by (simp add: item_typed_def)
  then have "tray_typed (?t\<lparr>hmenu := (hmenu ?t)(h := map (\<lambda>m. if mi_ID m = i then (f m)\<lparr>mi_ID := i\<rparr> else m) (hmenu ?t h))\<rparr>)"
    using typed_items(1) [OF ty, of _ h] typed_items(2) [OF ty, of "hd (hmenu ?t h)" h]
    by (intro typed_hmenu [OF ty]) (auto split: if_splits)
  with ty show "tray_typed t'"
    using assms(2) by (auto simp: SetMenuItemInfo_def api_call_def split: option.splits if_splits)
  show "objects t' = objects t" "menus t' = menus t"
    using assms(2) by (auto simp: SetMenuItemInfo_def api_call_def split: option.splits if_splits)
qed

lemma InsertMenuItem_typed:
  assumes "tray_typed t" "InsertMenuItem h pos mi t = (r, t')" "item_typed t mi" "h \<noteq> 0 \<Longrightarrow> objects t h = Some KMenu"
  shows "tray_typed t'" "objects t' = objects t"
proof -
  let ?t = "t\<lparr>calls := calls t + 1\<rparr>"
  have ty: "tray_typed ?t" using assms(1) by simp
  have "m = mi \<or> m \<in> set (hmenu ?t h)" if "m \<in> set (take pos (hmenu ?t h) @ mi # drop pos (hmenu ?t h))" for m
    using that by (auto dest: in_set_takeD in_set_dropD)
  then have "tray_typed (?t\<lparr>hmenu := (hmenu ?t)(h := take pos (hmenu ?t h) @ mi # drop pos (hmenu ?t h))\<rparr>)" if "h \<noteq> 0"
    using that assms(3,4) typed_items(1) [OF ty] by (intro typed_hmenu [OF ty]) (auto dest: in_set_takeD in_set_dropD)
  with ty show "tray_typed t'"
    using assms(2) by (auto simp: InsertMenuItem_def api_call_def split: option.splits if_splits)
  show "objects t' = objects t"
    using assms(2) by (auto simp: InsertMenuItem_def api_call_def split: option.splits if_splits)
qed

lemma DeleteMenu_typed:
  assumes "tray_typed t" "DeleteMenu h i t = (r, t')"
  shows "tray_typed t'"
proof -
  let ?t = "t\<lparr>calls := calls t + 1\<rparr>"
  have ty: "tray_typed ?t" using assms(1) by simp
  have "tray_typed (?t\<lparr>hmenu := (hmenu ?t)(h := remove_first (\<lambda>m. mi_ID m = i) (hmenu ?t h))\<rparr>)" if "m \<in> set (hmenu ?t h)" for m
    using typed_items(2) [OF ty that] typed_items(1) [OF ty, of _ h] set_remove_first [of "\<lambda>m. mi_ID m = i" "hmenu ?t h"]
    by (intro typed_hmenu [OF ty]) auto
  with ty show ?thesis
    using assms(2) by (auto simp: DeleteMenu_def api_call_def split: option.splits if_splits)
qed

lemma typed_visible [simp]:
  "tray_typed (addToVisibleItems p v t) = tray_typed t" "tray_typed (delFromVisibleItems p v t) = tray_typed t"
  "objects (addToVisibleItems p v t) = objects t" "objects (delFromVisibleItems p v t) = objects t"
  "menus (addToVisibleItems p v t) = menus t"
  by (simp_all add: addToVisibleItems_def delFromVisibleItems_def)

lemma item_typed_objects: "objects t' = objects t \<Longrightarrow> item_typed t' m = item_typed t m"
  by (simp add: item_typed_def)

lemma typed_menu_handle: "tray_typed t \<Longrightarrow> menus t p = Some h \<Longrightarrow> objects t h = Some KMenu"
  by (rule tray_typedD(4)) (auto simp: handle_refs_def menu_refs_def ran_def)

lemma insert_item_typed:
  assumes "tray_typed t" "objects t menu = Some KMenu" "item_typed t mi"
  shows "tray_typed (snd (insert_item menu i p mi t))"
proof -
  let ?t = "addToVisibleItems p i t"
  obtain r t2 where c: "InsertMenuItem menu (the (getVisibleItemIndex p i ?t)) mi ?t = (r, t2)" by force
  have "tray_typed t2" "objects t2 = objects t"
    using InsertMenuItem_typed [OF _ c] assms item_typed_objects [of ?t t] by simp_all
  with c assms(2) show ?thesis
    by (auto simp: insert_item_def Let_def split: option.split intro!: typed_store_menu)
qed

lemma createMenu_typed:
  assumes "tray_typed t"
  shows "tray_typed (snd (createMenu t))"
proof -
  obtain r t1 where c: "CreateMenu t = (r, t1)" by force
  from CreateMenu_typed(1,2) [OF assms c] c show ?thesis
    by (auto simp: createMenu_def api_call_def split: sum.split intro!: typed_store_menu)
qed

lemma convertToSubMenu_typed:
  assumes "tray_typed t" "convertToSubMenu p t = (r, t')"
  shows "tray_typed t'" "r = Inr h \<Longrightarrow> objects t' h = Some KMenu" "item_typed t m \<Longrightarrow> item_typed t' m"
proof -
  obtain c t1 where c: "CreateMenu t = (c, t1)" by force
  note ok1 = CreateMenu_typed [OF assms(1) c]
  have "tray_typed t' \<and> (\<forall>h. r = Inr h \<longrightarrow> objects t' h = Some KMenu) \<and> objects t' = objects t1"
  proof (cases c)
    case (Inr g)
    obtain d t2 where d: "SetMenuItemInfo (case menuOf t1 p of None \<Rightarrow> 0 | Some h \<Rightarrow> h) p (\<lambda>m. m\<lparr>mi_SubMenu := g\<rparr>) t1 = (d, t2)" by force
    have "item_typed t1 (m\<lparr>mi_SubMenu := g\<rparr>)" if "item_typed t1 m" for m
      using that ok1(2) [OF Inr] by (simp add: item_typed_def)
    from SetMenuItemInfo_typed [OF ok1(1) d this] have "tray_typed t2" "objects t2 = objects t1" by simp_all
    with assms(2) c Inr d ok1(2) [OF Inr] show ?thesis
      by (auto simp: convertToSubMenu_def Let_def split: option.splits intro!: typed_store_menu)
  qed (use assms(2) c ok1 in \<open>auto simp: convertToSubMenu_def\<close>)
  then show "tray_typed t'" "r = Inr h \<Longrightarrow> objects t' h = Some KMenu" "item_typed t m \<Longrightarrow> item_typed t' m"
    using ok1(3) [of m] by (auto simp: item_typed_def)
qed

lemma place_item_typed:
  assumes "tray_typed t" "item_typed t mi" "\<And>m. item_typed t m \<Longrightarrow> item_typed t (f m)"
  shows "tray_typed (snd (place_item i p mi f t))"
proof (cases "menus t p")
  case None
  obtain r t1 where c: "convertToSubMenu p t = (r, t1)" by force
  note ok = convertToSubMenu_typed [OF assms(1) c]
  have "tray_typed (snd (insert_item menu i p mi (t1\<lparr>menus := (menus t1)(p \<mapsto> menu)\<rparr>)))" if "r = Inr menu" for menu
    using ok(1) ok(2) [OF that] ok(3) [OF assms(2)]
    by (intro insert_item_typed typed_store_menu) (simp_all add: item_typed_def)
  with None c ok(1) show ?thesis by (auto simp: place_item_def split: sum.split)
next
  case (Some h)
  note menu = typed_menu_handle [OF assms(1) Some]
  obtain r t1 where c: "SetMenuItemInfo h i f t = (r, t1)" by force
  note ok = SetMenuItemInfo_typed [OF assms(1) c assms(3)]
  have "tray_typed (snd (insert_item h i p mi t1))"
    using ok menu assms(2) item_typed_objects [of t1 t mi] by (intro insert_item_typed) simp_all
  moreover have "tray_typed (snd (insert_item h i p mi t))"
    using assms menu by (intro insert_item_typed)
  ultimately show ?thesis
    using Some c ok(1) by (auto simp: place_item_def split: option.split)
qed

lemma tray_addOrUpdateMenuItem_typed:
  assumes "tray_typed t"
  shows "tray_typed (snd (tray_addOrUpdateMenuItem i p title dis chk t))"
proof -
  have "objects t h = Some KBitmap" if "menuItemIcons t i = Some h" for h
    by (rule tray_typedD(4) [OF assms]) (use that in \<open>auto simp: handle_refs_def bitmap_refs_def ran_def\<close>)
  with assms show ?thesis
    by (auto simp: tray_addOrUpdateMenuItem_def Let_def item_typed_def split: sum.split option.split intro!: place_item_typed)
qed

lemma tray_hideMenuItem_typed:
  assumes "tray_typed t"
  shows "tray_typed (snd (tray_hideMenuItem i p t))"
proof -
  obtain r t1 where c: "DeleteMenu (case menus t p of None \<Rightarrow> 0 | Some h \<Rightarrow> h) i t = (r, t1)" by force
  from DeleteMenu_typed [OF assms c] c show ?thesis
    by (auto simp: tray_hideMenuItem_def Let_def split: option.split)
qed

lemma addSeparatorMenuItem_typed:
  assumes "tray_typed t"
  shows "tray_typed (snd (addSeparatorMenuItem i p t))"
proof -
  let ?t = "addToVisibleItems p i t"
  have "objects t h = Some KMenu" if "menus t p = Some h" for h using typed_menu_handle [OF assms that] .
  then show ?thesis
    unfolding addSeparatorMenuItem_def Let_def
    by (intro InsertMenuItem_typed(1) [OF _ prod.collapse [symmetric]])
       (use assms in \<open>auto simp: item_typed_def split: option.splits\<close>)
qed

section \<open>Typing of the icon operations\<close>

lemma api_call_typed: "api_call t = (e, t') \<Longrightarrow> tray_typed t \<Longrightarrow> tray_typed t'"
  by (auto simp: api_call_def)

text \<open>
  \<^verbatim>\<open>iconToBitmap\<close> gives back its device contexts on every path; what remains is at most the bitmap, and
  that also when the drawing failed.
\<close>

lemma typed_free: "tray_typed t \<Longrightarrow> next_handle t \<le> h \<Longrightarrow> objects t h = None"
  using tray_typedD(2) [of t h] by (cases "objects t h") auto

lemma draw_icon_effect:
  "draw_icon hDC dc b t =
     ((case fails t (calls t + 1) of Some err \<Rightarrow> Inl err | None \<Rightarrow> Inr b),
      t\<lparr>calls := calls t + 3, selected := (selected t)(dc := None), objects := (objects t)(dc := None, hDC := None)\<rparr>)"
  by (cases "fails t (calls t)"; cases "fails t (calls t + 2)")
     (simp_all add: draw_icon_def SelectObject_def DeleteDC_def destroy_object_def api_call_def numeral_3_eq_3 numeral_2_eq_2)

lemma iconToBitmap_cases:
  assumes "tray_typed t"
  shows "iconToBitmap hIcon t =
     (let n = next_handle t; c = calls t
      in case fails t c of
           Some err \<Rightarrow> (Inl err, t\<lparr>calls := c + 1\<rparr>)
         | None \<Rightarrow>
             (case fails t (c + 1) of
                Some err \<Rightarrow> (Inl err, t\<lparr>calls := c + 2, next_handle := n + 1\<rparr>)
              | None \<Rightarrow>
                  (case fails t (c + 2) of
                     Some err \<Rightarrow> (Inl err, t\<lparr>calls := c + 3, next_handle := n + 2\<rparr>)
                   | None \<Rightarrow>
                       ((case fails t (c + 4) of Some err \<Rightarrow> Inl err | None \<Rightarrow> Inr (n + 2)),
                        t\<lparr>calls := c + 6, next_handle := n + 3, objects := (objects t)(n + 2 \<mapsto> KBitmap)\<rparr>))))"
proof -
  have free: "objects t (next_handle t) = None" "objects t (Suc (next_handle t)) = None"
    by (rule typed_free [OF assms], simp)+
  have sel: "(selected t)(dc := None) = selected t" for dc using tray_typedD(3) [OF assms] by (simp add: fun_eq_iff)
  have same: "(objects t)(next_handle t := None) = objects t" "(objects t)(Suc (next_handle t) := None) = objects t"
    using free by (auto simp: fun_eq_iff)
  show ?thesis
    by (cases "fails t (calls t)"; cases "fails t (calls t + 1)"; cases "fails t (calls t + 2)")
       (simp_all add: iconToBitmap_def create_object_def new_object_def api_call_def draw_icon_effect DeleteDC_def destroy_object_def
         sel same fun_upd_twist numeral_2_eq_2 numeral_3_eq_3 eval_nat_numeral Let_def split: option.split)
qed

lemma iconToBitmap_effect:
  assumes "tray_typed t" "iconToBitmap hIcon t = (r, t')"
  shows "t' = t\<lparr>calls := calls t', next_handle := next_handle t', objects := objects t'\<rparr>"
    and "objects t' = objects t \<and> isl r \<and> next_handle t \<le> next_handle t' \<and> next_handle t' < next_handle t + 3 \<or>
      objects t' = (objects t)(next_handle t + 2 \<mapsto> KBitmap) \<and> next_handle t' = next_handle t + 3 \<and>
      (\<forall>b. r = Inr b \<longrightarrow> b = next_handle t + 2)"
proof -
  note eq = assms(2) [unfolded iconToBitmap_cases [OF assms(1)] Let_def, symmetric]
  from eq show "t' = t\<lparr>calls := calls t', next_handle := next_handle t', objects := objects t'\<rparr>"
    by (simp split: option.splits)
  from eq show "objects t' = objects t \<and> isl r \<and> next_handle t \<le> next_handle t' \<and> next_handle t' < next_handle t + 3 \<or>
      objects t' = (objects t)(next_handle t + 2 \<mapsto> KBitmap) \<and> next_handle t' = next_handle t + 3 \<and>
      (\<forall>b. r = Inr b \<longrightarrow> b = next_handle t + 2)"
    by (simp split: option.splits)
qed

lemma iconToBitmap_typed:
  assumes "tray_typed t" "iconToBitmap hIcon t = (r, t')"
  shows "tray_typed t'" "r = Inr b \<Longrightarrow> objects t' b = Some KBitmap"
proof -
  note fr = iconToBitmap_effect(1) [OF assms] and eff = iconToBitmap_effect(2) [OF assms]
  have "selected t' = selected t" "window t' = window t" "tips_ok t' = tips_ok t" "handle_refs t' = handle_refs t"
    by (subst fr, simp)+
  then show "tray_typed t'"
    by (intro typed_grow [OF assms(1)]) (use eff tray_typedD(2,5) [OF assms(1)] in \<open>auto split: if_splits\<close>)
  show "objects t' b = Some KBitmap" if "r = Inr b" using eff that by auto
qed

lemma LoadImage_typed:
  assumes "tray_typed t" "LoadImage_file is_icon fs src t = (r, t')"
  shows "tray_typed t'" "r = Inr h \<Longrightarrow> objects t' h = Some KIcon"
proof -
  consider "create_object KIcon t = (r, t')" | e where "r = Inl e" "t' = t\<lparr>calls := calls t + 1\<rparr>"
    using assms(2) by (auto simp: LoadImage_file_def api_call_def split: sum.splits if_splits)
  then show "tray_typed t'" "r = Inr h \<Longrightarrow> objects t' h = Some KIcon"
    using create_object_typed [OF assms(1), of KIcon] assms(1) by (cases; auto)+
qed

lemma loadIconFrom_typed:
  assumes "tray_typed t" "loadIconFrom is_icon fs src t = (r, t')"
  shows "tray_typed t'" "r = Inr h \<Longrightarrow> objects t' h = Some KIcon"
proof -
  obtain q t1 where c: "LoadImage_file is_icon fs src t = (q, t1)" by force
  note ok = LoadImage_typed [OF assms(1) c]
  have cached: "objects t g = Some KIcon" if "loadedImages t src = Some g" for g
    by (rule tray_typedD(4) [OF assms(1)]) (use that in \<open>auto simp: handle_refs_def icon_refs_def ran_def\<close>)
  have stored: "tray_typed (t1\<lparr>loadedImages := (loadedImages t1)(src \<mapsto> g)\<rparr>)" if "q = Inr g" for g
    using typed_store_icon(1) [OF ok(1)] ok(2) [OF that] by simp
  show "tray_typed t'" "r = Inr h \<Longrightarrow> objects t' h = Some KIcon"
    using assms c ok(1) ok(2) [of h] cached stored
    by (auto simp: loadIconFrom_def split: option.splits sum.splits)
qed

lemma loadIconFromResource_typed:
  assumes "tray_typed t" "loadIconFromResource resID t = (r, t')"
  shows "tray_typed t'" "r = Inr h \<Longrightarrow> objects t' h = Some KIcon"
proof -
  obtain q t1 where c: "create_object KIcon t = (q, t1)" by force
  note ok = create_object_typed [OF assms(1) _ c]
  have shared: "objects t g = Some KIcon" if "shared_icons t resID = Some g" for g
    by (rule tray_typedD(4) [OF assms(1)]) (use that in \<open>auto simp: handle_refs_def icon_refs_def ran_def\<close>)
  have stored: "tray_typed (t1\<lparr>shared_icons := (shared_icons t1)(resID \<mapsto> g)\<rparr>)" if "q = Inr g" for g
    using typed_store_icon(2) [OF ok(1)] ok(2) [OF _ that] by simp
  show "tray_typed t'" "r = Inr h \<Longrightarrow> objects t' h = Some KIcon"
    using assms c ok(1) ok(2) [of h] shared stored
    by (auto simp: loadIconFromResource_def api_call_def split: option.splits sum.splits)
qed

text \<open>The record of the icon and what the shell shows of it.\<close>

definition nid_typed :: "winTray \<Rightarrow> notifyIconData \<Rightarrow> bool" where
  "nid_typed t d \<longleftrightarrow> (nid_Icon d = 0 \<or> objects t (nid_Icon d) = Some KIcon) \<and> length (nid_Tip d) = 128"

lemma typed_nid:
  assumes "tray_typed t"
  shows "nid t = Some d \<Longrightarrow> nid_typed t d" "shell_icons t k = Some d \<Longrightarrow> nid_typed t d"
proof -
  have "objects t h = Some KIcon" if "h \<in> icon_refs t" for h
    by (rule tray_typedD(4) [OF assms]) (use that in \<open>simp add: handle_refs_def\<close>)
  then have icon: "nid_Icon d = 0 \<or> objects t (nid_Icon d) = Some KIcon" if "optional (nid_Icon d) \<subseteq> icon_refs t"
    using that by (auto simp: optional_def split: if_splits)
  have shown: "d \<in> ran (shell_icons t)" if "shell_icons t k = Some d" using that by (rule ranI)
  show "nid t = Some d \<Longrightarrow> nid_typed t d"
    using icon tray_typedD(5) [OF assms] by (auto simp: nid_typed_def tips_ok_def icon_refs_def)
  show "shell_icons t k = Some d \<Longrightarrow> nid_typed t d"
    using icon shown tray_typedD(5) [OF assms] by (auto simp: nid_typed_def tips_ok_def icon_refs_def)
qed

lemma typed_set_nid:
  assumes "tray_typed t" "nid_typed t d"
  shows "tray_typed (t\<lparr>nid := Some d\<rparr>)" "tray_typed (t\<lparr>shell_icons := (shell_icons t)(k \<mapsto> d)\<rparr>)"
proof -
  note tips = tray_typedD(5) [OF assms(1)]
  show "tray_typed (t\<lparr>nid := Some d\<rparr>)"
    using assms(2) tips
    by (intro typed_refs [OF assms(1)])
       (auto simp: nid_typed_def tips_ok_def menu_refs_def bitmap_refs_def other_refs_def icon_refs_def optional_def)
  let ?t = "t\<lparr>shell_icons := (shell_icons t)(k \<mapsto> d)\<rparr>"
  have ran: "ran (shell_icons ?t) \<subseteq> insert d (ran (shell_icons t))" using ran_upd by simp
  have "optional (nid_Icon d) \<subseteq> {h. objects t h = Some KIcon}"
    using assms(2) by (auto simp: nid_typed_def optional_def)
  with ran have "icon_refs ?t \<subseteq> {h. objects t h = Some KIcon} \<union> icon_refs t"
    unfolding icon_refs_def by auto
  then show "tray_typed ?t"
    using ran assms(2) tips
    by (intro typed_refs [OF assms(1)]) (auto simp: tips_ok_def nid_typed_def menu_refs_def bitmap_refs_def other_refs_def)
qed

lemma merge_icon_typed: "nid_typed t d \<Longrightarrow> nid_typed t e \<Longrightarrow> nid_typed t (merge_icon d e)"
  by (simp add: merge_icon_def nid_typed_def)

lemma nid_typed_objects: "objects t' = objects t \<Longrightarrow> nid_typed t' d = nid_typed t d"
  by (simp add: nid_typed_def)

lemma nid_calls_typed:
  assumes "tray_typed t"
  shows "(\<And>d. n = Some d \<Longrightarrow> nid_typed t d) \<Longrightarrow> tray_typed (snd (nid_add n t))"
    and "nid_typed t d \<Longrightarrow> tray_typed (snd (nid_modify d t))" and "tray_typed (snd (nid_delete d t))"
proof -
  let ?t = "t\<lparr>calls := calls t + 1\<rparr>"
  have ty: "tray_typed ?t" and same: "nid_typed ?t e = nid_typed t e" for e
    using assms nid_typed_objects [of ?t t] by simp_all
  have set: "tray_typed (?t\<lparr>shell_icons := (shell_icons ?t)(k \<mapsto> e)\<rparr>)" if "nid_typed t e" for k e
    using typed_set_nid(2) [OF ty] that same by blast
  have "nid_typed t (blank_icon d)" for d by (simp add: blank_icon_def nid_typed_def)
  then show "tray_typed (snd (nid_add n t))" if "\<And>d. n = Some d \<Longrightarrow> nid_typed t d"
    using ty that set [OF merge_icon_typed] by (auto simp: nid_add_def api_call_def split: option.split)
  show "tray_typed (snd (nid_modify d t))" if "nid_typed t d"
    using ty that set [OF merge_icon_typed] typed_nid(2) [OF assms] by (auto simp: nid_modify_def api_call_def split: option.split)
  have "ran ((shell_icons t)(icon_key d := None)) \<subseteq> ran (shell_icons t)" by (auto simp: ran_def)
  then have "tray_typed (?t\<lparr>shell_icons := (shell_icons ?t)(icon_key d := None)\<rparr>)"
    using tray_typedD(5) [OF ty]
    by (intro typed_refs [OF ty]) (auto simp: tips_ok_def menu_refs_def bitmap_refs_def other_refs_def icon_refs_def)
  with ty show "tray_typed (snd (nid_delete d t))"
    by (auto simp: nid_delete_def api_call_def split: option.split)
qed

lemma set_nid_typed:
  assumes "tray_typed t" "set_nid f t = Some (e, t')" "\<And>d. nid_typed t d \<Longrightarrow> nid_typed t (f d)"
  shows "tray_typed t'"
proof -
  from assms(2) obtain d where d: "nid t = Some d" by (auto simp: set_nid_def split: option.splits)
  let ?d = "(f d)\<lparr>nid_Size := Sizeof_notifyIconData\<rparr>"
  have "nid_typed t ?d" using assms(3) [OF typed_nid(1) [OF assms(1) d]] by (simp add: nid_typed_def)
  from typed_set_nid(1) [OF assms(1) this] this have "tray_typed (snd (nid_modify ?d (t\<lparr>nid := Some ?d\<rparr>)))"
    by (intro nid_calls_typed(2)) (simp_all add: nid_typed_def)
  with assms(2) d show ?thesis by (auto simp: set_nid_def Let_def)
qed

lemma show_icon_typed:
  assumes "show_icon (r, t) = Some (e, t')" "tray_typed t" "\<And>h. r = Inr h \<Longrightarrow> objects t h = Some KIcon"
  shows "tray_typed t'"
proof (cases r)
  case (Inr h)
  with assms(1) have "set_nid (\<lambda>d. d\<lparr>nid_Icon := h, nid_Flags := nid_Flags d OR NIF_ICON\<rparr>) t = Some (e, t')"
    by (simp add: show_icon_def)
  from set_nid_typed [OF assms(2) this] assms(3) [OF Inr] show ?thesis by (simp add: nid_typed_def)
qed (use assms in \<open>auto simp: show_icon_def\<close>)

lemma length_go_copy [simp]: "length (go_copy dst src) = length dst"
  by (auto simp: go_copy_def)

lemma SetTooltip_typed:
  assumes "tray_typed t" "SetTooltip tip t = Some t'"
  shows "tray_typed t'"
proof -
  obtain e where e: "setTooltip tip t = Some (e, t')" using assms(2) by (auto simp: SetTooltip_def)
  show ?thesis
  proof (cases "UTF16FromString tip")
    case (Inr b)
    with e have "set_nid (\<lambda>d. d\<lparr>nid_Tip := go_copy (nid_Tip d) b, nid_Flags := nid_Flags d OR NIF_TIP\<rparr>) t = Some (e, t')"
      by (simp add: setTooltip_def)
    from set_nid_typed [OF assms(1) this] show ?thesis by (simp add: nid_typed_def)
  qed (use assms e in \<open>auto simp: setTooltip_def\<close>)
qed

lemma SetIcon_typed:
  assumes "tray_typed t" "SetIcon TempDir is_icon iconBytes (fs, t) = Some (fs', t')"
  shows "tray_typed t'"
proof -
  consider e where "setIconFromResource (IntResource iconBytes) t = Some (e, t')"
    | e p fs1 where "setIcon is_icon fs1 p t = Some (e, t')" | "t' = t"
    using assms(2) by (auto simp: SetIcon_def Let_def split: if_splits sum.splits prod.splits)
  then show ?thesis
  proof cases
    case 1
    obtain r t1 where c: "loadIconFromResource (IntResource iconBytes) t = (r, t1)" by force
    with 1 have "show_icon (r, t1) = Some (e, t')" by (simp add: setIconFromResource_def)
    from show_icon_typed [OF this loadIconFromResource_typed [OF assms(1) c]] show ?thesis .
  next
    case 2
    obtain r t1 where c: "loadIconFrom is_icon fs1 p t = (r, t1)" by force
    with 2 have "show_icon (r, t1) = Some (e, t')" by (simp add: setIcon_def)
    from show_icon_typed [OF this loadIconFrom_typed [OF assms(1) c]] show ?thesis .
  qed (use assms(1) in simp)
qed

lemma item_SetIcon_typed:
  assumes "tray_typed t" "item_SetIcon TempDir is_icon iconBytes item (fs, t) = (fs', t')"
  shows "tray_typed t'"
proof -
  obtain r fs1 t1 where c: "item_icon_handle TempDir is_icon iconBytes fs t = (r, fs1, t1)" by (metis prod_cases3)
  have t1: "tray_typed t1"
    using c assms(1) loadIconFromResource_typed(1) [OF assms(1)] loadIconFrom_typed(1) [OF assms(1)]
    by (auto simp: item_icon_handle_def Let_def split: if_splits prod.splits sum.splits)
  show ?thesis
  proof (cases r)
    case (Inr h)
    obtain q t2 where q: "iconToBitmap h t1 = (q, t2)" by force
    note ok = iconToBitmap_typed [OF t1 q]
    have "tray_typed (addOrUpdateMenuItem item (t2\<lparr>menuItemIcons := (menuItemIcons t2)(item_id item \<mapsto> b)\<rparr>))" if "q = Inr b" for b
      using ok(1) ok(2) [OF that] by (simp add: addOrUpdateMenuItem_def tray_addOrUpdateMenuItem_typed typed_store_bitmap)
    with assms(2) c Inr q ok(1) show ?thesis by (auto simp: item_SetIcon_def split: sum.splits)
  qed (use assms(2) c t1 in \<open>auto simp: item_SetIcon_def\<close>)
qed

section \<open>Typing of the window procedure\<close>

lemma wcex_typed:
  "tray_typed t \<Longrightarrow> tray_typed (snd (wcex_register w t))" "tray_typed t \<Longrightarrow> tray_typed (snd (wcex_unregister w t))"
  by (auto simp: wcex_register_def wcex_unregister_def api_call_def Let_def split: option.split)

lemma showMenu_typed:
  assumes "tray_typed t"
  shows "tray_typed (snd (showMenu t))"
proof -
  let ?t = "t\<lparr>calls := calls t + 2\<rparr>"
  have ty: "tray_typed ?t" using assms by simp
  have "tray_typed (?t\<lparr>popups := popups ?t @ [h]\<rparr>)" if "menus ?t 0 = Some h" for h
    by (rule typed_store_menu(3) [OF ty typed_menu_handle [OF ty that]])
  with assms show ?thesis by (auto simp: showMenu_def api_call_def split: option.split)
qed

lemma wm_typed:
  assumes "tray_typed t"
  shows "tray_typed (snd (wm_create h t))" "tray_typed (snd (wm_endsession t))" "tray_typed (snd (wm_destroy t))"
proof -
  show "tray_typed (snd (wm_create h t))" using assms by (auto simp: wm_create_def api_call_def split: option.split)
  show e: "tray_typed (snd (wm_endsession t))"
    using assms nid_calls_typed(3) [OF assms] by (auto simp: wm_endsession_def split: option.split)
  then show "tray_typed (snd (wm_destroy t))" by (simp add: wm_destroy_def case_prod_beta)
qed

lemma wm_objects [simp]:
  "objects (snd (wm_create h t)) = objects t" "objects (snd (wm_endsession t)) = objects t" "objects (snd (wm_destroy t)) = objects t"
  by (auto simp: wm_create_def wm_endsession_def wm_destroy_def nid_delete_def api_call_def split: option.split prod.split)

lemma DestroyWindow_typed:
  assumes "tray_typed t"
  shows "tray_typed (snd (snd (DestroyWindow h t)))"
proof -
  let ?t = "t\<lparr>calls := calls t + 1\<rparr>"
  have ty: "tray_typed ?t" using assms by simp
  have "tray_typed (destroy_object h (snd (wm_destroy ?t)))" if "objects ?t h = Some KWindow"
    using wm_typed(3) [OF ty] that by (intro typed_no_window) simp_all
  with ty show ?thesis
    by (auto simp: DestroyWindow_def api_call_def split: option.split prod.splits)
qed

lemma wm_close_typed:
  assumes "tray_typed t"
  shows "tray_typed (snd (wm_close h t))"
proof -
  define t1 where "t1 = (if sessionRegistered t
      then (case api_call t of (Some err, t') \<Rightarrow> t' | (None, t') \<Rightarrow> t'\<lparr>sessionRegistered := False, notified := removeAll h (notified t')\<rparr>)
      else t)"
  have "tray_typed t1" using assms by (auto simp: t1_def api_call_def split: option.split)
  from DestroyWindow_typed [OF this, of "window t1"] show ?thesis
    by (auto simp: wm_close_def t1_def [symmetric] Let_def wcex_typed split: prod.split option.split)
qed

lemma wndProc_typed:
  assumes "tray_typed t"
  shows "tray_typed (snd (snd (wndProc defproc h m t)))"
  using wm_typed [OF assms] wm_close_typed [OF assms] showMenu_typed [OF assms] assms
    nid_calls_typed(1) [OF assms typed_nid(1) [OF assms], of "nid t"]
  by (cases m) (simp add: wndProc_def case_prod_beta)

lemma DispatchMessage_typed: "tray_typed t \<Longrightarrow> tray_typed (snd (DispatchMessage defproc hm t))"
  by (cases hm) (simp add: DispatchMessage_def case_prod_beta wndProc_typed)

lemma init_maps_typed:
  assumes "tray_typed t"
  shows "tray_typed (init_maps t)"
proof -
  let ?t = "t\<lparr>wmSystrayMessage := 0x0401, visibleItems := Map.empty\<rparr>"
  have "tray_typed (?t\<lparr>menus := Map.empty, menuOf := Map.empty, menuItemIcons := Map.empty\<rparr>)"
    by (rule typed_forget(1)) (use assms in simp)
  then have "tray_typed (?t\<lparr>menus := Map.empty, menuOf := Map.empty, menuItemIcons := Map.empty,
      calls := calls t + 1, wmTaskbarCreated := m\<rparr>)" for m by simp
  from typed_forget(2) [OF this] show ?thesis by (simp add: init_maps_def api_call_def Let_def)
qed

lemma CreateWindowEx_typed:
  assumes "tray_typed t" "CreateWindowEx t = (r, cs, t')"
  shows "tray_typed t'" "r = Inr h \<Longrightarrow> objects t' h = Some KWindow"
proof -
  obtain q t1 where c: "create_object KWindow t = (q, t1)" by force
  note ok = create_object_typed [OF assms(1) _ c]
  show "tray_typed t'"
    using assms(2) c ok(1) wm_typed(1) [of t1] by (auto simp: CreateWindowEx_def split: sum.splits prod.splits) (metis snd_conv)
  show "objects t' h = Some KWindow" if "r = Inr h"
    using assms(2) c ok(2) [of h] that wm_objects(1) [of h t1] by (auto simp: CreateWindowEx_def simp del: wm_objects split: sum.splits prod.splits)
qed

lemma or_fail_typed:
  assumes "tray_typed t" "k \<notin> {KScreenDC, KMemDC}"
    and "\<And>h t'. tray_typed t' \<Longrightarrow> objects t' h = Some k \<Longrightarrow> tray_typed (snd (snd (f h t')))"
  shows "tray_typed (snd (snd (or_fail (create_object k t) f)))"
proof -
  obtain r t1 where c: "create_object k t = (r, t1)" by force
  from create_object_typed(1,2) [OF assms(1,2) c] c assms(3) show ?thesis by (auto simp: or_fail_def split: sum.split)
qed

lemma init_class_typed: "tray_typed t \<Longrightarrow> init_class nm t = (e, t') \<Longrightarrow> tray_typed t'"
  using wcex_typed(1) [of t] unfolding init_class_def by (metis snd_conv)

lemma open_window_typed:
  assumes "tray_typed t"
  shows "tray_typed (snd (snd (case init_class nm t of
     (Some err, t5) \<Rightarrow> (Some err, [], t5)
   | (None, t5) \<Rightarrow> (case CreateWindowEx t5 of
        (Inl err, cs, t6) \<Rightarrow> (Some err, cs, t6) | (Inr windowHandle, cs, t6) \<Rightarrow> (None, cs, t6\<lparr>window := windowHandle\<rparr>)))))"
proof -
  obtain e t5 where c: "init_class nm t = (e, t5)" by force
  obtain r cs t6 where d: "CreateWindowEx t5 = (r, cs, t6)" by (metis prod_cases3)
  from CreateWindowEx_typed [OF init_class_typed [OF assms c] d] init_class_typed [OF assms c] c d show ?thesis
    by (auto split: option.split sum.split intro!: typed_window)
qed

lemma init_window_typed: "tray_typed t \<Longrightarrow> tray_typed (snd (snd (init_window t)))"
  unfolding init_window_def Let_def
  by (intro or_fail_typed init_maps_typed typed_store_other typed_store_icon)
     (auto intro: typed_store_other open_window_typed split: sum.split)

lemma init_icon_typed:
  assumes "tray_typed t"
  shows "tray_typed (snd (init_icon t))"
proof -
  let ?d = "\<lparr>nid_Size = Sizeof_notifyIconData, nid_Wnd = window t, nid_ID = 100, nid_Flags = NIF_MESSAGE,
               nid_CallbackMessage = wmSystrayMessage t, nid_Icon = 0, nid_Tip = replicate 128 0\<rparr>"
  have "nid_typed t ?d" "nid_typed (t\<lparr>nid := Some ?d\<rparr>) ?d" by (simp_all add: nid_typed_def)
  with nid_calls_typed(1) [OF typed_set_nid(1) [OF assms], of ?d "Some ?d"] show ?thesis
    by (simp add: init_icon_def Let_def)
qed

lemma initInstance_typed: "tray_typed t \<Longrightarrow> tray_typed (snd (snd (initInstance t)))"
  using init_window_typed [of t] init_icon_typed
  by (simp add: initInstance_def case_prod_beta split: option.split)

lemma registerSystray_typed: "tray_typed t \<Longrightarrow> tray_typed (snd (registerSystray t))"
  using initInstance_typed [of t] createMenu_typed
  by (simp add: registerSystray_def case_prod_beta split: option.split)

lemma new_tray_typed: "tray_typed (new_tray f)"
  by (simp add: tray_typed_def new_tray_def refs_defs tips_ok_def optional_def)

section \<open>Steps of the tray\<close>

text \<open>
  What may happen to the tray after it was registered, in any order: the calls of the package, with
  any of the calls of the operating system failing, and window messages.
\<close>

inductive tray_step :: "os_state \<times> systray \<Rightarrow> os_state \<times> systray \<Rightarrow> bool" where
  Menu: "menu_step s s' \<Longrightarrow> tray_step (fs, s) (fs, s')"
| FailedSeparator: "AddSeparator s = (Some err, s') \<Longrightarrow> tray_step (fs, s) (fs, s')"
| Icon: "SetIcon TempDir is_icon iconBytes (fs, tray s) = Some (fs', t') \<Longrightarrow> tray_step (fs, s) (fs', s\<lparr>tray := t'\<rparr>)"
| TemplateIcon: "SetTemplateIcon TempDir is_icon templateBytes iconBytes (fs, tray s) = Some (fs', t') \<Longrightarrow>
    tray_step (fs, s) (fs', s\<lparr>tray := t'\<rparr>)"
| Tooltip: "SetTooltip tip (tray s) = Some t' \<Longrightarrow> tray_step (fs, s) (fs, s\<lparr>tray := t'\<rparr>)"
| ItemIcon: "menuItems s i = Some item \<Longrightarrow> item_SetIcon TempDir is_icon iconBytes item (fs, tray s) = (fs', t') \<Longrightarrow>
    tray_step (fs, s) (fs', s\<lparr>tray := t'\<rparr>)"
| ItemTemplateIcon: "menuItems s i = Some item \<Longrightarrow>
    item_SetTemplateIcon TempDir is_icon templateBytes iconBytes item (fs, tray s) = (fs', t') \<Longrightarrow>
    tray_step (fs, s) (fs', s\<lparr>tray := t'\<rparr>)"
| Message: "DispatchMessage defproc hm (tray s) = (cs, t') \<Longrightarrow> tray_step (fs, s) (fs, s\<lparr>tray := t'\<rparr>)"

lemma AddSeparator_typed: "AddSeparator s = (e, s') \<Longrightarrow> tray_typed (tray s) \<Longrightarrow> tray_typed (tray s')"
  using addSeparatorMenuItem_typed [of "tray s" "currentID s + 1" 0]
  by (auto simp: AddSeparator_def addSeparator_def Let_def split: prod.splits)

lemma item_update_typed: "tray_typed (tray s) \<Longrightarrow> tray_typed (tray (item_update item s))"
  by (simp add: item_update_def addOrUpdateMenuItem_def tray_addOrUpdateMenuItem_typed)

lemma quit_typed: "tray_typed t \<Longrightarrow> tray_typed (quit t)"
  by (auto simp: quit_def PostMessage_def api_call_def split: option.split)

lemma menu_step_typed:
  assumes "menu_step s s'" "tray_typed (tray s)"
  shows "tray_typed (tray s')"
  using assms
proof cases
  case Separator
  then show ?thesis using assms(2) by (auto intro: AddSeparator_typed)
qed (use assms(2) in \<open>auto simp: AddMenuItem_def AddMenuItemCheckbox_def AddSubMenuItem_def AddSubMenuItemCheckbox_def newMenuItem_def
      item_change_defs item_change_def item_Hide_def item_Show_def hideMenuItem_def showMenuItem_def systray_Quit_def Let_def addOrUpdateMenuItem_def
      intro!: item_update_typed quit_typed tray_hideMenuItem_typed tray_addOrUpdateMenuItem_typed split: option.split\<close>)

lemma tray_step_typed:
  assumes "tray_step x y" "tray_typed (tray (snd x))"
  shows "tray_typed (tray (snd y))"
  using assms
proof cases
  case (Message defproc hm s cs t' fs)
  then show ?thesis using assms(2) DispatchMessage_typed [of "tray s" defproc hm] by simp
qed (use assms(2) in \<open>auto simp: SetTemplateIcon_def item_SetTemplateIcon_def intro: menu_step_typed AddSeparator_typed SetIcon_typed SetTooltip_typed item_SetIcon_typed\<close>)

interpretation typed: step_invariant tray_step "\<lambda>x. tray_typed (tray (snd x))"
  by unfold_locales (rule tray_step_typed)

section \<open>Properties\<close>


text \<open>The first state of the package, with a registered tray.\<close>

definition started_tray :: "(nat \<Rightarrow> goerr option) \<Rightarrow> systray" where
  "started_tray f = \<lparr>currentID = 0, menuItems = Map.empty, tray = snd (registerSystray (new_tray f)), quitDone = False\<rparr>"


text \<open>
  \<^verbatim>\<open>iconToBitmap\<close> on every path: on success the result is a fresh bitmap, selected into no
  device context, and nothing else remains; on an error nothing remains, except when the bitmap was
  already made: then drawing the icon failed, and the bitmap is left without anyone holding it.
\<close>

theorem iconToBitmap_outcome:
  assumes "tray_typed t" and "iconToBitmap hIcon t = (r, t')"
  shows "case r of
      Inr b \<Rightarrow> objects t b = None \<and> objects t' = (objects t)(b \<mapsto> KBitmap) \<and> (\<forall>dc. selected t' dc \<noteq> Some b)
    | Inl err \<Rightarrow>
        if \<forall>n < 3. fails t (calls t + n) = None
        then fails t (calls t + 4) = Some err \<and> objects t' = (objects t)(next_handle t + 2 \<mapsto> KBitmap) \<and>
          next_handle t + 2 \<notin> bitmap_refs t'
        else objects t' = objects t"
proof -
  note eff = iconToBitmap_effect [OF assms] and ty = iconToBitmap_typed(1) [OF assms]
  have free: "objects t (next_handle t + n) = None" for n by (rule typed_free [OF assms(1)]) simp
  have three: "(\<forall>n < 3. fails t (calls t + n) = None) \<longleftrightarrow>
      fails t (calls t) = None \<and> fails t (Suc (calls t)) = None \<and> fails t (Suc (Suc (calls t))) = None"
    by (auto simp: numeral_3_eq_3 less_Suc_eq)
  have "bitmap_refs t' = bitmap_refs t" by (subst eff(1)) (simp add: bitmap_refs_def)
  moreover have "next_handle t + 2 \<notin> bitmap_refs t"
    using tray_typedD(4) [OF assms(1), of "next_handle t + 2" KBitmap] free [of 2] by (auto simp: handle_refs_def)
  ultimately have leak: "next_handle t + 2 \<notin> bitmap_refs t'" by simp
  show ?thesis
  proof (cases r)
    case (Inr b)
    with eff(2) free [of 2] tray_typedD(3) [OF ty] show ?thesis by auto
  next
    case (Inl err)
    have "if \<forall>n < 3. fails t (calls t + n) = None
        then fails t (calls t + 4) = Some err \<and> next_handle t' = next_handle t + 3 else next_handle t' < next_handle t + 3"
      using assms(2) Inl unfolding three iconToBitmap_cases [OF assms(1)] Let_def
      by (auto simp: numeral_2_eq_2 split: option.splits)
    with eff(2) Inl leak show ?thesis by (auto split: if_splits)
  qed
qed

theorem iconToBitmap_outcome_witness:
  "fst (iconToBitmap 7 (new_tray (\<lambda>n. if n = 4 then Some EOF else None))) = Inl EOF \<and>
   objects (snd (iconToBitmap 7 (new_tray (\<lambda>n. if n = 4 then Some EOF else None)))) = [3 \<mapsto> KBitmap] \<and>
   fst (iconToBitmap 7 (new_tray (\<lambda>n. None))) = Inr 3 \<and>
   objects (snd (iconToBitmap 7 (new_tray (\<lambda>n. None)))) = [3 \<mapsto> KBitmap]"
proof -
  let ?f = "\<lambda>n. if n = 4 then Some EOF else None" and ?g = "\<lambda>n. None"
  have r: "fst (iconToBitmap 7 (new_tray ?f)) = Inl EOF" "fst (iconToBitmap 7 (new_tray ?g)) = Inr 3" by code_simp+
  obtain t1 where 1: "iconToBitmap 7 (new_tray ?f) = (Inl EOF, t1)" using r(1) by (metis prod.collapse)
  obtain t2 where 2: "iconToBitmap 7 (new_tray ?g) = (Inr 3, t2)" using r(2) by (metis prod.collapse)
  from iconToBitmap_outcome [OF new_tray_typed 1] iconToBitmap_outcome [OF new_tray_typed 2] r 1 2 show ?thesis
    by (auto simp: new_tray_def split: if_splits)
qed

definition no_menu :: "winTray \<Rightarrow> bool" where
  "no_menu t \<longleftrightarrow> menus t = Map.empty \<and> menuOf t = Map.empty \<and> (\<forall>h. hmenu t h = []) \<and> popups t = []"

lemma no_menu_frame:
  "no_menu t \<Longrightarrow> menus t' = menus t \<Longrightarrow> menuOf t' = menuOf t \<Longrightarrow> hmenu t' = hmenu t \<Longrightarrow> popups t' = popups t \<Longrightarrow> no_menu t'"
  by (simp add: no_menu_def)

lemma no_menu_place:
  assumes "no_menu t"
  shows "no_menu (snd (place_item i p mi f t))"
proof -
  have "menus t p = None" "menuOf t p = None" "hmenu t 0 = []" using assms by (simp_all add: no_menu_def)
  with assms show ?thesis
    by (auto simp: place_item_def convertToSubMenu_def CreateMenu_def SetMenuItemInfo_def api_call_def no_menu_def split: option.split)
qed

lemma no_menu_ops:
  assumes "no_menu t"
  shows "no_menu (snd (tray_addOrUpdateMenuItem i p title dis chk t))" "no_menu (snd (tray_hideMenuItem i p t))"
    "no_menu (snd (addSeparatorMenuItem i p t))" "no_menu (quit t)" "no_menu (snd (showMenu t))"
proof -
  show "no_menu (snd (tray_addOrUpdateMenuItem i p title dis chk t))"
    using assms by (auto simp: tray_addOrUpdateMenuItem_def Let_def no_menu_place split: sum.split)
  have e: "menus t p = None" "menus t 0 = None" "hmenu t 0 = []" using assms by (simp_all add: no_menu_def)
  show "no_menu (snd (tray_hideMenuItem i p t))"
    using assms e by (auto simp: tray_hideMenuItem_def DeleteMenu_def delFromVisibleItems_def api_call_def no_menu_def split: option.split)
  show "no_menu (snd (addSeparatorMenuItem i p t))"
    using assms e by (auto simp: addSeparatorMenuItem_def InsertMenuItem_def addToVisibleItems_def api_call_def no_menu_def Let_def split: option.split)
  show "no_menu (quit t)"
    using assms by (auto simp: quit_def PostMessage_def api_call_def no_menu_def split: option.split)
  show "no_menu (snd (showMenu t))"
    using assms e by (auto simp: showMenu_def api_call_def no_menu_def split: option.split)
qed

text \<open>The icon operations and the other messages leave the menus alone.\<close>

definition menu_part :: "winTray \<Rightarrow> (u32 \<rightharpoonup> nat) \<times> (u32 \<rightharpoonup> nat) \<times> (nat \<Rightarrow> menuItemInfo list) \<times> nat list \<times> (u32 \<rightharpoonup> u32 list)" where
  "menu_part t = (menus t, menuOf t, hmenu t, popups t, visibleItems t)"

lemma no_menu_part: "no_menu t \<Longrightarrow> menu_part t' = menu_part t \<Longrightarrow> no_menu t'"
  by (simp add: no_menu_def menu_part_def)

lemma menu_part_upd [simp]:
  "menu_part (t\<lparr>nid := n\<rparr>) = menu_part t" "menu_part (t\<lparr>quit_posted := q\<rparr>) = menu_part t" "menu_part (t\<lparr>objects := ob\<rparr>) = menu_part t"
  "menu_part (t\<lparr>sessionRegistered := r\<rparr>) = menu_part t" "menu_part (t\<lparr>notified := ns\<rparr>) = menu_part t" "menu_part (t\<lparr>calls := c\<rparr>) = menu_part t"
  "menu_part (t\<lparr>shell_icons := si\<rparr>) = menu_part t" "menu_part (t\<lparr>next_handle := h\<rparr>) = menu_part t" "menu_part (t\<lparr>classes := cl\<rparr>) = menu_part t"
  "menu_part (t\<lparr>wcex := w\<rparr>) = menu_part t" "menu_part (t\<lparr>loadedImages := li\<rparr>) = menu_part t" "menu_part (t\<lparr>shared_icons := sh\<rparr>) = menu_part t"
  "menu_part (t\<lparr>selected := se\<rparr>) = menu_part t" "menu_part (t\<lparr>menuItemIcons := mi\<rparr>) = menu_part t"
  by (simp_all add: menu_part_def)

lemma menu_part_calls [simp]:
  "menu_part (snd (nid_add n t)) = menu_part t" "menu_part (snd (nid_modify d t)) = menu_part t"
  "menu_part (snd (nid_delete d t)) = menu_part t" "menu_part (snd (create_object k t)) = menu_part t"
  "menu_part (snd (wcex_register w t)) = menu_part t" "menu_part (snd (wcex_unregister w t)) = menu_part t"
  "menu_part (snd (api_call t)) = menu_part t"
  by (simp_all add: nid_add_def nid_modify_def nid_delete_def create_object_def new_object_def wcex_register_def
      wcex_unregister_def api_call_def Let_def split: option.split)

lemma menu_part_created: "create_object k t = (r, t') \<Longrightarrow> menu_part t' = menu_part t"
  using menu_part_calls(4) [of k t] by simp

lemma menu_part_images [simp]:
  "menu_part (snd (loadIconFrom is_icon fs src t)) = menu_part t" "menu_part (snd (loadIconFromResource resID t)) = menu_part t"
  "menu_part (snd (iconToBitmap h t)) = menu_part t"
proof -
  show "menu_part (snd (loadIconFromResource resID t)) = menu_part t"
    by (auto simp: loadIconFromResource_def api_call_def dest: menu_part_created split: option.split sum.split prod.split)
  have "menu_part (snd (LoadImage_file is_icon fs src t)) = menu_part t"
    by (auto simp: LoadImage_file_def api_call_def split: sum.split)
  then show "menu_part (snd (loadIconFrom is_icon fs src t)) = menu_part t"
    by (auto simp: loadIconFrom_def split: option.split sum.split prod.split)
  show "menu_part (snd (iconToBitmap h t)) = menu_part t"
    by (auto simp: iconToBitmap_def draw_icon_effect DeleteDC_def destroy_object_def dest!: menu_part_created split: sum.split prod.split)
qed

lemma menu_part_set_nid:
  assumes "set_nid f t = Some (e, t')"
  shows "menu_part t' = menu_part t"
proof -
  from assms obtain d where "nid_modify d (t\<lparr>nid := Some d\<rparr>) = (e, t')"
    by (auto simp: set_nid_def Let_def split: option.splits)
  then have "t' = snd (nid_modify d (t\<lparr>nid := Some d\<rparr>))" by simp
  then show ?thesis by simp
qed

lemma menu_part_show_icon: "show_icon r = Some (e, t') \<Longrightarrow> menu_part t' = menu_part (snd r)"
  by (cases r) (auto simp: show_icon_def dest: menu_part_set_nid split: sum.splits)

lemma menu_part_SetTooltip: "SetTooltip tip t = Some t' \<Longrightarrow> menu_part t' = menu_part t"
  by (auto simp: SetTooltip_def setTooltip_def dest: menu_part_set_nid split: sum.splits)

lemma menu_part_SetIcon: "SetIcon TempDir is_icon iconBytes (fs, t) = Some (fs', t') \<Longrightarrow> menu_part t' = menu_part t"
  by (auto simp: SetIcon_def setIcon_def setIconFromResource_def Let_def split: if_splits sum.splits prod.splits dest!: menu_part_show_icon)

lemma menu_part_messages [simp]:
  "menu_part (snd (wm_create h t)) = menu_part t" "menu_part (snd (wm_endsession t)) = menu_part t"
  "menu_part (snd (wm_destroy t)) = menu_part t"
  by (auto simp: menu_part_def wm_create_def wm_endsession_def wm_destroy_def nid_delete_def api_call_def split: option.split)

lemma menu_part_DestroyWindow [simp]: "menu_part (snd (snd (DestroyWindow h t))) = menu_part t"
  by (auto simp: DestroyWindow_def destroy_object_def case_prod_beta api_call_def split: option.split)

lemma menu_part_wm_close [simp]: "menu_part (snd (wm_close h t)) = menu_part t"
  by (auto simp: wm_close_def case_prod_beta api_call_def Let_def split: option.split)

lemma menu_part_wndProc:
  "menu_part (snd (snd (wndProc defproc h m t))) = menu_part t \<or> snd (snd (wndProc defproc h m t)) = snd (showMenu t)"
  by (cases m) (simp add: wndProc_def case_prod_beta)

lemma no_menu_item_SetIcon:
  assumes "item_SetIcon TempDir is_icon iconBytes item (fs, t) = (fs', t')" "no_menu t"
  shows "no_menu t'"
proof -
  obtain r fs1 t1 where c: "item_icon_handle TempDir is_icon iconBytes fs t = (r, fs1, t1)" by (metis prod_cases3)
  have "menu_part t1 = menu_part t"
    using c menu_part_images(1) [of is_icon fs1 _ t] menu_part_images(2) [of "IntResource iconBytes" t]
    by (auto simp: item_icon_handle_def Let_def simp del: menu_part_images split: if_splits prod.splits sum.splits) (metis snd_conv)
  with assms(2) have 1: "no_menu t1" by (rule no_menu_part)
  have 2: "no_menu (snd (iconToBitmap h t1))" for h by (rule no_menu_part [OF 1]) simp
  have 3: "no_menu (t2\<lparr>menuItemIcons := m\<rparr>)" if "iconToBitmap h t1 = (q, t2)" for h q t2 m
    using that 2 [of h] by (auto intro!: no_menu_part [of t2 "t2\<lparr>menuItemIcons := m\<rparr>"] simp: menu_part_def)
  have "no_menu t2" if "iconToBitmap h t1 = (q, t2)" for h q t2 using that 2 [of h] by simp
  with assms(1) c 1 3 show ?thesis
    by (auto simp: item_SetIcon_def addOrUpdateMenuItem_def intro!: no_menu_ops split: sum.splits prod.splits)
qed

lemma no_menu_menu_step:
  assumes "menu_step s s'" "no_menu (tray s)"
  shows "no_menu (tray s')"
  using assms
proof cases
  case Separator
  then show ?thesis using no_menu_ops(3) [OF assms(2), of "currentID s + 1" 0] by (auto simp: AddSeparator_def addSeparator_def Let_def split: prod.splits)
qed (use no_menu_ops [OF assms(2)] assms(2) in \<open>auto simp: AddMenuItem_def AddMenuItemCheckbox_def AddSubMenuItem_def AddSubMenuItemCheckbox_def
      newMenuItem_def item_change_defs item_change_def item_update_def item_Hide_def item_Show_def hideMenuItem_def showMenuItem_def systray_Quit_def Let_def
      addOrUpdateMenuItem_def split: option.splits\<close>)

lemma no_menu_step:
  assumes "tray_step x y" "no_menu (tray (snd x))"
  shows "no_menu (tray (snd y))"
  using assms
proof cases
  case (Message defproc hm s cs t' fs)
  with assms(2) no_menu_ops(5) [of "tray s"] menu_part_wndProc [of defproc "fst hm" "snd hm" "tray s"] show ?thesis
    by (auto simp: DispatchMessage_def case_prod_beta split: if_splits dest: no_menu_part)
next
  case (FailedSeparator s err s' fs)
  with assms(2) no_menu_ops(3) [of "tray s" "currentID s + 1" 0] show ?thesis
    by (auto simp: AddSeparator_def addSeparator_def Let_def split: prod.splits)
next
  case (ItemIcon s i item TempDir is_icon iconBytes fs fs' t')
  have "no_menu (tray s)" using assms(2) ItemIcon by simp
  from no_menu_item_SetIcon [OF ItemIcon(4) this] ItemIcon show ?thesis by simp
next
  case (ItemTemplateIcon s i item TempDir is_icon templateBytes iconBytes fs fs' t')
  have "no_menu (tray s)" using assms(2) ItemTemplateIcon by simp
  from no_menu_item_SetIcon [OF ItemTemplateIcon(4) [unfolded item_SetTemplateIcon_def] this] ItemTemplateIcon show ?thesis by simp
qed (use assms(2) in \<open>auto simp: SetTemplateIcon_def intro: no_menu_menu_step dest: menu_part_SetIcon menu_part_SetTooltip no_menu_part\<close>)

interpretation menuless: step_invariant tray_step "\<lambda>x. no_menu (tray (snd x))"
  by unfold_locales (rule no_menu_step)

lemma menu_part_or_fail:
  assumes "\<And>h t'. menu_part t' = menu_part t \<Longrightarrow> menu_part (snd (snd (f h t'))) = menu_part t"
  shows "menu_part (snd (snd (or_fail (create_object k t) f))) = menu_part t"
proof -
  obtain r t1 where c: "create_object k t = (r, t1)" by force
  with menu_part_calls(4) [of k t] assms [of t1] show ?thesis by (auto simp: or_fail_def split: sum.split)
qed

lemma menu_part_window: "menu_part (snd (snd (CreateWindowEx t))) = menu_part t"
  using menu_part_calls(4) [of KWindow t]
  by (auto simp: CreateWindowEx_def case_prod_beta split: sum.split prod.splits)

lemma menu_part_init_window: "menu_part (snd (snd (init_window t))) = menu_part (init_maps t)"
proof -
  have fields: "menu_part (t\<lparr>inst_handle := h\<rparr>) = menu_part t" "menu_part (t\<lparr>icon_handle := h\<rparr>) = menu_part t"
    "menu_part (t\<lparr>cursor_handle := h\<rparr>) = menu_part t" "menu_part (t\<lparr>window := h\<rparr>) = menu_part t" for t h
    by (simp_all add: menu_part_def)
  have cls: "menu_part t5 = menu_part t" if "init_class nm t = (e, t5)" for nm t e t5
    using that menu_part_calls(5) unfolding init_class_def by (metis snd_conv)
  have win: "menu_part t6 = menu_part t" if "CreateWindowEx t = (r, cs, t6)" for t r cs t6
    using that menu_part_window by (metis snd_conv)
  have opened: "menu_part (snd (snd (case init_class nm t of (Some err, t5) \<Rightarrow> (Some err, [], t5)
      | (None, t5) \<Rightarrow> (case CreateWindowEx t5 of (Inl err, cs, t6) \<Rightarrow> (Some err, cs, t6)
           | (Inr h, cs, t6) \<Rightarrow> (None, cs, t6\<lparr>window := h\<rparr>))))) = menu_part t" for nm t
    by (auto simp: fields dest!: cls win split: prod.split option.split sum.split)
  show ?thesis
    unfolding init_window_def Let_def
    by (intro menu_part_or_fail menu_part_or_fail [THEN trans])
       (auto simp: fields opened split: sum.split intro!: menu_part_or_fail [THEN trans])
qed

text \<open>
  C39. When adding the icon fails, as it does while the shell is not running yet, the tray never has
  a menu: \<^verbatim>\<open>registerSystray\<close> returns before it makes one, and whatever the package is asked to do
  afterwards and whichever messages arrive, the one after which the icon is shown included, no
  menu has an item and none is popped up.
\<close>

theorem failed_icon_no_menu:
  assumes "initInstance (new_tray f) = (Some err, cs, t)" and "tray s = snd (registerSystray (new_tray f))"
    and "tray_step\<^sup>*\<^sup>* (fs, s) (fs', s')"
  shows "menus (tray s') 0 = None \<and> (\<forall>h. hmenu (tray s') h = []) \<and> popups (tray s') = []"
proof -
  have "menu_part (snd (snd (initInstance (new_tray f)))) = menu_part (init_maps (new_tray f))"
    using menu_part_init_window [of "new_tray f"] menu_part_calls(1)
    by (auto simp: initInstance_def init_icon_def Let_def case_prod_beta split: option.split prod.splits)
  then have "menu_part t = menu_part (init_maps (new_tray f))" by (simp add: assms(1))
  moreover have "no_menu (init_maps (new_tray f))"
    by (simp add: no_menu_def init_maps_def api_call_def new_tray_def Let_def)
  ultimately have "no_menu t" using no_menu_part by blast
  then have "no_menu (tray s)" by (simp add: assms(1,2) registerSystray_def)
  with menuless.reachable [OF assms(3)] show ?thesis by (simp add: no_menu_def)
qed

theorem failed_icon_no_menu_witness:
  "\<exists>err cs t. initInstance (new_tray (\<lambda>n. if n = 7 then Some EOF else None)) = (Some err, cs, t) \<and>
     menus (tray (AddMenuItem ''Exit'' [] (started_tray (\<lambda>n. if n = 7 then Some EOF else None)))) 0 = None \<and>
     (\<forall>h. hmenu (tray (AddMenuItem ''Exit'' [] (started_tray (\<lambda>n. if n = 7 then Some EOF else None)))) h = [])"
proof -
  let ?f = "\<lambda>n. if n = 7 then Some EOF else None"
  have "fst (initInstance (new_tray ?f)) = Some EOF" by code_simp
  then obtain cs t where i: "initInstance (new_tray ?f) = (Some EOF, cs, t)" by (metis prod.collapse)
  moreover have "tray_step\<^sup>*\<^sup>* (fs, started_tray ?f) (fs, AddMenuItem ''Exit'' [] (started_tray ?f))" for fs
    by (intro r_into_rtranclp tray_step.Menu menu_step.Add)
  from failed_icon_no_menu [OF i _ this] have "menus (tray (AddMenuItem ''Exit'' [] (started_tray ?f))) 0 = None \<and>
      (\<forall>h. hmenu (tray (AddMenuItem ''Exit'' [] (started_tray ?f))) h = [])"
    by (simp add: started_tray_def)
  ultimately show ?thesis by blast
qed

section \<open>The end of the loop\<close>

text \<open>
  An open tray: its window is alive and the only one, the icon and the class are its own, and no
  call fails from now on; and a closed tray.
\<close>

definition tray_open :: "winTray \<Rightarrow> bool" where
  "tray_open t \<longleftrightarrow> (\<forall>h. objects t h = Some KWindow \<longleftrightarrow> h = window t) \<and>
     (\<exists>d. nid t = Some d \<and> icon_key d = (window t, 100)) \<and> dom (shell_icons t) \<subseteq> {(window t, 100)} \<and>
     (\<exists>w. wcex t = Some w \<and> classes t = [wc_ClassName w]) \<and> (\<forall>n \<ge> calls t. fails t n = None)"

definition tray_closed :: "winTray \<Rightarrow> bool" where
  "tray_closed t \<longleftrightarrow> (\<forall>h. objects t h \<noteq> Some KWindow) \<and> quit_posted t \<and> shell_icons t = Map.empty \<and> classes t = [] \<and>
     (\<forall>n \<ge> calls t. fails t n = None)"

lemma tray_open_call: "tray_open t \<Longrightarrow> api_call t = (None, t\<lparr>calls := calls t + 1\<rparr>)" "tray_open t \<Longrightarrow> tray_open (t\<lparr>calls := calls t + 1\<rparr>)"
  by (auto simp: tray_open_def api_call_def)

lemma tray_closed_call: "tray_closed t \<Longrightarrow> api_call t = (None, t\<lparr>calls := calls t + 1\<rparr>)" "tray_closed t \<Longrightarrow> tray_closed (t\<lparr>calls := calls t + 1\<rparr>)"
  by (auto simp: tray_closed_def api_call_def)

lemma tray_open_wm:
  assumes "tray_open t"
  shows "tray_open (snd (wm_create h t))" "tray_open (snd (wm_endsession t))" "tray_open (snd (wm_destroy t))"
    "tray_open (snd (showMenu t))" "tray_open (snd (nid_add (nid t) t))"
proof -
  note call = tray_open_call [OF assms]
  obtain d where d: "nid t = Some d" "icon_key d = (window t, 100)" using assms by (auto simp: tray_open_def)
  show "tray_open (snd (wm_create h t))"
    using call by (simp add: wm_create_def tray_open_def)
  show e: "tray_open (snd (wm_endsession t))"
    using call d by (auto simp: wm_endsession_def nid_delete_def tray_open_def)
  then show "tray_open (snd (wm_destroy t))" by (simp add: wm_destroy_def case_prod_beta tray_open_def)
  show "tray_open (snd (showMenu t))"
    using call tray_open_call [OF call(2)] by (auto simp: showMenu_def tray_open_def split: option.split)
  show "tray_open (snd (nid_add (nid t) t))"
    using call d by (auto simp: nid_add_def tray_open_def merge_icon_def blank_icon_def)
qed

lemma wm_close_closes:
  assumes "tray_open t"
  shows "tray_closed (snd (wm_close h t)) \<and> SystrayExit \<in> set (fst (wm_close h t))"
proof -
  define t1 where "t1 = (if sessionRegistered t
      then t\<lparr>calls := calls t + 1, sessionRegistered := False, notified := removeAll h (notified t)\<rparr> else t)"
  have 1: "tray_open t1" using assms tray_open_call(2) [OF assms] by (auto simp: t1_def tray_open_def)
  obtain d w where d: "nid t1 = Some d" "icon_key d = (window t1, 100)" "wcex t1 = Some w" "classes t1 = [wc_ClassName w]"
    using 1 by (auto simp: tray_open_def)
  have "wm_close h t = (case DestroyWindow (window t1) t1 of
      (e, cs, t2) \<Rightarrow> (cs, (case wcex t2 of None \<Rightarrow> t2 | Some w \<Rightarrow> snd (wcex_unregister w t2))))"
    using tray_open_call(1) [OF assms] by (simp add: wm_close_def t1_def)
  moreover have "objects t1 (window t1) = Some KWindow" "\<forall>n. fails t1 (calls t1 + n) = None"
    "dom (shell_icons t1) \<subseteq> {icon_key d}" "\<forall>h. h \<noteq> window t1 \<longrightarrow> objects t1 h \<noteq> Some KWindow"
    using 1 d(2) by (auto simp: tray_open_def)
  moreover have "(shell_icons t1)(icon_key d := None) = Map.empty"
    using calculation(4) by (auto simp: fun_eq_iff)
  ultimately show ?thesis
    using d(1,3,4) 1
    by (auto simp: DestroyWindow_def wm_destroy_def wm_endsession_def nid_delete_def wcex_unregister_def destroy_object_def api_call_def
        tray_closed_def tray_open_def split: option.splits)
qed

lemma window_wm [simp]:
  "window (snd (wm_create h t)) = window t" "window (snd (wm_endsession t)) = window t" "window (snd (wm_destroy t)) = window t"
  "window (snd (showMenu t)) = window t" "window (snd (nid_add n t)) = window t"
  by (auto simp: wm_create_def wm_endsession_def wm_destroy_def showMenu_def nid_add_def nid_delete_def api_call_def split: option.split)

lemma wndProc_open:
  assumes "tray_open t" "fst m \<noteq> 0x0010"
  shows "tray_open (snd (snd (wndProc defproc h m t)))" "window (snd (snd (wndProc defproc h m t))) = window t"
  using tray_open_wm [OF assms(1)] assms by (cases m; simp add: wndProc_def case_prod_beta)+

lemma DispatchMessage_open:
  assumes "tray_open t" "DispatchMessage defproc (h, m) t = (cs, t')"
  shows "tray_open t' \<and> window t' = window t \<and> \<not> (h = window t \<and> fst m = 0x0010) \<or> tray_closed t' \<and> SystrayExit \<in> set cs"
proof (cases "h = window t \<and> fst m = 0x0010")
  case True
  with assms have "(cs, t') = wm_close h t"
    by (cases m) (auto simp: DispatchMessage_def tray_open_def wndProc_def case_prod_beta)
  with wm_close_closes [OF assms(1), of h] show ?thesis by (metis fst_conv snd_conv)
next
  case False
  show ?thesis
  proof (cases "objects t h = Some KWindow")
    case True
    with assms(1) False have "fst m \<noteq> 0x0010" by (auto simp: tray_open_def)
    from wndProc_open [OF assms(1) this, of defproc h] True False assms(2) show ?thesis
      by (auto simp: DispatchMessage_def case_prod_beta)
  qed (use False assms in \<open>auto simp: DispatchMessage_def\<close>)
qed

lemma loop_closed: "tray_closed t \<Longrightarrow> \<exists>t'. nativeLoop defproc ms t = (LoopReturned, [], t') \<and> tray_closed t'"
proof (induction ms arbitrary: t)
  case Nil
  then show ?case by (auto simp: tray_closed_call tray_closed_def)
next
  case (Cons m ms)
  let ?t = "t\<lparr>calls := calls t + 1\<rparr>"
  have "DispatchMessage defproc m ?t = ([], ?t)"
    using Cons.prems by (cases m) (simp add: DispatchMessage_def tray_closed_def)
  with Cons.IH [OF tray_closed_call(2) [OF Cons.prems]] show ?case
    by (auto simp: tray_closed_call(1) [OF Cons.prems])
qed

lemma loop_closes:
  assumes "tray_open t" "(window t, 0x0010, w, l) \<in> set ms"
  shows "\<exists>cs t'. nativeLoop defproc ms t = (LoopReturned, cs, t') \<and> SystrayExit \<in> set cs \<and> tray_closed t'"
  using assms
proof (induction ms arbitrary: t)
  case (Cons m ms)
  let ?t = "t\<lparr>calls := calls t + 1\<rparr>"
  note open1 = tray_open_call [OF Cons.prems(1)]
  obtain h n where m: "m = (h, n)" by (cases m)
  obtain cs t1 where d: "DispatchMessage defproc (h, n) ?t = (cs, t1)" by force
  have "\<exists>cs' t2. nativeLoop defproc ms t1 = (LoopReturned, cs', t2) \<and> SystrayExit \<in> set (cs @ cs') \<and> tray_closed t2"
    using DispatchMessage_open [OF open1(2) d]
  proof (elim disjE conjE)
    assume "tray_open t1" "window t1 = window ?t" "\<not> (h = window ?t \<and> fst n = 0x0010)"
    with Cons.prems(2) m have "(window t1, 0x0010, w, l) \<in> set ms" by auto
    from Cons.IH [OF \<open>tray_open t1\<close> this] show ?thesis by auto
  next
    assume "tray_closed t1" "SystrayExit \<in> set cs"
    with loop_closed [of t1 defproc ms] show ?thesis by auto
  qed
  then show ?case using d by (auto simp: m open1(1))
qed simp

text \<open>A tray registered without a failure is open.\<close>

lemma registered_open:
  assumes "\<And>n. f n = None"
  shows "tray_open (snd (registerSystray (new_tray f)))"
proof -
  obtain p where p: "UTF16FromString className = Inr p" by (simp add: UTF16FromString_def className_def)
  have "UTF16FromString windowName = Inr [0]" by (simp add: UTF16FromString_def windowName_def encodeWTF16.simps)
  with p assms show ?thesis
    by (auto simp: registerSystray_def initInstance_def init_window_def init_class_def init_icon_def init_maps_def or_fail_def create_object_def
        new_object_def wcex_register_def CreateWindowEx_def wm_create_def nid_add_def createMenu_def CreateMenu_def api_call_def new_tray_def
        tray_open_def Let_def)
qed

text \<open>
  The application ends when it is asked to: if no call of the operating system fails, \<^verbatim>\<open>Run\<close> on
  any messages among which is the closing message \<^verbatim>\<open>Quit\<close> posts to the window returns, after it
  called the exit callback if there is one; then the window is gone, the notification area shows
  no icon and the window class is unregistered.
\<close>

theorem run_returns_after_close:
  assumes "\<forall>n. f n = None" and "(window (snd (registerSystray (new_tray f))), 0x0010, 0, 0) \<in> set ms"
  shows "\<exists>cs t'. Run hs defproc ms (new_tray f) = (LoopReturned, cs, t') \<and> (has_exit hs \<longrightarrow> SystrayExit \<in> set cs) \<and>
     (\<forall>h. objects t' h \<noteq> Some KWindow) \<and> shell_icons t' = Map.empty \<and> classes t' = []"
proof -
  have "tray_open (snd (registerSystray (new_tray f)))" by (rule registered_open) (use assms(1) in simp)
  from loop_closes [OF this assms(2), of defproc] show ?thesis
    by (auto simp: Run_def Register_def tray_closed_def case_prod_beta)
qed

text \<open>The message of \<^verbatim>\<open>Quit\<close>, behind a click that pops up the menu and a session message.\<close>

theorem run_returns_after_close_witness:
  "\<exists>cs t'. Run \<lparr>has_ready = True, has_exit = True, has_session = True\<rparr> (\<lambda>h m. 0)
      ([(4, 0x0401, 0, 0x0205), (4, 0x02B1, 7, 0)] @ posted (tray (systray_Quit (started_tray (\<lambda>n. None))))) (new_tray (\<lambda>n. None)) =
      (LoopReturned, cs, t') \<and> SystrayExit \<in> set cs \<and> classes t' = []"
proof -
  have p: "posted (tray (systray_Quit (started_tray (\<lambda>n. None)))) = [(4, 0x0010, 0, 0)]"
    and w: "window (snd (registerSystray (new_tray (\<lambda>n. None)))) = 4" by code_simp+
  show ?thesis
    using run_returns_after_close [of "\<lambda>n. None" "[(4, 0x0401, 0, 0x0205), (4, 0x02B1, 7, 0)] @ [(4, 0x0010, 0, 0)]"
        "\<lparr>has_ready = True, has_exit = True, has_session = True\<rparr>" "\<lambda>h m. 0"]
    unfolding p by (auto simp: w simp del: nativeLoop.simps)
qed

section \<open>Tooltips and icon files\<close>

lemma NIF_TIP_set: "(a OR NIF_TIP) AND NIF_TIP \<noteq> 0"
proof -
  have "bit ((a OR NIF_TIP) AND NIF_TIP) 2" by (simp add: NIF_TIP_def bit_simps)
  then show ?thesis by auto
qed

lemma set_nid_shown:
  assumes "set_nid (\<lambda>d. d\<lparr>nid_Tip := go_copy (nid_Tip d) b, nid_Flags := nid_Flags d OR NIF_TIP\<rparr>) t = Some (None, t')"
    "nid t = Some d" "nid_typed t d"
  shows "\<exists>shown. shell_icons t' (icon_key d) = Some shown \<and> nid_Tip shown = go_copy (nid_Tip d) b"
  using assms NIF_TIP_set [of "nid_Flags d"]
  by (auto simp: set_nid_def nid_modify_def merge_icon_def api_call_def Let_def split: option.splits)

text \<open>
  The tooltip: when \<^verbatim>\<open>setTooltip\<close> succeeds with a text of at most 127 UTF-16 units, the text
  Windows reads from the icon it shows is that text; with a longer one the array holds the first
  128 units and no terminating NUL.
\<close>

theorem tooltip_shown:
  assumes "tray_typed t" and "nid t = Some d" and "\<forall>r \<in> set rs. valid_rune r \<and> r \<noteq> 0"
    and "setTooltip (text_of_runes rs) t = Some (None, t')"
  shows "\<exists>shown. shell_icons t' (icon_key d) = Some shown \<and>
     (let n = length (concat (map utf16_EncodeRune rs))
      in if n < 128 then UTF16ToString (nid_Tip shown) = text_of_runes rs
         else nid_Tip shown = take 128 (concat (map utf16_EncodeRune rs)) \<and> 0 \<notin> set (nid_Tip shown))"
proof -
  let ?u = "concat (map utf16_EncodeRune rs)"
  note enc = UTF16FromString_runes [OF assms(3)] and dt = typed_nid(1) [OF assms(1,2)]
  then have len: "length (nid_Tip d) = 128" by (simp add: nid_typed_def)
  from assms(4) enc have "set_nid (\<lambda>d. d\<lparr>nid_Tip := go_copy (nid_Tip d) (?u @ [0]), nid_Flags := nid_Flags d OR NIF_TIP\<rparr>) t = Some (None, t')"
    by (simp add: setTooltip_def)
  from set_nid_shown [OF this assms(2) dt] obtain shown where
    s: "shell_icons t' (icon_key d) = Some shown" "nid_Tip shown = go_copy (nid_Tip d) (?u @ [0])" by blast
  have short: "UTF16ToString (nid_Tip shown) = text_of_runes rs" if "length ?u < 128"
    using UTF16ToString_FromString [OF assms(3) enc, of "drop (length ?u + 1) (nid_Tip d)"] that len s(2)
    by (simp add: go_copy_def)
  have "0 \<notin> set ?u" using assms(3) utf16_no_NUL by auto
  then have long: "nid_Tip shown = take 128 ?u \<and> 0 \<notin> set (nid_Tip shown)" if "\<not> length ?u < 128"
    using that len s(2) by (auto simp: go_copy_def dest: in_set_takeD)
  from s(1) short long show ?thesis by (auto simp: Let_def)
qed

theorem tooltip_shown_witness:
  "\<exists>t' shown. setTooltip ''gclpr'' (tray (started_tray (\<lambda>n. None))) = Some (None, t') \<and> shell_icons t' (4, 100) = Some shown \<and>
     UTF16ToString (nid_Tip shown) = ''gclpr''"
proof -
  let ?t = "tray (started_tray (\<lambda>n. None))" and ?rs = "[103, 99, 108, 112, 114]"
  have ty: "tray_typed ?t" by (simp add: started_tray_def registerSystray_typed new_tray_typed)
  have shown_text: "text_of_runes ?rs = ''gclpr''" by code_simp
  have "map_option icon_key (nid ?t) = Some (4, 100)" by code_simp
  then obtain d where d: "nid ?t = Some d" "icon_key d = (4, 100)" by auto
  have "map_option fst (setTooltip ''gclpr'' ?t) = Some None" by code_simp
  then obtain t' where t': "setTooltip ''gclpr'' ?t = Some (None, t')" by auto
  have "length (concat (map utf16_EncodeRune ?rs)) < 128" by (simp add: utf16_EncodeRune_def)
  with tooltip_shown [OF ty d(1), of ?rs t'] t' d(2) shown_text show ?thesis by (auto simp: Let_def)
qed

text \<open>
  The icon file: a write that fails leaves a cut file behind, and since the next call only looks
  whether the file exists, it takes that file for the icon.
\<close>

lemma iconBytesToFilePath_retry:
  assumes "iconBytesToFilePath TempDir iconBytes fs = (Inl err, fs')" "node_at fs' p \<noteq> None"
    and "p = win_Join TempDir (''systray_temp_icon_'' @ hex_EncodeToString (md5_Sum iconBytes))"
  shows "iconBytesToFilePath TempDir iconBytes fs' = (Inr p, fs')"
  using assms by (auto simp: iconBytesToFilePath_def os_Stat_def Let_def split: option.splits)

end
