(* ===== verification/Log.thy ===== *)
theory Log
  imports GoStrings GoUtf16
begin

text \<open>
  Logging and message boxes: \<^verbatim>\<open>util/log_windows.go\<close>, \<^verbatim>\<open>util/log_unix.go\<close> and \<^verbatim>\<open>util/mbox_windows.go\<close> over
  package \<^verbatim>\<open>log\<close>, \<^verbatim>\<open>OutputDebugString\<close> and \<^verbatim>\<open>MessageBox\<close>.
\<close>

section \<open>The logger\<close>

datatype log_output = LogStderr | LogDiscard | LogDebug

text \<open>
  The standard logger and what came out of it and of the message boxes. Windows gets its texts as
  UTF-16 with a NUL at the end.
\<close>

record console =
  log_prefix :: gostring
  log_flags :: int
  log_out :: log_output
  stderr_text :: gostring
  debug_strings :: "u16 list list"
  boxes :: "(u32 \<times> u16 list \<times> u16 list) list"

definition new_console :: console where
  "new_console = \<lparr>log_prefix = [], log_flags = 3, log_out = LogStderr, stderr_text = [], debug_strings = [], boxes = []\<rparr>"

text \<open>\<^verbatim>\<open>logWriter.Write\<close>: the number of bytes and the error.\<close>

definition logWriter_Write :: "gostring \<Rightarrow> console \<Rightarrow> nat \<times> goerr option \<times> console" where
  "logWriter_Write p c =
     (case UTF16FromString p of
        Inl err \<Rightarrow> (0, Some err, c)
      | Inr t \<Rightarrow> (length p, None, c\<lparr>debug_strings := debug_strings c @ [t]\<rparr>))"

text \<open>
  \<^verbatim>\<open>log.Print\<close>: the prefix, the time the flags ask for (\<open>stamp\<close>), the text, and a line end when it has
  none; what the writer returns is ignored.
\<close>

definition log_line :: "(int \<Rightarrow> gostring) \<Rightarrow> gostring \<Rightarrow> console \<Rightarrow> gostring" where
  "log_line stamp s c = log_prefix c @ stamp (log_flags c) @ s @ (if s = [] \<or> last s \<noteq> CHR 0x0A then [CHR 0x0A] else [])"

definition log_Print :: "(int \<Rightarrow> gostring) \<Rightarrow> gostring \<Rightarrow> console \<Rightarrow> console" where
  "log_Print stamp s c =
     (case log_out c of
        LogDiscard \<Rightarrow> c
      | LogStderr \<Rightarrow> c\<lparr>stderr_text := stderr_text c @ log_line stamp s c\<rparr>
      | LogDebug \<Rightarrow> snd (snd (logWriter_Write (log_line stamp s c) c)))"

definition NewLogWriter :: "gostring \<Rightarrow> int \<Rightarrow> bool \<Rightarrow> console \<Rightarrow> console" where
  "NewLogWriter title flags debug c =
     c\<lparr>log_prefix := ''['' @ title @ ''] '', log_flags := flags, log_out := (if debug then LogDebug else LogDiscard)\<rparr>"

definition unix_NewLogWriter :: "gostring \<Rightarrow> int \<Rightarrow> bool \<Rightarrow> console \<Rightarrow> console" where
  "unix_NewLogWriter title flags debug c =
     (let c' = c\<lparr>log_prefix := ''['' @ title @ ''] '', log_flags := flags\<rparr>
      in if \<not> debug then c'\<lparr>log_out := LogDiscard\<rparr> else c')"

section \<open>Message boxes\<close>

definition MsgError :: u32 where "MsgError = 0x10"
definition MsgExclamation :: u32 where "MsgExclamation = 0x30"
definition MsgInformation :: u32 where "MsgInformation = 0x40"

definition ShowOKMessage :: "(int \<Rightarrow> gostring) \<Rightarrow> u32 \<Rightarrow> gostring \<Rightarrow> gostring \<Rightarrow> console \<Rightarrow> console" where
  "ShowOKMessage stamp t title txt c =
     (let c1 = log_Print stamp txt c
      in case UTF16FromString txt of
           Inl err \<Rightarrow> c1
         | Inr pText \<Rightarrow>
             (case UTF16FromString title of
                Inl err \<Rightarrow> c1
              | Inr pTitle \<Rightarrow> c1\<lparr>boxes := boxes c1 @ [(t, pText, pTitle)]\<rparr>))"

section \<open>Properties\<close>

lemma log_Print_boxes [simp]: "boxes (log_Print stamp s c) = boxes c"
  by (auto simp: log_Print_def logWriter_Write_def split: log_output.split sum.split)

text \<open>Without debugging nothing is written, whatever is logged.\<close>

lemma log_discarded:
  assumes "\<not> debug"
  shows "fold (log_Print stamp) msgs (NewLogWriter title flags debug c) = NewLogWriter title flags debug c"
    and "fold (log_Print stamp) msgs (unix_NewLogWriter title flags debug c) = unix_NewLogWriter title flags debug c"
  using assms by (induction msgs) (simp_all add: log_Print_def NewLogWriter_def unix_NewLogWriter_def Let_def)

text \<open>
  Message boxes: what Windows reads from the box \<^verbatim>\<open>ShowOKMessage\<close> shows is the title and the text
  it was given; but a text with a NUL byte is shown nowhere, only logged, and when debugging is on
  the log loses it too.
\<close>

theorem ShowOKMessage_shows:
  assumes "\<forall>r \<in> set title \<union> set txt. valid_rune r \<and> r \<noteq> 0"
  shows "(\<exists>pText pTitle. boxes (ShowOKMessage stamp t (text_of_runes title) (text_of_runes txt) c) = boxes c @ [(t, pText, pTitle)] \<and>
      UTF16ToString pText = text_of_runes txt \<and> UTF16ToString pTitle = text_of_runes title) \<and>
    (CHR 0x00 \<in> set bad \<longrightarrow> boxes (ShowOKMessage stamp t (text_of_runes title) bad c) = boxes c \<and>
      (log_out c = LogDebug \<longrightarrow> ShowOKMessage stamp t (text_of_runes title) bad c = c))"
proof -
  have enc: "UTF16FromString (text_of_runes rs) = Inr (concat (map utf16_EncodeRune rs) @ [0])"
    "UTF16ToString (concat (map utf16_EncodeRune rs) @ [0]) = text_of_runes rs"
    if "set rs \<subseteq> set title \<union> set txt" for rs
  proof -
    have ok: "\<forall>r \<in> set rs. valid_rune r \<and> r \<noteq> 0" using assms that by blast
    show e: "UTF16FromString (text_of_runes rs) = Inr (concat (map utf16_EncodeRune rs) @ [0])" by (rule UTF16FromString_runes [OF ok])
    show "UTF16ToString (concat (map utf16_EncodeRune rs) @ [0]) = text_of_runes rs"
      using UTF16ToString_FromString [OF ok e, of "[]"] by simp
  qed
  have "UTF16FromString bad = Inl EINVAL" "UTF16FromString (log_line stamp bad c) = Inl EINVAL" if "CHR 0x00 \<in> set bad"
    using that by (simp_all add: UTF16FromString_def log_line_def)
  then show ?thesis
    by (auto simp: ShowOKMessage_def enc Let_def log_Print_def [of _ bad] logWriter_Write_def split: log_output.split)
qed

theorem ShowOKMessage_shows_witness:
  "\<exists>pText pTitle. boxes (ShowOKMessage (\<lambda>n. []) MsgError ''gclpr'' ''no keys'' new_console) = [(MsgError, pText, pTitle)] \<and>
     UTF16ToString pText = ''no keys'' \<and> UTF16ToString pTitle = ''gclpr'' \<and>
     boxes (ShowOKMessage (\<lambda>n. []) MsgError ''gclpr'' [CHR 0x00] new_console) = []"
proof -
  have "text_of_runes [103, 99, 108, 112, 114] = ''gclpr''" "text_of_runes [110, 111, 32, 107, 101, 121, 115] = ''no keys''" by code_simp+
  with ShowOKMessage_shows [of "[103, 99, 108, 112, 114]" "[110, 111, 32, 107, 101, 121, 115]" "\<lambda>n. []" MsgError new_console "[CHR 0x00]"]
  show ?thesis by (auto simp: new_console_def)
qed

end
