(* ===== verification/Usage.thy ===== *)
theory Usage
  imports CommandLine "HOL-Library.List_Lexorder" "HOL-Library.Char_ord"
begin

text \<open>
  The help texts: the registered flags with their descriptions, \<^verbatim>\<open>VisitAll\<close>, \<^verbatim>\<open>UnquoteUsage\<close> and
  \<^verbatim>\<open>PrintDefaults\<close> of package \<^verbatim>\<open>flag\<close>, and the text \<^verbatim>\<open>main\<close> of \<^verbatim>\<open>cmd/cli/main_cli.go\<close> prints. The version,
  the version of Go and the commit are given by the build.
\<close>

section \<open>Registered flags\<close>

datatype flag_kind = FBool | FInt | FString | FDuration

record flag_entry =
  fl_name :: gostring
  fl_usage :: gostring
  fl_default :: gostring
  fl_kind :: flag_kind

definition BoolVar :: "gostring \<Rightarrow> bool \<Rightarrow> gostring \<Rightarrow> flag_entry" where
  "BoolVar nm v usage = \<lparr>fl_name = nm, fl_usage = usage, fl_default = (if v then ''true'' else ''false''), fl_kind = FBool\<rparr>"
definition IntVar :: "gostring \<Rightarrow> int \<Rightarrow> gostring \<Rightarrow> flag_entry" where
  "IntVar nm v usage = \<lparr>fl_name = nm, fl_usage = usage, fl_default = Itoa v, fl_kind = FInt\<rparr>"
definition StringVar :: "gostring \<Rightarrow> gostring \<Rightarrow> gostring \<Rightarrow> flag_entry" where
  "StringVar nm v usage = \<lparr>fl_name = nm, fl_usage = usage, fl_default = v, fl_kind = FString\<rparr>"
definition DurationVar :: "gostring \<Rightarrow> int \<Rightarrow> gostring \<Rightarrow> flag_entry" where
  "DurationVar nm v usage = \<lparr>fl_name = nm, fl_usage = usage, fl_default = Duration_String v, fl_kind = FDuration\<rparr>"

text \<open>\<^verbatim>\<open>VisitAll\<close> goes through the flags in the order of their names.\<close>

definition VisitAll :: "flag_entry list \<Rightarrow> flag_entry list" where
  "VisitAll fs = sort_key fl_name fs"

text \<open>A name in back quotes in the description, or one from the type of the flag.\<close>

definition UnquoteUsage :: "flag_entry \<Rightarrow> gostring \<times> gostring" where
  "UnquoteUsage f =
     (case Cut CHR 0x60 (fl_usage f) of
        (before, rest, quoted) \<Rightarrow>
          (case Cut CHR 0x60 rest of
             (nm, after, closed) \<Rightarrow>
               if quoted \<and> closed then (nm, before @ nm @ after)
               else ((case fl_kind f of FBool \<Rightarrow> [] | FInt \<Rightarrow> ''int'' | FString \<Rightarrow> ''string'' | FDuration \<Rightarrow> ''duration''), fl_usage f)))"

definition isZeroValue :: "flag_entry \<Rightarrow> bool" where
  "isZeroValue f =
     (fl_default f = (case fl_kind f of FBool \<Rightarrow> ''false'' | FInt \<Rightarrow> ''0'' | FString \<Rightarrow> [] | FDuration \<Rightarrow> ''0s''))"

definition print_default :: "flag_entry \<Rightarrow> gostring" where
  "print_default f =
     (case UnquoteUsage f of
        (nm, usage) \<Rightarrow>
          (let b = ''  -'' @ fl_name f @ (if nm = [] then [] else '' '' @ nm)
           in b @ (if length b \<le> 4 then [CHR 0x09] else [CHR 0x0A] @ ''    '' @ [CHR 0x09]) @
              ReplaceAll usage [CHR 0x0A] ([CHR 0x0A] @ ''    '' @ [CHR 0x09]) @
              (if isZeroValue f then []
               else '' (default '' @ (if fl_kind f = FString then Quote (fl_default f) else fl_default f) @ '')'') @
              [CHR 0x0A]))"

definition PrintDefaults :: "flag_entry list \<Rightarrow> gostring" where
  "PrintDefaults fs = concat (map print_default (VisitAll fs))"

section \<open>The command line client\<close>

definition cli_flags :: "flag_entry list" where
  "cli_flags =
     [BoolVar ''help'' False ''Show help'',
      IntVar ''port'' DefaultPort ''TCP port number'',
      StringVar ''line-ending'' [] ''Convert Line Endings (LF/CRLF)'',
      DurationVar ''connect-timeout'' DefaultConnectTimeout ''TCP connection timeout'',
      DurationVar ''timeout'' (60 * 10 ^ 9) ''Read/write I/O timeout'',
      BoolVar ''tunnel'' False ''Tunnel loopback http(s) targets for open'',
      BoolVar ''oauth'' False ''Tunnel OAuth redirect_uri callback listener for open'',
      StringVar ''worker-status-addr'' [] ''Internal: oauth worker status address'',
      BoolVar ''debug'' False ''Print debugging information'']"

text \<open>The flags it shows, and one of them.\<close>

definition usage_flags :: "flag_entry list" where
  "usage_flags = filter (\<lambda>f. \<not> HasPrefix (fl_name f) ''worker-'') (VisitAll cli_flags)"

definition usage_entry :: "flag_entry \<Rightarrow> gostring" where
  "usage_entry f =
     (case UnquoteUsage f of
        (nm, usage) \<Rightarrow>
          if nm \<noteq> []
          then ''  -'' @ fl_name f @ '' '' @ nm @ [CHR 0x0A, CHR 0x09] @ usage @ '' (default '' @ Quote (fl_default f) @ '')'' @ [CHR 0x0A]
          else ''  -'' @ fl_name f @ [CHR 0x0A, CHR 0x09] @ fl_usage f @ '' (default '' @ Quote (fl_default f) @ '')'' @ [CHR 0x0A])"

definition usage_commands :: gostring where
  "usage_commands =
     ''    copy '' @ [CHR 0x27] @ ''text'' @ [CHR 0x27] @ ''  - (client) '' @ command_String cmdCopy @ [CHR 0x0A] @
     ''    paste        - (client) '' @ command_String cmdPaste @ [CHR 0x0A] @
     ''    open '' @ [CHR 0x27] @ ''url'' @ [CHR 0x27] @ ''   - (client) '' @ command_String cmdOpen @ [CHR 0x0A] @
     ''    genkey       - (client) '' @ command_String cmdGenKey @ [CHR 0x0A] @
     ''    server       - '' @ command_String cmdServer @ [CHR 0x0A]"

definition cli_Usage :: "gostring \<Rightarrow> gostring \<Rightarrow> gostring \<Rightarrow> gostring" where
  "cli_Usage Version goVersion GitHash =
     [CHR 0x0A] @ ''gclpr - copy, paste text and open browser over localhost TCP interface'' @ [CHR 0x0A, CHR 0x0A] @
     ''Version:'' @ [CHR 0x0A] @ ''    '' @ Version @ '' ('' @ goVersion @ '') '' @ GitHash @ [CHR 0x0A] @
     [CHR 0x0A] @ ''Usage:'' @ [CHR 0x0A] @ ''    gclpr [options]... COMMAND [arg]'' @ [CHR 0x0A, CHR 0x0A] @
     ''Commands:'' @ [CHR 0x0A, CHR 0x0A] @ usage_commands @ [CHR 0x0A] @ ''Options:'' @ [CHR 0x0A, CHR 0x0A] @
     concat (map usage_entry usage_flags)"

section \<open>Properties\<close>

lemma set_VisitAll [simp]: "set (VisitAll fs) = set fs"
  by (simp add: VisitAll_def)

lemma VisitAll_sorted: "sorted (map fl_name (VisitAll fs))"
  by (simp add: VisitAll_def)

lemma cli_flag_names: "map fl_name cli_flags =
    [''help'', ''port'', ''line-ending'', ''connect-timeout'', ''timeout'', ''tunnel'', ''oauth'', ''worker-status-addr'', ''debug'']"
  by (simp add: cli_flags_def BoolVar_def IntVar_def StringVar_def DurationVar_def)

lemma known_flag: "(if P then Some a else if Q then Some b else None) \<noteq> None \<longleftrightarrow> P \<or> Q"
  by simp

lemma cli_flag_registered: "cli_flag nm \<noteq> None \<longleftrightarrow> nm \<in> fl_name ` set cli_flags"
  unfolding set_map [symmetric] cli_flag_names cli_flag_def known_flag list.set insert_iff empty_iff by argo

text \<open>The text of a default value is read back as the value.\<close>

lemma ParseBool_false: "ParseBool ''false'' = Inr False"
  by (simp add: ParseBool_def)

lemma cli_defaults:
  assumes "f \<in> set cli_flags"
  shows "cli_set (fl_name f) (fl_default f) default_options = Inr default_options"
  using assms unfolding cli_flags_def list.set insert_iff empty_iff
  by (elim disjE) (simp_all add: BoolVar_def IntVar_def StringVar_def DurationVar_def cli_set_def ParseBool_false ParseInt0_Itoa ParseDuration_String
      default_options_def DefaultPort_def DefaultConnectTimeout_def)

text \<open>
  The help of the client is true: it shows exactly the options the command line parser
  accepts, except those of the worker, in the order of their names, and the default value it shows
  for an option is one the parser reads back as the value the program uses when the option is not
  given.
\<close>

theorem usage_matches_parser:
  "fl_name ` set usage_flags = {nm. cli_flag nm \<noteq> None \<and> \<not> HasPrefix nm ''worker-''} \<and>
   sorted (map fl_name usage_flags) \<and>
   (\<forall>f \<in> set usage_flags. cli_set (fl_name f) (fl_default f) default_options = Inr default_options)"
proof (intro conjI ballI)
  show "fl_name ` set usage_flags = {nm. cli_flag nm \<noteq> None \<and> \<not> HasPrefix nm ''worker-''}"
    unfolding cli_flag_registered usage_flags_def by auto
  show "sorted (map fl_name usage_flags)"
    unfolding usage_flags_def using VisitAll_sorted by (rule sorted_filter)
  show "cli_set (fl_name f) (fl_default f) default_options = Inr default_options" if "f \<in> set usage_flags" for f
    by (rule cli_defaults) (use that in \<open>simp add: usage_flags_def\<close>)
qed

theorem usage_matches_parser_witness: "cli_set ''port'' ''2850'' default_options = Inr default_options"
proof -
  let ?f = "IntVar ''port'' DefaultPort ''TCP port number''"
  have "?f \<in> set usage_flags" by (simp add: usage_flags_def cli_flags_def IntVar_def HasPrefix_def)
  then have "cli_set (fl_name ?f) (fl_default ?f) default_options = Inr default_options"
    using usage_matches_parser by blast
  moreover have "Itoa DefaultPort = ''2850''" by (simp add: Itoa_def DefaultPort_def digit_char_def nat_itoa.simps) code_simp
  ultimately show ?thesis by (simp add: IntVar_def)
qed

end
