(* ===== verification/Gui.thy ===== *)
theory Gui
  imports Usage TrayWindow Log
begin

text \<open>
  The Windows tray application, \<^verbatim>\<open>cmd/gui/main_gui.go\<close> and \<^verbatim>\<open>cmd/gui/session_windows.go\<close>: how it starts,
  how it follows the locking of the user's session, that a locked session serves nothing, and what
  the order in which the tray becomes ready means for its menu.
\<close>

section \<open>Sessions\<close>

text \<open>The events of \<^verbatim>\<open>systray.go\<close>, the parameter of \<^verbatim>\<open>WM_WTSSESSION_CHANGE\<close>.\<close>

definition SesConsoleConnect :: u32 where "SesConsoleConnect = 0x1"
definition SesConsoleDisconnect :: u32 where "SesConsoleDisconnect = 0x2"
definition SesRemoteConnect :: u32 where "SesRemoteConnect = 0x3"
definition SesRemoteDisconnect :: u32 where "SesRemoteDisconnect = 0x4"
definition SesLogon :: u32 where "SesLogon = 0x5"
definition SesLogoff :: u32 where "SesLogoff = 0x6"
definition SesLock :: u32 where "SesLock = 7"
definition SesUnlock :: u32 where "SesUnlock = 8"
definition SesRemoteControl :: u32 where "SesRemoteControl = 0x9"

definition SessionEvent_String :: "u32 \<Rightarrow> gostring" where
  "SessionEvent_String e =
     (if e = SesConsoleConnect then ''WTS_CONSOLE_CONNECT (0x1)'' else if e = SesConsoleDisconnect then ''WTS_CONSOLE_DISCONNECT (0x2)''
      else if e = SesRemoteConnect then ''WTS_REMOTE_CONNECT (0x3)'' else if e = SesRemoteDisconnect then ''WTS_REMOTE_DISCONNECT (0x4)''
      else if e = SesLogon then ''WTS_SESSION_LOGON (0x5)'' else if e = SesLogoff then ''WTS_SESSION_LOGOFF (0x6)''
      else if e = SesLock then ''WTS_SESSION_LOCK (0x7)'' else if e = SesUnlock then ''WTS_SESSION_UNLOCK (0x8)''
      else if e = SesRemoteControl then ''WTS_SESSION_REMOTE_CONTROL (0x9)'' else ''UNKNOWN'')"

definition onSession :: "u32 \<Rightarrow> int \<Rightarrow> int" where
  "onSession e lock = (if e = SesLock then 1 else if e = SesUnlock then 0 else lock)"

text \<open>
  The desktop that has the input: \<open>hdesk\<close> is what opening it returned, \<open>size_query\<close> what the query for
  the size of its name returned (whether it succeeded, the size in bytes, the error), \<open>name_query\<close> the
  units the second query wrote into a buffer of the given length, \<open>lasterr\<close> what \<^verbatim>\<open>GetLastError\<close> says.
\<close>

definition call_error :: "goerr \<Rightarrow> goerr \<Rightarrow> goerr" where
  "call_error lasterr err = (if err = ERROR_SUCCESS then lasterr else err)"

definition currentSessionLocked ::
    "goerr \<Rightarrow> nat res \<Rightarrow> bool \<times> nat \<times> goerr \<Rightarrow> (nat \<Rightarrow> u16 list res) \<Rightarrow> bool res" where
  "currentSessionLocked lasterr hdesk size_query name_query =
     (case hdesk of
        Inl err \<Rightarrow> Inl (Wrapf ''unable to open input desktop: '' (call_error lasterr err))
      | Inr _ \<Rightarrow>
          (case size_query of
             (ret, needed, err) \<Rightarrow>
               if \<not> ret \<and> needed = 0 then Inl (Wrapf ''unable to query input desktop name size: '' (call_error lasterr err))
               else (case name_query (needed div 2 + 1) of
                       Inl err \<Rightarrow> Inl (Wrapf ''unable to query input desktop name: '' (call_error lasterr err))
                     | Inr buf \<Rightarrow>
                         (let nm = rev (dropWhile (\<lambda>c. c = CHR 0x00) (rev (UTF16ToString buf)))
                          in if ToLower nm = ''default'' then Inr False
                             else if ToLower nm = ''winlogon'' then Inr True
                             else Inl (Errorf (''unexpected input desktop '' @ Quote nm))))))"

section \<open>Starting\<close>

record gui_options =
  gPort :: int
  gLE :: gostring
  gHelp :: bool
  gUnlocked :: bool
  gDebug :: bool
  gIOTimeout :: int

definition gui_defaults :: gui_options where
  "gui_defaults = \<lparr>gPort = DefaultPort, gLE = [], gHelp = False, gUnlocked = False, gDebug = False, gIOTimeout = DefaultIOTimeout\<rparr>"

definition gui_flag :: "gostring \<Rightarrow> bool option" where
  "gui_flag nm =
     (if nm \<in> {''h'', ''help'', ''ignore-session-lock'', ''debug''} then Some True
      else if nm \<in> {''port'', ''line-ending'', ''timeout''} then Some False else None)"

definition gui_set :: "gostring \<Rightarrow> gostring \<Rightarrow> gui_options \<Rightarrow> gui_options res" where
  "gui_set nm v st =
     (if nm = ''h'' \<or> nm = ''help'' then map_sum id (\<lambda>b. st\<lparr>gHelp := b\<rparr>) (ParseBool v)
      else if nm = ''port'' then map_sum id (\<lambda>n. st\<lparr>gPort := n\<rparr>) (ParseInt0 v)
      else if nm = ''line-ending'' then Inr (st\<lparr>gLE := v\<rparr>)
      else if nm = ''timeout'' then map_sum id (\<lambda>d. st\<lparr>gIOTimeout := d\<rparr>) (ParseDuration v)
      else if nm = ''ignore-session-lock'' then map_sum id (\<lambda>b. st\<lparr>gUnlocked := b\<rparr>) (ParseBool v)
      else map_sum id (\<lambda>b. st\<lparr>gDebug := b\<rparr>) (ParseBool v))"

text \<open>The help text; its first parts and the defaults of the flags.\<close>

definition gui_title :: gostring where "gui_title = ''gclpr-gui''"
definition gui_tooltip :: gostring where "gui_tooltip = ''Notification tray wrapper for gclpr''"

definition gui_flags :: "flag_entry list" where
  "gui_flags =
     [BoolVar ''h'' False ''Show help'', BoolVar ''help'' False ''Show help'',
      IntVar ''port'' DefaultPort ''TCP port number'',
      StringVar ''line-ending'' [] ''Convert Line Endings (LF/CRLF)'',
      DurationVar ''timeout'' DefaultIOTimeout ''Read/write I/O timeout'',
      BoolVar ''ignore-session-lock'' False ''Continue to access clipboard inside locked session'',
      BoolVar ''debug'' False ''Print debugging information'']"

definition buildUsageString :: "gostring \<Rightarrow> gostring \<Rightarrow> gostring \<Rightarrow> gostring" where
  "buildUsageString Version goVersion GitHash =
     [CHR 0x0A] @ gui_tooltip @ [CHR 0x0A, CHR 0x0A] @ ''Version:'' @ [CHR 0x0A] @
     ''    '' @ Version @ '' ('' @ goVersion @ '') '' @ GitHash @ [CHR 0x0A] @
     [CHR 0x0A] @ ''Usage:'' @ [CHR 0x0A] @ ''    '' @ gui_title @ '' [options]...'' @ [CHR 0x0A, CHR 0x0A] @
     ''Options:'' @ [CHR 0x0A, CHR 0x0A] @ PrintDefaults gui_flags"

text \<open>\<^verbatim>\<open>clipStart\<close> up to the goroutine: the keys the server is started with.\<close>

definition clipStart ::
    "(os_state \<Rightarrow> gostring \<Rightarrow> bool \<Rightarrow> goerr option) \<Rightarrow> gostring res \<Rightarrow> os_state \<Rightarrow> (bytes \<rightharpoonup> bytes) res" where
  "clipStart check homeDir s =
     (case homeDir of
        Inl err \<Rightarrow> Inl (Wrapf ''unable to get user directory: '' err)
      | Inr home \<Rightarrow>
          (case ReadTrustedKeys check s home of
             Inl err \<Rightarrow> Inl err
           | Inr keys \<Rightarrow> if dom keys = {} then Inl (Errorf ''no keys to serve'') else Inr keys))"

text \<open>The running application: the lock word, the server's keys, and whether it was told to stop.\<close>

record gui =
  lock_word :: int
  gui_keys :: "bytes \<rightharpoonup> bytes"
  gui_opts :: gui_options
  cancelled :: bool

datatype gui_start = GuiExit nat | GuiRunning gui

text \<open>
  \<^verbatim>\<open>main\<close> up to \<^verbatim>\<open>systray.Run\<close>: \<open>usage\<close> is the help text, \<open>session\<close> what \<^verbatim>\<open>currentSessionLocked\<close> returned, \<open>inst\<close>
  the error of the lock file, \<open>started\<close> what \<^verbatim>\<open>clipStart\<close> returned.
\<close>

definition gui_main ::
    "(int \<Rightarrow> gostring) \<Rightarrow> gostring \<Rightarrow> gostring list \<Rightarrow> bool res \<Rightarrow> goerr option \<Rightarrow> (bytes \<rightharpoonup> bytes) res \<Rightarrow> console \<Rightarrow>
      gui_start \<times> console" where
  "gui_main stamp usage args session inst started c =
     (let c0 = NewLogWriter gui_title 0 False c
      in case flag_Parse gui_flag gui_set args gui_defaults of
           (Some err, _, _) \<Rightarrow> (GuiExit 1, ShowOKMessage stamp MsgError gui_title (err_Error err) c0)
         | (None, _, st) \<Rightarrow>
             (if gHelp st then (GuiExit 0, ShowOKMessage stamp MsgInformation gui_title usage c0)
              else
                (let c1 = NewLogWriter gui_title 0 (gDebug st) c0
                 in case (if gUnlocked st then Inr False else session) of
                      Inl err \<Rightarrow> (GuiExit 1, ShowOKMessage stamp MsgError gui_title (err_Error err) c1)
                    | Inr islocked \<Rightarrow>
                        (let c2 = (if gUnlocked st then c1
                                   else log_Print stamp (if islocked then ''Session starts locked'' else ''Session starts unlocked'') c1)
                         in case inst of
                              Some err \<Rightarrow> (GuiExit 1, log_Print stamp ''Application already running'' c2)
                            | None \<Rightarrow>
                                (case started of
                                   Inl err \<Rightarrow> (GuiExit 1, ShowOKMessage stamp MsgInformation gui_title (err_Error err) c2)
                                 | Inr keys \<Rightarrow>
                                     (GuiRunning \<lparr>lock_word = (if islocked then 1 else 0), gui_keys = keys, gui_opts = st, cancelled = False\<rparr>,
                                      c2))))))"

section \<open>Running\<close>

text \<open>The callbacks given to \<^verbatim>\<open>systray.Run\<close>, as the window procedure calls them.\<close>

definition gui_callback :: "callback \<Rightarrow> gui \<Rightarrow> gui" where
  "gui_callback e g =
     (case e of
        SystraySession w \<Rightarrow> g\<lparr>lock_word := onSession w (lock_word g)\<rparr>
      | SystrayExit \<Rightarrow> g\<lparr>cancelled := True\<rparr>
      | _ \<Rightarrow> g)"

definition gui_message ::
    "(nat \<Rightarrow> message \<Rightarrow> uintptr) \<Rightarrow> nat \<Rightarrow> message \<Rightarrow> gui \<times> winTray \<Rightarrow> gui \<times> winTray" where
  "gui_message defproc h m gt =
     (case wndProc defproc h m (snd gt) of (cs, r, t') \<Rightarrow> (foldl (\<lambda>g e. gui_callback e g) (fst gt) cs, t'))"

text \<open>
  The call of \<^verbatim>\<open>systray.Run\<close> with the three callbacks, and the part of it that is left once the tray is
  registered: the message loop, whose callbacks change the application.
\<close>

definition gui_loop ::
    "(nat \<Rightarrow> message \<Rightarrow> uintptr) \<Rightarrow> (nat \<times> message) list \<Rightarrow> gui \<times> winTray \<Rightarrow> loop_end \<times> gui \<times> winTray" where
  "gui_loop defproc ms gt =
     (case nativeLoop defproc ms (snd gt) of (e, cs, t) \<Rightarrow> (e, foldl (\<lambda>g c. gui_callback c g) (fst gt) cs, t))"

definition gui_run ::
    "(nat \<Rightarrow> message \<Rightarrow> uintptr) \<Rightarrow> (nat \<times> message) list \<Rightarrow> gui \<times> winTray \<Rightarrow> loop_end \<times> gui \<times> winTray" where
  "gui_run defproc ms gt =
     (case Run \<lparr>has_ready = True, has_exit = True, has_session = True\<rparr> defproc ms (snd gt) of
        (e, cs, t) \<Rightarrow> (e, foldl (\<lambda>g c. gui_callback c g) (fst gt) cs, t))"

text \<open>
  \<^verbatim>\<open>onReady\<close>: the icon, the tooltip and the two entries of the menu; \<open>None\<close> when it panics. Its goroutine:
  a click on the first entry shows the help, one on the second quits and ends the goroutine.
\<close>

definition onReady ::
    "gostring \<Rightarrow> (bytes \<Rightarrow> bool) \<Rightarrow> os_state \<times> systray \<Rightarrow> (os_state \<times> systray) option" where
  "onReady TempDir is_icon st =
     (case SetIcon TempDir is_icon (MakeIntResource 1000) (fst st, tray (snd st)) of
        None \<Rightarrow> None
      | Some (fs, t1) \<Rightarrow>
          (case SetTooltip gui_tooltip t1 of
             None \<Rightarrow> None
           | Some t2 \<Rightarrow>
               Some (fs, AddMenuItem ''Exit'' ''Exits application''
                 (snd (AddSeparator (AddMenuItem ''About'' ''Shows application help'' ((snd st)\<lparr>tray := t2\<rparr>)))))))"

definition onReady_click ::
    "(int \<Rightarrow> gostring) \<Rightarrow> gostring \<Rightarrow> u32 \<Rightarrow> u32 \<Rightarrow> u32 \<Rightarrow> console \<times> systray \<Rightarrow> bool \<times> console \<times> systray" where
  "onReady_click stamp usage miHelp miQuit clicked cs =
     (case cs of
        (c, s) \<Rightarrow>
          if clicked = miHelp then (True, ShowOKMessage stamp MsgInformation gui_title usage c, s)
          else if clicked = miQuit then (False, log_Print stamp ''Requesting exit'' c, systray_Quit s)
          else (True, c, s))"

text \<open>What \<^verbatim>\<open>clipStart\<close> gives \<^verbatim>\<open>Serve\<close> as its lock: no lock at all with \<^verbatim>\<open>-ignore-session-lock\<close>.\<close>

definition server_lock :: "gui \<Rightarrow> int option" where
  "server_lock g = (if gUnlocked (gui_opts g) then None else Some (lock_word g))"

section \<open>Properties\<close>

abbreviation session_message :: "u32 \<Rightarrow> message \<Rightarrow> bool" where
  "session_message e m \<equiv> fst m = 0x02B1 \<and> ucast (fst (snd m)) = e"

text \<open>No message of the tray is mistaken for one about the session, and this stays so.\<close>

definition session_ids :: "winTray \<Rightarrow> bool" where
  "session_ids t \<longleftrightarrow> wmSystrayMessage t \<noteq> 0x02B1 \<and> wmTaskbarCreated t \<noteq> 0x02B1"

lemma wm_ids:
  "session_ids (snd (wm_create h t)) = session_ids t" "session_ids (snd (wm_endsession t)) = session_ids t"
  "session_ids (snd (wm_destroy t)) = session_ids t" "session_ids (snd (showMenu t)) = session_ids t"
  "session_ids (snd (nid_add n t)) = session_ids t" "session_ids (snd (wcex_unregister w t)) = session_ids t"
  by (simp_all add: session_ids_def wm_create_def wm_endsession_def wm_destroy_def showMenu_def nid_add_def nid_delete_def
      wcex_unregister_def api_call_def split: option.split)

lemma wm_close_ids: "session_ids (snd (wm_close h t)) = session_ids t"
proof -
  have upd: "session_ids (t\<lparr>calls := n\<rparr>) = session_ids t" "session_ids (t\<lparr>sessionRegistered := b\<rparr>) = session_ids t"
    "session_ids (t\<lparr>notified := ns\<rparr>) = session_ids t" "session_ids (t\<lparr>objects := ob\<rparr>) = session_ids t" for t n b ns ob
    by (simp_all add: session_ids_def)
  have "session_ids (snd (snd (DestroyWindow g t))) = session_ids t" for g t
    by (simp add: DestroyWindow_def destroy_object_def case_prod_beta api_call_def upd wm_ids split: option.split)
  then show ?thesis
    by (simp add: wm_close_def case_prod_beta api_call_def upd wm_ids Let_def split: option.split)
qed

lemma gui_message_ids: "session_ids (snd (gui_message defproc h m gt)) = session_ids (snd gt)"
  by (cases m) (simp add: gui_message_def wndProc_def case_prod_beta wm_ids wm_close_ids)

text \<open>The callbacks of the window procedure: the session is called for a session message only.\<close>

lemma wndProc_session:
  assumes "session_ids t"
  shows "SystraySession e \<in> set (fst (wndProc defproc h m t)) \<longleftrightarrow> session_message e m"
    and "session_message e m \<Longrightarrow> fst (wndProc defproc h m t) = [SystraySession e]"
proof -
  have "SystraySession e \<notin> set (fst (wm_close h t))" "SystraySession e \<notin> set (fst (wm_destroy t))" for h t
    by (auto simp: wm_close_def DestroyWindow_def wm_destroy_def wm_endsession_def api_call_def Let_def split: option.split)
  then show "SystraySession e \<in> set (fst (wndProc defproc h m t)) \<longleftrightarrow> session_message e m"
    using assms by (cases m) (auto simp: wndProc_def session_ids_def case_prod_beta wm_create_def wm_endsession_def)
  show "session_message e m \<Longrightarrow> fst (wndProc defproc h m t) = [SystraySession e]"
    using assms by (cases m) (auto simp: wndProc_def session_ids_def)
qed

lemma foldl_callbacks:
  "gui_opts (foldl (\<lambda>g e. gui_callback e g) g cs) = gui_opts g" "gui_keys (foldl (\<lambda>g e. gui_callback e g) g cs) = gui_keys g"
  "(\<And>e. SystraySession e \<notin> set cs) \<Longrightarrow> lock_word (foldl (\<lambda>g e. gui_callback e g) g cs) = lock_word g"
  by (induction cs arbitrary: g) (auto simp: gui_callback_def split: callback.splits)

lemma gui_message_lock:
  assumes "session_ids (snd gt)"
  shows "lock_word (fst (gui_message defproc h m gt)) =
     (if session_message SesLock m then 1 else if session_message SesUnlock m then 0 else lock_word (fst gt))"
    and "gui_opts (fst (gui_message defproc h m gt)) = gui_opts (fst gt)"
    and "gui_keys (fst (gui_message defproc h m gt)) = gui_keys (fst gt)"
proof -
  show "gui_opts (fst (gui_message defproc h m gt)) = gui_opts (fst gt)" "gui_keys (fst (gui_message defproc h m gt)) = gui_keys (fst gt)"
    by (simp_all add: gui_message_def case_prod_beta foldl_callbacks)
  show "lock_word (fst (gui_message defproc h m gt)) =
     (if session_message SesLock m then 1 else if session_message SesUnlock m then 0 else lock_word (fst gt))"
  proof (cases "fst m = 0x02B1")
    case True
    then have "fst (wndProc defproc h m (snd gt)) = [SystraySession (ucast (fst (snd m)))]"
      by (intro wndProc_session(2) [OF assms]) simp
    with True show ?thesis by (simp add: gui_message_def case_prod_beta gui_callback_def onSession_def)
  next
    case False
    then have "\<And>e. SystraySession e \<notin> set (fst (wndProc defproc h m (snd gt)))"
      using wndProc_session(1) [OF assms] by simp
    with False show ?thesis by (simp add: gui_message_def case_prod_beta foldl_callbacks)
  qed
qed

text \<open>A sequence of messages to the window \<open>h\<close>.\<close>

abbreviation gui_messages :: "(nat \<Rightarrow> message \<Rightarrow> uintptr) \<Rightarrow> nat \<Rightarrow> gui \<times> winTray \<Rightarrow> message list \<Rightarrow> gui \<times> winTray" where
  "gui_messages defproc h \<equiv> foldl (\<lambda>gt m. gui_message defproc h m gt)"

lemma gui_messages_ids: "session_ids (snd (gui_messages defproc h gt ms)) = session_ids (snd gt)"
  by (induction ms arbitrary: gt) (simp_all add: gui_message_ids)

lemma gui_messages_keep_lock:
  assumes "session_ids (snd gt)" "\<forall>m \<in> set ms. \<not> session_message SesUnlock m" "lock_word (fst gt) = 1"
  shows "lock_word (fst (gui_messages defproc h gt ms)) = 1"
  using assms
proof (induction ms arbitrary: gt)
  case (Cons m ms)
  then have "lock_word (fst (gui_message defproc h m gt)) = 1"
    by (auto simp: gui_message_lock)
  with Cons show ?case by (simp add: gui_message_ids)
qed simp

lemma gui_messages_opts:
  assumes "session_ids (snd gt)"
  shows "gui_opts (fst (gui_messages defproc h gt ms)) = gui_opts (fst gt)"
  using assms by (induction ms arbitrary: gt) (simp_all add: gui_message_lock gui_message_ids)

lemma locked_serves_nothing:
  assumes "Serve_connection opener keys mg (Some 1) timeout inp conn t = (Some sc, t')"
  shows "serve_request ed_verify decode exec time sc h = (None, h)"
proof -
  have "locked sc = Some 1"
    using assms by (auto simp: Serve_connection_def split: prod.splits attach_result.splits)
  then have "snd (snd (fst (secConn_Read ed_verify time sc n))) \<noteq> None" for n
    by (auto simp: secConn_Read_def Let_def split: sum.splits prod.splits option.splits)
  then show ?thesis
    by (auto simp: serve_request_def split: prod.splits option.splits) (metis snd_conv option.distinct(1))
qed


definition example_request_frame :: stream where
  "example_request_frame = \<lparr>avail = frame_bytes ([103, 99, 108, 112, 114, 0, 9, 9] @ cli_hpk example_signer @ replicate 64 3 @ [1]), fin = EOF\<rparr>"


text \<open>The options the help shows are the ones the parser knows.\<close>

lemma gui_flag_registered: "gui_flag nm \<noteq> None \<longleftrightarrow> nm \<in> fl_name ` set gui_flags"
proof -
  have "map fl_name gui_flags = [''h'', ''help'', ''port'', ''line-ending'', ''timeout'', ''ignore-session-lock'', ''debug'']"
    by (simp add: gui_flags_def BoolVar_def IntVar_def StringVar_def DurationVar_def)
  then show ?thesis
    unfolding set_map [symmetric] gui_flag_def by (simp only: known_flag list.set insert_iff empty_iff) argo
qed

section \<open>When the tray is ready\<close>

definition idle :: "winTray \<Rightarrow> systray" where
  "idle t = \<lparr>currentID = 0, menuItems = Map.empty, tray = t, quitDone = False\<rparr>"

text \<open>The tray after the window was made, after the icon was added and after the menu was made.\<close>

definition window_made :: winTray where "window_made = snd (snd (init_window (new_tray (\<lambda>n. None))))"
definition icon_added :: winTray where "icon_added = snd (init_icon window_made)"
definition menu_made :: winTray where "menu_made = snd (createMenu icon_added)"

definition menu_titles :: "winTray \<Rightarrow> u16 list list" where
  "menu_titles t = (case menus t 0 of None \<Rightarrow> [] | Some h \<Rightarrow> map mi_TypeData (hmenu t h))"

lemma ready_early: "onReady TempDir is_icon (fs, idle window_made) = None"
  by code_simp

lemma ready_between:
  "map_option (\<lambda>r. menu_titles (snd (createMenu (tray (snd r))))) (onReady TempDir is_icon (fs, idle icon_added)) = Some []"
  by code_simp

lemma ready_late:
  "map_option (\<lambda>r. menu_titles (tray (snd r))) (onReady TempDir is_icon (fs, idle menu_made)) =
     Some [map of_char ''About'' @ [0], [], map of_char ''Exit'' @ [0]]"
  by code_simp


section \<open>Leaving the application\<close>

lemma gui_run_loop:
  "gui_run defproc ms (g, t) =
     (case registerSystray t of (cs, t1) \<Rightarrow> gui_loop defproc ms (foldl (\<lambda>g c. gui_callback c g) g cs, t1))"
proof -
  have "filter (delivered \<lparr>has_ready = True, has_exit = True, has_session = True\<rparr>) cs = cs" for cs
    by (rule filter_True) (metis (full_types) callback.exhaust delivered.simps handlers.select_convs)
  then show ?thesis by (simp add: gui_run_def Run_def Register_def gui_loop_def case_prod_beta)
qed

lemma exit_callback_cancels: "SystrayExit \<in> set cs \<or> cancelled g \<Longrightarrow> cancelled (foldl (\<lambda>g c. gui_callback c g) g cs)"
  by (induction cs arbitrary: g) (auto simp: gui_callback_def split: callback.splits)

lemma quit_posts:
  assumes "tray_open t"
  shows "quit t = t\<lparr>calls := calls t + 1, posted := posted t @ [(window t, 0x0010, 0, 0)]\<rparr>" "tray_open (quit t)"
  using tray_open_call [OF assms] by (simp_all add: quit_def PostMessage_def tray_open_def)

lemma listener_closed:
  assumes "Serve_listen u c t resolved ns = (Inr (l, la), ns')"
  shows "bound ns' la = Some l" "bound (Serve_cancel True l ns') la = None"
proof -
  show "bound ns' la = Some l"
    using assms by (auto simp: Serve_listen_def listenTCP_def Let_def split: option.splits sum.splits prod.splits if_splits)
  then show "bound (Serve_cancel True l ns') la = None" by (simp add: Serve_cancel_def sock_Close_def)
qed



end
