(* ===== verification/Desktop.thy ===== *)
theory Desktop
  imports Clipboard GoUtf16 Uri
begin

text \<open>
  The packages behind the clipboard and the opener: \<^verbatim>\<open>github.com/atotto/clipboard\<close> on Unix, where it
  runs a program, and on Windows, where it calls the clipboard functions, and
  \<^verbatim>\<open>github.com/skratchdot/open-golang\<close>. The programs and the calls of Windows belong to the
  environment; the service of \<^verbatim>\<open>Clipboard\<close> is put on top of the Windows clipboard, and the service of
  \<^verbatim>\<open>Uri\<close> on top of the opener.
\<close>

section \<open>What a clipboard promises\<close>

text \<open>
  A clipboard keeps the texts of a set: what is read, if reading works, after one of them was
  written, is that text.
\<close>

locale system_clipboard =
  fixes WriteAll :: "gostring \<Rightarrow> 'c \<Rightarrow> goerr option \<times> 'c"
    and ReadAll :: "'c \<Rightarrow> gostring \<times> goerr option"
    and keeps :: "gostring \<Rightarrow> bool"
  assumes read_back: "keeps t \<Longrightarrow> WriteAll t s = (None, s') \<Longrightarrow> ReadAll s' = (u, None) \<Longrightarrow> u = t"
begin

lemma pasted:
  assumes "Copy WriteAll (NewClipboard le) text s = (None, s')" "Paste ReadAll s' = (u, None)" "keeps (ConvertLE text le)"
  shows "u = ConvertLE text le"
proof -
  from assms(1) have "WriteAll (ConvertLE text le) s = (None, s')"
    by (auto simp: Copy_def NewClipboard_def split: if_splits)
  moreover from assms(2) have "ReadAll s' = (u, None)" by (simp add: Paste_def case_prod_beta)
  ultimately show ?thesis using read_back [OF assms(3)] by blast
qed

end

section \<open>The clipboard on Unix\<close>

text \<open>
  The programs the package settles on when it is initialised, from the environment and the
  programs that are found; \<^verbatim>\<open>Primary\<close> is never set.
\<close>

record clip_tools =
  pasteCmdArgs :: "gostring list"
  copyCmdArgs :: "gostring list"
  trimDos :: bool
  Unsupported :: bool

definition clipboard_init :: "(gostring \<Rightarrow> gostring) \<Rightarrow> (gostring \<Rightarrow> bool) \<Rightarrow> clip_tools" where
  "clipboard_init Getenv found =
     (if Getenv ''WAYLAND_DISPLAY'' \<noteq> [] \<and> found ''wl-copy'' \<and> found ''wl-paste''
      then \<lparr>pasteCmdArgs = [''wl-paste'', ''--no-newline''], copyCmdArgs = [''wl-copy''], trimDos = False, Unsupported = False\<rparr>
      else if found ''xclip''
      then \<lparr>pasteCmdArgs = [''xclip'', ''-out'', ''-selection'', ''clipboard''], copyCmdArgs = [''xclip'', ''-in'', ''-selection'', ''clipboard''],
            trimDos = False, Unsupported = False\<rparr>
      else if found ''xsel''
      then \<lparr>pasteCmdArgs = [''xsel'', ''--output'', ''--clipboard''], copyCmdArgs = [''xsel'', ''--input'', ''--clipboard''],
            trimDos = False, Unsupported = False\<rparr>
      else if found ''termux-clipboard-set'' \<and> found ''termux-clipboard-get''
      then \<lparr>pasteCmdArgs = [''termux-clipboard-get''], copyCmdArgs = [''termux-clipboard-set''], trimDos = False, Unsupported = False\<rparr>
      else \<lparr>pasteCmdArgs = [''powershell.exe'', ''Get-Clipboard''], copyCmdArgs = [''clip.exe''], trimDos = True,
            Unsupported = \<not> (found ''clip.exe'' \<and> found ''powershell.exe'')\<rparr>)"

definition missingCommands :: goerr where
  "missingCommands = Errorf ''No clipboard utilities available. Please install xsel, xclip, wl-clipboard or Termux:API add-on for termux-clipboard-get/set.''"

text \<open>
  \<open>Output\<close> is what running a program writes; \<open>feed\<close> runs one with a text on its standard input and
  returns the first error of making the pipe, starting, writing, closing and waiting.
\<close>

definition unix_readAll :: "clip_tools \<Rightarrow> (gostring list \<Rightarrow> 'c \<Rightarrow> gostring res) \<Rightarrow> 'c \<Rightarrow> gostring \<times> goerr option" where
  "unix_readAll tools Output c =
     (if Unsupported tools then ([], Some missingCommands)
      else case Output (pasteCmdArgs tools) c of
             Inl err \<Rightarrow> ([], Some err)
           | Inr result \<Rightarrow>
               (if trimDos tools \<and> length result > 1 then take (length result - 2) result else result, None))"

definition unix_writeAll ::
    "clip_tools \<Rightarrow> (gostring list \<Rightarrow> gostring \<Rightarrow> 'c \<Rightarrow> goerr option \<times> 'c) \<Rightarrow> gostring \<Rightarrow> 'c \<Rightarrow> goerr option \<times> 'c" where
  "unix_writeAll tools feed text c = (if Unsupported tools then (Some missingCommands, c) else feed (copyCmdArgs tools) text c)"

text \<open>The programs of one family are used together, both are there, and the line end \<^verbatim>\<open>Get-Clipboard\<close> adds is cut.\<close>

lemma clipboard_init_found:
  assumes "\<not> Unsupported (clipboard_init Getenv found)"
  shows "found (hd (copyCmdArgs (clipboard_init Getenv found)))" "found (hd (pasteCmdArgs (clipboard_init Getenv found)))"
    "trimDos (clipboard_init Getenv found) \<longleftrightarrow> hd (copyCmdArgs (clipboard_init Getenv found)) = ''clip.exe''"
  using assms by (simp_all add: clipboard_init_def split: if_splits)

lemma unix_copy_paste:
  assumes "feed (copyCmdArgs tools) text c = (None, c')" "\<not> Unsupported tools"
    and "Output (pasteCmdArgs tools) c' = Inr (if trimDos tools then text @ [CR, LF] else text)"
  shows "unix_writeAll tools feed text c = (None, c')" "unix_readAll tools Output c' = (text, None)"
  using assms by (simp_all add: unix_writeAll_def unix_readAll_def)

section \<open>The clipboard on Windows\<close>

text \<open>
  The clipboard of the session: the Unicode text on it, as the units of its memory block up to and
  with the NUL; whether this program has it open; the memory blocks the program allocated and
  still owns; and whether the program has panicked, which in a method of an RPC object ends it.
  \<open>cb_fails\<close> says which calls fail, counted by \<open>cb_calls\<close>, \<open>attempts\<close> what the calls of
  \<^verbatim>\<open>OpenClipboard\<close> return that are made within a second.
\<close>

record win_clipboard =
  unicode_text :: "u16 list option"
  cb_open :: bool
  blocks :: nat
  crashed :: bool
  cb_calls :: nat
  cb_fails :: "nat \<Rightarrow> goerr option"
  attempts :: "nat \<Rightarrow> goerr option list"

definition ERROR_CLIPBOARD_NOT_OPEN :: goerr where
  "ERROR_CLIPBOARD_NOT_OPEN = OsErr ''Thread does not have a clipboard open.''"

definition NO_ERROR :: goerr where "NO_ERROR = OsErr ''The operation completed successfully.''"

definition cb_call :: "win_clipboard \<Rightarrow> goerr option \<times> win_clipboard" where
  "cb_call c = (cb_fails c (cb_calls c), c\<lparr>cb_calls := cb_calls c + 1\<rparr>)"

text \<open>A call that needs the clipboard to be open, and what it does if it succeeds.\<close>

definition open_call :: "(win_clipboard \<Rightarrow> win_clipboard) \<Rightarrow> win_clipboard \<Rightarrow> goerr option \<times> win_clipboard" where
  "open_call f c =
     (case cb_call c of
        (Some err, c') \<Rightarrow> (Some err, c')
      | (None, c') \<Rightarrow> if cb_open c' then (None, f c') else (Some ERROR_CLIPBOARD_NOT_OPEN, c'))"

definition closeClipboard :: "win_clipboard \<Rightarrow> goerr option \<times> win_clipboard" where
  "closeClipboard = open_call (\<lambda>c. c\<lparr>cb_open := False\<rparr>)"

text \<open>
  \<^verbatim>\<open>waitOpenClipboard\<close>; the error it returns is the one of the last attempt, and there is none if the
  second was over before the first.
\<close>

fun wait_loop :: "goerr option \<Rightarrow> goerr option list \<Rightarrow> goerr option \<times> bool" where
  "wait_loop err [] = (err, False)"
| "wait_loop err (None # rs) = (None, True)"
| "wait_loop err (Some e # rs) = wait_loop (Some e) rs"

definition waitOpenClipboard :: "win_clipboard \<Rightarrow> goerr option \<times> win_clipboard" where
  "waitOpenClipboard c =
     (case wait_loop None (attempts c (cb_calls c)) of
        (err, opened) \<Rightarrow> (err, c\<lparr>cb_calls := cb_calls c + 1, cb_open := cb_open c \<or> opened\<rparr>))"

text \<open>An error after which the clipboard is closed, whether that works or not.\<close>

definition fail_close :: "goerr \<Rightarrow> win_clipboard \<Rightarrow> goerr option \<times> win_clipboard" where
  "fail_close err c = (Some err, snd (closeClipboard c))"

definition win_read_window :: nat where "win_read_window = push_bit 20 1"

definition win_readAll :: "win_clipboard \<Rightarrow> (gostring \<times> goerr option) \<times> win_clipboard" where
  "win_readAll c =
     (case cb_call c of
        (Some err, c1) \<Rightarrow> (([], Some err), c1)
      | (None, c1) \<Rightarrow>
          (case unicode_text c1 of
             None \<Rightarrow> (([], Some NO_ERROR), c1)
           | Some units \<Rightarrow>
               (case waitOpenClipboard c1 of
                  (Some err, c2) \<Rightarrow> (([], Some err), c2)
                | (None, c2) \<Rightarrow>
                    (case open_call id c2 of
                       (Some err, c3) \<Rightarrow> apfst (Pair []) (fail_close err c3)
                     | (None, c3) \<Rightarrow>
                         (case cb_call c3 of
                            (Some err, c4) \<Rightarrow> apfst (Pair []) (fail_close err c4)
                          | (None, c4) \<Rightarrow>
                              (let text = UTF16ToString (take win_read_window units)
                               in case cb_call c4 of
                                    (Some err, c5) \<Rightarrow> apfst (Pair []) (fail_close err c5)
                                  | (None, c5) \<Rightarrow>
                                      (case closeClipboard c5 of
                                         (Some err, c6) \<Rightarrow> (([], Some err), c6)
                                       | (None, c6) \<Rightarrow> ((text, None), c6))))))))"

text \<open>
  From the locking of the new block on: whether the block was handed to the clipboard, the error and
  the clipboard. Unlocking reports no error for a block that is no longer locked, which the code
  takes for success.
\<close>

definition store_block :: "u16 list \<Rightarrow> win_clipboard \<Rightarrow> bool \<times> goerr option \<times> win_clipboard" where
  "store_block data c =
     (case cb_call c of
        (Some err, c1) \<Rightarrow> (False, fail_close err c1)
      | (None, c1) \<Rightarrow>
          (case cb_call c1 of
             (Some err, c2) \<Rightarrow> (False, fail_close err c2)
           | (None, c2) \<Rightarrow>
               (case cb_call c2 of
                  (e, c3) \<Rightarrow>
                    if e \<noteq> None \<and> e \<noteq> Some NO_ERROR then (False, fail_close (the e) c3)
                    else (case open_call (\<lambda>c. c\<lparr>unicode_text := Some data, blocks := blocks c - 1\<rparr>) c3 of
                            (Some err, c4) \<Rightarrow> (False, fail_close err c4)
                          | (None, c4) \<Rightarrow> (True, closeClipboard c4)))))"

definition win_writeAll :: "gostring \<Rightarrow> win_clipboard \<Rightarrow> goerr option \<times> win_clipboard" where
  "win_writeAll text c =
     (case waitOpenClipboard c of
        (Some err, c1) \<Rightarrow> (Some err, c1)
      | (None, c1) \<Rightarrow>
          (case open_call (\<lambda>c. c\<lparr>unicode_text := None\<rparr>) c1 of
             (Some err, c2) \<Rightarrow> fail_close err c2
           | (None, c2) \<Rightarrow>
               (case UTF16FromString text of
                  Inl err \<Rightarrow> (Some err, c2\<lparr>crashed := True\<rparr>)
                | Inr data \<Rightarrow>
                    (case cb_call c2 of
                       (Some err, c3) \<Rightarrow> fail_close err c3
                     | (None, c3) \<Rightarrow>
                         (case store_block data (c3\<lparr>blocks := blocks c3 + 1\<rparr>) of
                            (given, err, c4) \<Rightarrow> (err, if given then c4 else c4\<lparr>blocks := blocks c4 - 1\<rparr>))))))"

section \<open>The opener\<close>

text \<open>The command \<^verbatim>\<open>open.Run\<close> runs, on the three systems; \<open>runDll32\<close> is the path of the program.\<close>

definition unix_open :: "gostring \<Rightarrow> gostring list" where
  "unix_open input = [''xdg-open'', input]"
definition darwin_open :: "gostring \<Rightarrow> gostring list" where
  "darwin_open input = [''open'', input]"
definition windows_open :: "gostring \<Rightarrow> gostring \<Rightarrow> gostring list" where
  "windows_open runDll32 input = [runDll32, ''url.dll,FileProtocolHandler'', input]"

definition open_Run ::
    "(gostring \<Rightarrow> gostring list) \<Rightarrow> (gostring list \<Rightarrow> 'w \<Rightarrow> goerr option \<times> 'w) \<Rightarrow> gostring \<Rightarrow> 'w \<Rightarrow> goerr option \<times> 'w" where
  "open_Run open Run input w = Run (open input) w"

section \<open>Texts and line ends\<close>

text \<open>The conversion of line ends on the code points of a text.\<close>

fun norm_runes :: "nat list \<Rightarrow> nat list" where
  "norm_runes [] = []"
| "norm_runes [r] = (if r = 13 then [10] else [r])"
| "norm_runes (r # q # rs) =
     (if r = 13 then (if q = 10 then 10 # norm_runes rs else 10 # norm_runes (q # rs)) else r # norm_runes (q # rs))"

definition crlf_runes :: "nat list \<Rightarrow> nat list" where
  "crlf_runes rs = concat (map (\<lambda>r. if r = 10 then [13, 10] else [r]) rs)"

definition runes_LE :: "nat list \<Rightarrow> gostring \<Rightarrow> nat list" where
  "runes_LE rs op =
     (if EqualFold ''lf'' op then norm_runes rs else if EqualFold ''crlf'' op then crlf_runes (norm_runes rs) else rs)"

lemma EncodeRune_ascii: "b \<in> set (EncodeRune r) \<Longrightarrow> b < 128 \<Longrightarrow> EncodeRune r = [b] \<and> r = b"
  by (auto simp: EncodeRune_def three_bytes_def split: if_splits)

definition rune_text :: "nat \<Rightarrow> gostring" where
  "rune_text r = map char_of (EncodeRune r)"

lemma text_of_runes_simps [simp]:
  "text_of_runes [] = []" "text_of_runes (r # rs) = rune_text r @ text_of_runes rs"
  "rune_text 10 = [LF]" "rune_text 13 = [CR]" "rune_text r \<noteq> []"
proof -
  have "char_of (10 :: nat) = LF" "char_of (13 :: nat) = CR" by code_simp+
  then show "rune_text 10 = [LF]" "rune_text 13 = [CR]" by (simp_all add: rune_text_def EncodeRune_def)
qed (simp_all add: text_of_runes_def rune_text_def)

lemma line_end_in_text: "LF \<in> set (rune_text r) \<longleftrightarrow> r = 10" "CR \<in> set (rune_text r) \<longleftrightarrow> r = 13"
  "CHR 0x00 \<in> set (rune_text r) \<longleftrightarrow> r = 0"
proof -
  have codes: "map of_char (rune_text r) = EncodeRune r"
    using codes_text_of_runes [of "[r]"] by simp
  have *: "c \<in> set (rune_text r) \<longleftrightarrow> r = of_char c" if "of_char c < (128 :: nat)" for c
  proof
    assume "c \<in> set (rune_text r)"
    then have "of_char c \<in> set (EncodeRune r)" unfolding codes [symmetric] by simp
    with EncodeRune_ascii that show "r = of_char c" by blast
  next
    assume "r = of_char c"
    with that show "c \<in> set (rune_text r)" by (simp add: rune_text_def EncodeRune_def)
  qed
  show "LF \<in> set (rune_text r) \<longleftrightarrow> r = 10" "CR \<in> set (rune_text r) \<longleftrightarrow> r = 13"
    "CHR 0x00 \<in> set (rune_text r) \<longleftrightarrow> r = 0"
    by (simp_all add: *)
qed

lemma norm_lf_append: "CR \<notin> set u \<Longrightarrow> norm_lf (u @ s) = u @ norm_lf s"
  by (induction u) (auto simp: norm_lf_Cons)

lemma norm_lf_CR: "norm_lf (CR # s) = LF # norm_lf (if s \<noteq> [] \<and> hd s = LF then tl s else s)"
  by (cases s) auto

lemma norm_lf_runes: "norm_lf (text_of_runes rs) = text_of_runes (norm_runes rs)"
proof (induction rs rule: norm_runes.induct)
  case (2 r)
  show ?case
    using line_end_in_text(2) [of r] by (cases "r = 13") (auto simp: norm_lf_id)
next
  case (3 r q rs)
  show ?case
  proof (cases "r = 13")
    case False
    with 3 line_end_in_text(2) [of r] show ?thesis by (simp add: norm_lf_append)
  next
    case True
    have "hd (rune_text q) \<noteq> LF" if "q \<noteq> 10"
      using line_end_in_text(1) [of q] that by (metis hd_in_set text_of_runes_simps(5))
    with True 3 show ?thesis by (cases "q = 10") (simp_all add: norm_lf_CR)
  qed
qed simp

lemma crlf_text: "ReplaceAll (text_of_runes rs) [LF] [CR, LF] = text_of_runes (crlf_runes rs)"
proof (induction rs)
  case (Cons r rs)
  have "concat (map (\<lambda>x. if x = LF then [CR, LF] else [x]) u) = u" if "LF \<notin> set u" for u
    using that by (induction u) auto
  with Cons line_end_in_text(1) [of r] show ?case
    by (cases "r = 10") (simp_all add: ReplaceAll_one crlf_runes_def)
qed (simp add: ReplaceAll_one crlf_runes_def)

lemma ConvertLE_runes: "ConvertLE (text_of_runes rs) op = text_of_runes (runes_LE rs op)"
proof -
  consider "EqualFold ''lf'' op" | "EqualFold ''crlf'' op" | "\<not> EqualFold ''lf'' op" "\<not> EqualFold ''crlf'' op" by blast
  then show ?thesis
    by cases (simp_all add: ConvertLE_lf ConvertLE_crlf not_both_ops runes_LE_def norm_lf_runes crlf_text, simp add: ConvertLE_def)
qed

lemma set_norm_runes: "r \<notin> {10, 13} \<Longrightarrow> r \<in> set (norm_runes rs) \<longleftrightarrow> r \<in> set rs"
  by (induction rs rule: norm_runes.induct) auto

lemma set_runes_LE: "r \<notin> {10, 13} \<Longrightarrow> r \<in> set (runes_LE rs op) \<longleftrightarrow> r \<in> set rs"
  by (auto simp: runes_LE_def crlf_runes_def set_norm_runes split: if_splits)

lemma valid_runes_LE:
  assumes "\<forall>r \<in> set rs. valid_rune r"
  shows "\<forall>r \<in> set (runes_LE rs op). valid_rune r"
proof
  fix r assume "r \<in> set (runes_LE rs op)"
  then show "valid_rune r" using assms set_runes_LE [of r rs op] by (cases "r \<in> {10, 13}") auto
qed

text \<open>A text has at most as many UTF-16 units as bytes.\<close>

lemma units_le_bytes:
  assumes "\<forall>r \<in> set rs. valid_rune r"
  shows "length (concat (map utf16_EncodeRune rs)) \<le> length (text_of_runes rs)"
  using assms by (induction rs) (auto simp: rune_text_def utf16_EncodeRune_def length_EncodeRune)

section \<open>The Windows clipboard keeps texts\<close>

lemma win_read_window_val: "win_read_window = MaxClipboardSize"
  by (simp add: win_read_window_def push_bit_eq_mult)

lemma UTF16ToString_units:
  assumes "\<forall>r \<in> set rs. valid_rune r \<and> r \<noteq> 0"
  shows "UTF16ToString (concat (map utf16_EncodeRune rs)) = text_of_runes rs"
proof -
  have "0 \<notin> set (concat (map utf16_EncodeRune rs))" using assms utf16_no_NUL by auto
  then have "takeWhile (\<lambda>c. c \<noteq> 0) (concat (map utf16_EncodeRune rs)) = concat (map utf16_EncodeRune rs)"
    by (intro takeWhile_eq_all_conv [THEN iffD2]) auto
  moreover have "\<forall>r \<in> set rs. valid_rune r" using assms by blast
  ultimately show ?thesis by (simp only: UTF16ToString_def decodeWTF16_runes text_of_runes_def)
qed

definition win_keeps :: "gostring \<Rightarrow> bool" where
  "win_keeps t \<longleftrightarrow> (\<exists>rs. t = text_of_runes rs \<and> (\<forall>r \<in> set rs. valid_rune r \<and> r \<noteq> 0) \<and>
     length (concat (map utf16_EncodeRune rs)) \<le> win_read_window)"

lemma open_call_cases:
  "open_call f c = (e, c') \<Longrightarrow> e = None \<and> cb_open c \<and> c' = f (c\<lparr>cb_calls := cb_calls c + 1\<rparr>) \<or> e \<noteq> None \<and> c' = c\<lparr>cb_calls := cb_calls c + 1\<rparr>"
  by (auto simp: open_call_def cb_call_def split: option.splits if_splits)

lemma closing_keeps [simp]:
  "unicode_text (snd (closeClipboard c)) = unicode_text c" "blocks (snd (closeClipboard c)) = blocks c"
  "crashed (snd (closeClipboard c)) = crashed c"
  "fst (fail_close err c) = Some err" "snd (fail_close err c) = snd (closeClipboard c)"
  by (auto simp: closeClipboard_def open_call_def cb_call_def fail_close_def split: option.split)

lemma store_block_effect:
  "blocks (snd (snd (store_block data c))) = (if fst (store_block data c) then blocks c - 1 else blocks c)"
  "crashed (snd (snd (store_block data c))) = crashed c"
  "fst (snd (store_block data c)) = None \<Longrightarrow> unicode_text (snd (snd (store_block data c))) = Some data"
  by (auto simp: store_block_def cb_call_def open_call_def case_prod_beta split: option.split)

text \<open>Whatever fails, a write leaves no memory block behind, and one that succeeds has put its text there.\<close>

lemma win_writeAll_effect:
  "blocks (snd (win_writeAll text c)) = blocks c"
  "fst (win_writeAll text c) = None \<Longrightarrow> \<exists>data. UTF16FromString text = Inr data \<and> unicode_text (snd (win_writeAll text c)) = Some data"
  "crashed (snd (win_writeAll text c)) \<Longrightarrow> crashed c \<or> CHR 0x00 \<in> set text"
  by (auto simp: win_writeAll_def waitOpenClipboard_def cb_call_def open_call_def case_prod_beta store_block_effect UTF16FromString_def
      split: option.splits sum.splits if_splits)

lemma win_readAll_text:
  "fst (win_readAll c) = (u, None) \<Longrightarrow> \<exists>units. unicode_text c = Some units \<and> u = UTF16ToString (take win_read_window units)"
  by (auto simp: win_readAll_def waitOpenClipboard_def cb_call_def open_call_def case_prod_beta fail_close_def Let_def split: option.splits if_splits)

lemma read_window:
  assumes "\<forall>r \<in> set rs. valid_rune r \<and> r \<noteq> 0" "length (concat (map utf16_EncodeRune rs)) \<le> n"
  shows "UTF16ToString (take n (concat (map utf16_EncodeRune rs) @ [0])) = text_of_runes rs"
proof (cases "length (concat (map utf16_EncodeRune rs)) = n")
  case True
  with UTF16ToString_units [OF assms(1)] show ?thesis by simp
next
  case False
  with assms UTF16ToString_FromString [OF assms(1) UTF16FromString_runes [OF assms(1)], of "[]"] show ?thesis by simp
qed

interpretation windows: system_clipboard win_writeAll "fst \<circ> win_readAll" win_keeps
proof
  fix t s s' u assume a: "win_keeps t" "win_writeAll t s = (None, s')" "(fst \<circ> win_readAll) s' = (u, None)"
  then obtain rs where rs: "t = text_of_runes rs" "\<forall>r \<in> set rs. valid_rune r \<and> r \<noteq> 0"
    "length (concat (map utf16_EncodeRune rs)) \<le> win_read_window" by (auto simp: win_keeps_def)
  have "unicode_text s' = Some (concat (map utf16_EncodeRune rs) @ [0])"
    using win_writeAll_effect(2) [of t s] a(2) UTF16FromString_runes [OF rs(2)] rs(1) by auto
  then show "u = t"
    using win_readAll_text [of s' u] a(3) read_window [OF rs(2,3)] rs(1) by auto
qed

section \<open>Copy and paste on Windows\<close>

text \<open>
  A closed clipboard that can be opened and whose calls succeed; only the unlocking of the block that
  was written, the sixth call, may return zero without an error, as it does for a block that is no
  longer locked.
\<close>

definition cb_ready :: "win_clipboard \<Rightarrow> bool" where
  "cb_ready c \<longleftrightarrow> \<not> cb_open c \<and> \<not> crashed c \<and> (\<forall>n. wait_loop None (attempts c n) = (None, True)) \<and>
     (\<forall>n. cb_fails c n = None \<or> n = cb_calls c + 5 \<and> cb_fails c n = Some NO_ERROR)"

lemma cb_readyD:
  assumes "cb_ready c"
  shows "wait_loop None (attempts c n) = (None, True)" "k \<noteq> 5 \<Longrightarrow> cb_fails c (cb_calls c + k) = None"
    "cb_fails c (cb_calls c + 5) = None \<or> cb_fails c (cb_calls c + 5) = Some NO_ERROR" "\<not> cb_open c" "\<not> crashed c"
  using assms unfolding cb_ready_def by (blast, metis add_left_cancel, blast+)

lemma ready_write:
  assumes "cb_ready c"
  shows "UTF16FromString text = Inr data \<Longrightarrow>
      win_writeAll text c = (None, c\<lparr>unicode_text := Some data, cb_calls := cb_calls c + 8, cb_open := False\<rparr>)"
    and "UTF16FromString text = Inl err \<Longrightarrow>
      win_writeAll text c = (Some err, c\<lparr>unicode_text := None, cb_calls := cb_calls c + 2, cb_open := True, crashed := True\<rparr>)"
  using cb_readyD(1) [OF assms, of "cb_calls c"] cb_readyD(2) [OF assms, of 0] cb_readyD(2) [OF assms, of 1] cb_readyD(2) [OF assms, of 2]
    cb_readyD(2) [OF assms, of 3] cb_readyD(2) [OF assms, of 4] cb_readyD(2) [OF assms, of 6] cb_readyD(2) [OF assms, of 7]
    cb_readyD(3) [OF assms]
  by (auto simp: win_writeAll_def waitOpenClipboard_def open_call_def cb_call_def store_block_def closeClipboard_def numeral_eq_Suc)

lemma ready_read:
  assumes "cb_ready c" "unicode_text c' = Some units" "cb_calls c' = cb_calls c + 8" "cb_fails c' = cb_fails c" "attempts c' = attempts c"
  shows "fst (win_readAll c') = (UTF16ToString (take win_read_window units), None)"
  using assms(2-5) cb_readyD(1) [OF assms(1), of "cb_calls c + 9"] cb_readyD(2) [OF assms(1), of 8] cb_readyD(2) [OF assms(1), of 10]
    cb_readyD(2) [OF assms(1), of 11] cb_readyD(2) [OF assms(1), of 12] cb_readyD(2) [OF assms(1), of 13]
  by (simp add: win_readAll_def waitOpenClipboard_def open_call_def cb_call_def closeClipboard_def numeral_eq_Suc)

lemma length_norm_LE: "\<not> EqualFold ''crlf'' op \<Longrightarrow> length (ConvertLE s op) \<le> length s"
  using norm_lf_length [of s] by (cases "EqualFold ''lf'' op") (simp_all add: ConvertLE_lf, simp add: ConvertLE_def)

lemma NUL_in_text: "CHR 0x00 \<in> set (text_of_runes rs) \<longleftrightarrow> 0 \<in> set rs"
  by (induction rs) (auto simp: line_end_in_text)

text \<open>
  C8. Copy and paste with the Windows clipboard, when its calls succeed. A text with a NUL byte ends
  the server: the conversion to UTF-16 panics, with the clipboard emptied and open. Any other text
  in UTF-8 of at most \<^verbatim>\<open>MaxClipboardSize\<close> bytes is stored, the clipboard is closed and no memory is
  left behind, and pasting returns the first \<^verbatim>\<open>MaxClipboardSize\<close> UTF-16 units of the converted text: all
  of it, unless the conversion to \<^verbatim>\<open>CRLF\<close> has made it longer than that.
\<close>

theorem windows_copy_paste:
  assumes "cb_ready c" and "\<forall>r \<in> set rs. valid_rune r" and "length (text_of_runes rs) \<le> MaxClipboardSize"
  shows "if CHR 0x00 \<in> set (text_of_runes rs)
     then (case Copy win_writeAll (NewClipboard le) (text_of_runes rs) c of (e, c') \<Rightarrow> crashed c' \<and> cb_open c' \<and> unicode_text c' = None)
     else \<exists>c'. Copy win_writeAll (NewClipboard le) (text_of_runes rs) c = (None, c') \<and> \<not> cb_open c' \<and> blocks c' = blocks c \<and>
       Paste (fst \<circ> win_readAll) c' =
         (UTF16ToString (take MaxClipboardSize (concat (map utf16_EncodeRune (runes_LE rs le)))), None) \<and>
       (\<not> EqualFold ''crlf'' le \<or> length (ConvertLE (text_of_runes rs) le) \<le> MaxClipboardSize \<longrightarrow>
         Paste (fst \<circ> win_readAll) c' = (ConvertLE (text_of_runes rs) le, None))"
proof -
  let ?rs = "runes_LE rs le" and ?text = "text_of_runes rs"
  let ?units = "concat (map utf16_EncodeRune ?rs)"
  have copy: "Copy win_writeAll (NewClipboard le) ?text c = win_writeAll (text_of_runes ?rs) c"
    using assms(3) by (simp add: Copy_def NewClipboard_def ConvertLE_runes)
  have nul: "CHR 0x00 \<in> set (text_of_runes ?rs) \<longleftrightarrow> CHR 0x00 \<in> set ?text"
    by (simp add: NUL_in_text set_runes_LE)
  have valid: "\<forall>r \<in> set ?rs. valid_rune r \<and> r \<noteq> 0" if "CHR 0x00 \<notin> set ?text"
    using valid_runes_LE [OF assms(2), of le] nul that unfolding NUL_in_text by metis
  show ?thesis
  proof (cases "CHR 0x00 \<in> set ?text")
    case True
    then have "UTF16FromString (text_of_runes ?rs) = Inl EINVAL" using nul by (simp add: UTF16FromString_def)
    with True ready_write(2) [OF assms(1)] copy show ?thesis by simp
  next
    case False
    note v = valid [OF False] and n = win_read_window_val
    define c' where "c' = c\<lparr>unicode_text := Some (?units @ [0]), cb_calls := cb_calls c + 8, cb_open := False\<rparr>"
    have w: "Copy win_writeAll (NewClipboard le) ?text c = (None, c')"
      using ready_write(1) [OF assms(1) UTF16FromString_runes [OF v]] copy by (simp add: c'_def)
    have p: "Paste (fst \<circ> win_readAll) c' = (UTF16ToString (take MaxClipboardSize (?units @ [0])), None)"
      using ready_read [OF assms(1), of c' "?units @ [0]"] by (simp add: c'_def Paste_def n)
    have whole: "UTF16ToString (take MaxClipboardSize (?units @ [0])) = text_of_runes ?rs" if "length ?units \<le> MaxClipboardSize"
      by (rule read_window [OF v that])
    moreover have "take MaxClipboardSize ?units = ?units" if "length ?units \<le> MaxClipboardSize" using that by simp
    moreover have "take MaxClipboardSize (?units @ [0]) = take MaxClipboardSize ?units" if "\<not> length ?units \<le> MaxClipboardSize"
      using that by simp
    ultimately have "UTF16ToString (take MaxClipboardSize (?units @ [0])) = UTF16ToString (take MaxClipboardSize ?units)"
      using UTF16ToString_units [OF v] by (cases "length ?units \<le> MaxClipboardSize") (simp_all del: MaxClipboardSize_val)
    moreover have "length ?units \<le> MaxClipboardSize"
      if "\<not> EqualFold ''crlf'' le \<or> length (ConvertLE ?text le) \<le> MaxClipboardSize"
      using that units_le_bytes [of ?rs] v length_norm_LE [of le ?text] assms(3) by (auto simp: ConvertLE_runes)
    ultimately show ?thesis
      using False w p whole by (auto simp: c'_def ConvertLE_runes simp del: MaxClipboardSize_val)
  qed
qed

text \<open>The clipboard of a session, free and empty.\<close>

definition example_clipboard :: win_clipboard where
  "example_clipboard =
     \<lparr>unicode_text = None, cb_open = False, blocks = 0, crashed = False, cb_calls = 0,
      cb_fails = (\<lambda>n. if n = 5 then Some NO_ERROR else None), attempts = (\<lambda>n. [Some EOF, None])\<rparr>"

theorem windows_copy_paste_witness:
  "(\<exists>c'. Copy win_writeAll (NewClipboard ''crlf'') (text_of_runes [0xE9, 10]) example_clipboard = (None, c') \<and>
      Paste (fst \<circ> win_readAll) c' = (text_of_runes [0xE9, 13, 10], None)) \<and>
   crashed (snd (Copy win_writeAll (NewClipboard []) (text_of_runes [65, 0]) example_clipboard))"
proof -
  have r: "cb_ready example_clipboard" by (simp add: cb_ready_def example_clipboard_def)
  have t: "CHR 0x00 \<notin> set (text_of_runes [0xE9, 10])" "CHR 0x00 \<in> set (text_of_runes [65, 0])"
    "ConvertLE (text_of_runes [0xE9, 10]) ''crlf'' = text_of_runes [0xE9, 13, 10]"
    by code_simp+
  have "length (text_of_runes [0xE9, 10]) = 3" "length (text_of_runes [65, 0]) = 2" "length (text_of_runes [0xE9, 13, 10]) = 4"
    by code_simp+
  then have l: "length (text_of_runes [0xE9, 10]) \<le> MaxClipboardSize" "length (text_of_runes [65, 0]) \<le> MaxClipboardSize"
    "length (ConvertLE (text_of_runes [0xE9, 10]) ''crlf'') \<le> MaxClipboardSize"
    by (simp_all add: t(3) del: text_of_runes_simps)
  have "\<exists>c'. Copy win_writeAll (NewClipboard ''crlf'') (text_of_runes [0xE9, 10]) example_clipboard = (None, c') \<and>
      Paste (fst \<circ> win_readAll) c' = (text_of_runes [0xE9, 13, 10], None)"
    using windows_copy_paste [OF r, of "[0xE9, 10]" "''crlf''"] t l by (auto simp del: text_of_runes_simps MaxClipboardSize_val)
  moreover have "crashed (snd (Copy win_writeAll (NewClipboard []) (text_of_runes [65, 0]) example_clipboard))"
    using windows_copy_paste [OF r, of "[65, 0]" "[]"] t l by (auto simp del: text_of_runes_simps MaxClipboardSize_val)
  ultimately show ?thesis by blast
qed

section \<open>What the opener is started with\<close>

text \<open>
  The command that opens a target ends in the target as one argument, and since a target starts with a
  letter it is not taken for an option of the program.
\<close>

lemma URI_Open_command:
  assumes "open \<in> {unix_open, darwin_open, windows_open dll}"
  shows "(\<exists>e. URI_Open (open_Run open Run) uri w = (Some e, w)) \<or>
     (\<exists>prog target. URI_Open (open_Run open Run) uri w = Run (prog @ [target]) w \<and> safe_target target \<and> hd target \<noteq> CHR ''-'')"
proof (cases "ParseOpenURI uri")
  case (Inr u)
  let ?t = "normalizeOpenURI u uri"
  have safe: "safe_target ?t" by (rule ParseOpenURI_safe [OF Inr])
  then obtain sch r where "?t = sch @ CHR '':'' # r" "length sch \<ge> 2" "is_alpha (hd sch)" by (auto simp: safe_target_def)
  then have "is_alpha (hd ?t)" by (cases sch) auto
  then have "hd ?t \<noteq> CHR ''-''" by (auto simp: is_alpha_def)
  moreover have "\<exists>prog. open ?t = prog @ [?t]"
    using assms by (auto simp: unix_open_def darwin_open_def windows_open_def)
  ultimately show ?thesis using safe Inr by (auto simp: URI_Open_def open_Run_def)
qed (auto simp: URI_Open_def)

end
