(* ===== verification/SingleInstance.thy ===== *)
theory SingleInstance
  imports GoStrings
begin

text \<open>
  The lock file of the tray application: \<^verbatim>\<open>CreateLockFile\<close> of
  \<^verbatim>\<open>github.com/allan-simon/go-singleinstance\<close> on Windows and what \<^verbatim>\<open>main\<close> of \<^verbatim>\<open>cmd/gui/main_gui.go\<close> does
  with the file when it ends. Several processes may be at it at the same time, so every call of the
  operating system is a step of its own.
\<close>

section \<open>The file and the processes\<close>

text \<open>
  The lock file: its text if it exists, and the processes that have it open. Go opens files without
  the right to delete them being shared, so that a file that is open cannot be removed. A process
  that ends, in whatever way, no longer has it open.
\<close>

datatype phase =
    Starting
  | Found                          \<comment> \<open>the file exists, it is about to be removed\<close>
  | Missing                        \<comment> \<open>the file is about to be created\<close>
  | Created                        \<comment> \<open>the identifier is about to be written\<close>
  | Running
  | Closed                         \<comment> \<open>the file is closed and about to be removed\<close>
  | Failed goerr
  | Ended

record lock_file =
  lock_text :: "gostring option"
  lock_open :: "nat set"
  phase :: "nat \<Rightarrow> phase"

definition ERROR_FILE_EXISTS :: goerr where "ERROR_FILE_EXISTS = OsErr ''The file exists.''"
definition ERROR_SHARING_VIOLATION :: goerr where
  "ERROR_SHARING_VIOLATION = OsErr ''The process cannot access the file because it is being used by another process.''"
definition ERROR_NO_FILE :: goerr where "ERROR_NO_FILE = OsErr ''The system cannot find the file specified.''"

definition set_phase :: "nat \<Rightarrow> phase \<Rightarrow> lock_file \<Rightarrow> lock_file" where
  "set_phase p ph l = l\<lparr>phase := (phase l)(p := ph)\<rparr>"

section \<open>The calls of CreateLockFile\<close>

text \<open>Each gets the error the call may fail with for a reason of its own.\<close>

definition lock_Stat :: "goerr option \<Rightarrow> nat \<Rightarrow> lock_file \<Rightarrow> lock_file" where
  "lock_Stat fault p l =
     (case fault of
        Some err \<Rightarrow> set_phase p (Failed err) l
      | None \<Rightarrow> set_phase p (if lock_text l = None then Missing else Found) l)"

definition os_Remove :: "lock_file \<Rightarrow> goerr option \<times> lock_file" where
  "os_Remove l =
     (if lock_text l = None then (Some ERROR_NO_FILE, l)
      else if lock_open l \<noteq> {} then (Some ERROR_SHARING_VIOLATION, l)
      else (None, l\<lparr>lock_text := None\<rparr>))"

definition lock_Remove :: "nat \<Rightarrow> lock_file \<Rightarrow> lock_file" where
  "lock_Remove p l =
     (case os_Remove l of
        (Some err, l') \<Rightarrow> set_phase p (Failed err) l'
      | (None, l') \<Rightarrow> set_phase p Missing l')"

definition lock_OpenFile :: "goerr option \<Rightarrow> nat \<Rightarrow> lock_file \<Rightarrow> lock_file" where
  "lock_OpenFile fault p l =
     (case fault of
        Some err \<Rightarrow> set_phase p (Failed err) l
      | None \<Rightarrow>
          if lock_text l \<noteq> None then set_phase p (Failed ERROR_FILE_EXISTS) l
          else set_phase p Created (l\<lparr>lock_text := Some [], lock_open := insert p (lock_open l)\<rparr>))"

text \<open>A write that fails leaves the file open.\<close>

definition lock_WriteString :: "goerr option \<Rightarrow> nat \<Rightarrow> lock_file \<Rightarrow> lock_file" where
  "lock_WriteString fault p l =
     (case fault of
        Some err \<Rightarrow> set_phase p (Failed err) l
      | None \<Rightarrow> set_phase p Running (l\<lparr>lock_text := Some (Itoa (int p))\<rparr>))"

text \<open>The whole function, for a process that is not disturbed: the error it returns, if any.\<close>

definition CreateLockFile :: "nat \<Rightarrow> lock_file \<Rightarrow> goerr option \<times> lock_file" where
  "CreateLockFile p l =
     (let l1 = lock_Stat None p l;
          l2 = (if phase l1 p = Found then lock_Remove p l1 else l1);
          l3 = (if phase l2 p = Missing then lock_OpenFile None p l2 else l2);
          l4 = (if phase l3 p = Created then lock_WriteString None p l3 else l3)
      in ((case phase l4 p of Failed err \<Rightarrow> Some err | _ \<Rightarrow> None), l4))"

section \<open>The end of the process\<close>

text \<open>\<^verbatim>\<open>main\<close> closes the file and removes it, ignoring the errors; a process may also just end.\<close>

definition inst_Close :: "nat \<Rightarrow> lock_file \<Rightarrow> lock_file" where
  "inst_Close p l = set_phase p Closed (l\<lparr>lock_open := lock_open l - {p}\<rparr>)"

definition main_Remove :: "nat \<Rightarrow> lock_file \<Rightarrow> lock_file" where
  "main_Remove p l = set_phase p Ended (snd (os_Remove l))"

definition process_end :: "nat \<Rightarrow> lock_file \<Rightarrow> lock_file" where
  "process_end p l = set_phase p Ended (l\<lparr>lock_open := lock_open l - {p}\<rparr>)"

inductive lock_step :: "lock_file \<Rightarrow> lock_file \<Rightarrow> bool" where
  Stat: "phase l p = Starting \<Longrightarrow> lock_step l (lock_Stat fault p l)"
| Remove: "phase l p = Found \<Longrightarrow> lock_step l (lock_Remove p l)"
| OpenFile: "phase l p = Missing \<Longrightarrow> lock_step l (lock_OpenFile fault p l)"
| WriteString: "phase l p = Created \<Longrightarrow> lock_step l (lock_WriteString fault p l)"
| Close: "phase l p = Running \<Longrightarrow> lock_step l (inst_Close p l)"
| RemoveAtExit: "phase l p = Closed \<Longrightarrow> lock_step l (main_Remove p l)"
| End: "lock_step l (process_end p l)"

section \<open>Properties\<close>

text \<open>Who has the file open is alone, and a process that got past the creation has it open.\<close>

definition lock_inv :: "lock_file \<Rightarrow> bool" where
  "lock_inv l \<longleftrightarrow> (\<forall>p \<in> lock_open l. lock_open l = {p} \<and> lock_text l \<noteq> None) \<and>
     (\<forall>p. phase l p = Created \<or> phase l p = Running \<longrightarrow> p \<in> lock_open l)"

lemmas lock_defs = lock_Stat_def lock_Remove_def os_Remove_def lock_OpenFile_def lock_WriteString_def inst_Close_def
  main_Remove_def process_end_def set_phase_def

lemma lock_inv_step: "lock_step l l' \<Longrightarrow> lock_inv l \<Longrightarrow> lock_inv l'"
  by (induction rule: lock_step.induct) (auto simp: lock_inv_def lock_defs split: option.split if_splits)

interpretation lock: step_invariant lock_step lock_inv
  by unfold_locales (rule lock_inv_step)

text \<open>
  C10. One instance: whatever the order in which any number of processes go through \<^verbatim>\<open>CreateLockFile\<close>, run,
  close and remove the file, fail or are killed, from a state in which nobody has the lock file
  open, there is never more than one that got past \<^verbatim>\<open>CreateLockFile\<close>, and while there is one
  the file exists.
\<close>

theorem at_most_one_instance:
  assumes "\<forall>p. phase l p = Starting" and "lock_open l = {}" and "lock_step\<^sup>*\<^sup>* l l'"
    and "phase l' p = Running" and "phase l' q = Running"
  shows "p = q \<and> lock_text l' \<noteq> None"
proof -
  have "lock_inv l" using assms(1,2) by (simp add: lock_inv_def)
  from lock.reachable [OF assms(3) this] assms(4,5) show ?thesis by (auto simp: lock_inv_def)
qed

text \<open>
  A process that is not disturbed gets the lock exactly when nobody has the file open; a file left
  behind by a process that was killed is no obstacle.
\<close>

lemma CreateLockFile_outcome:
  assumes "lock_text l = None \<Longrightarrow> lock_open l = {}"
  shows "fst (CreateLockFile p l) = None \<longleftrightarrow> lock_open l = {}"
    and "fst (CreateLockFile p l) = None \<Longrightarrow> lock_text (snd (CreateLockFile p l)) = Some (Itoa (int p)) \<and> phase (snd (CreateLockFile p l)) p = Running"
  using assms by (cases "lock_text l"; cases "lock_open l = {}"; simp add: CreateLockFile_def lock_defs Let_def)+

definition no_lock :: lock_file where
  "no_lock = \<lparr>lock_text = Some ''77'', lock_open = {}, phase = (\<lambda>p. Starting)\<rparr>"

text \<open>Two processes find the file of one that was killed; one of them gets the lock.\<close>

theorem at_most_one_instance_witness:
  "\<exists>l'. lock_step\<^sup>*\<^sup>* no_lock l' \<and> phase l' 1 = Running \<and> (\<forall>q. phase l' q = Running \<longrightarrow> 1 = q) \<and> phase l' 2 = Failed ERROR_SHARING_VIOLATION"
proof -
  let ?l1 = "lock_Stat None 1 no_lock" let ?l2 = "lock_Stat None 2 ?l1" let ?l3 = "lock_Remove 1 ?l2"
  let ?l4 = "lock_OpenFile None 1 ?l3" let ?l5 = "lock_WriteString None 1 ?l4" let ?l6 = "lock_Remove 2 ?l5"
  note ph = lock_defs no_lock_def
  have steps: "lock_step no_lock ?l1" "lock_step ?l1 ?l2" by (rule lock_step.Stat, simp add: ph)+
  have steps': "lock_step ?l2 ?l3" "lock_step ?l5 ?l6" by (rule lock_step.Remove, simp add: ph)+
  have create: "lock_step ?l3 ?l4" by (rule lock_step.OpenFile) (simp add: ph)
  have wrote: "lock_step ?l4 ?l5" by (rule lock_step.WriteString) (simp add: ph)
  have reach: "lock_step\<^sup>*\<^sup>* no_lock ?l6"
    by (rule converse_rtranclp_into_rtranclp [of lock_step, OF steps(1)], rule converse_rtranclp_into_rtranclp [of lock_step, OF steps(2)],
        rule converse_rtranclp_into_rtranclp [of lock_step, OF steps'(1)], rule converse_rtranclp_into_rtranclp [of lock_step, OF create],
        rule converse_rtranclp_into_rtranclp [of lock_step, OF wrote], rule r_into_rtranclp [of lock_step, OF steps'(2)])
  have last: "phase ?l6 1 = Running" "phase ?l6 2 = Failed ERROR_SHARING_VIOLATION" by (simp_all add: ph)
  have "1 = q" if "phase ?l6 q = Running" for q
    using at_most_one_instance [OF _ _ reach last(1) that] by (simp add: no_lock_def)
  with reach last show ?thesis by blast
qed

end
