(* ===== verification/ServerSystem.thy ===== *)
theory ServerSystem
  imports Server "HOL-Library.Multiset"
begin

text \<open>
  A running server as a whole: the accept loop of \<^verbatim>\<open>Serve\<close>, the connections on which \<^verbatim>\<open>rpc.ServeConn\<close>
  reads requests one after the other and performs each in a goroutine of its own, the word that
  tells whether the session is locked, and the tunnels, in any interleaving. What is performed came
  in a signed frame, one call for a frame; the clipboard and the desktop change by performed calls
  only.
\<close>

section \<open>The system\<close>

text \<open>What \<^verbatim>\<open>Serve\<close> is started with and what it uses of its environment.\<close>

record ('c, 'd) server_env =
  se_verify :: "bytes \<Rightarrow> bytes \<Rightarrow> bytes \<Rightarrow> bool"
  se_decode :: "bytes \<Rightarrow> rpc_call option"
  se_keys :: "bytes \<rightharpoonup> bytes"
  se_magic :: bytes
  se_timeout :: int
  se_le :: gostring
  se_WriteAll :: "gostring \<Rightarrow> 'c \<Rightarrow> goerr option \<times> 'c"
  se_ReadAll :: "'c \<Rightarrow> gostring \<times> goerr option"
  se_open :: "gostring \<Rightarrow> 'd \<Rightarrow> goerr option \<times> 'd"
  se_opener :: "gostring \<Rightarrow> goerr option"

text \<open>
  The server: its host, the lock word (\<open>None\<close> for a nil pointer), whether it still accepts, the
  connections by the number of their goroutine, the calls that were read and are not yet performed.
  The other fields are history: what each connection delivers, the frames that were accepted with
  the call each carried, and the calls that were performed with their replies.
\<close>

record ('c, 'd) server =
  srv_host :: "('c, 'd) host"
  srv_lock :: "int option"
  listening :: bool
  conns :: "nat \<rightharpoonup> secConn"
  pending :: "(nat \<times> rpc_call) list"
  inputs :: "nat \<rightharpoonup> stream"
  received :: "(nat \<times> bytes \<times> rpc_call) list"
  performed :: "(nat \<times> rpc_call \<times> rpc_reply res) list"

definition srv_accept ::
    "('c, 'd) server_env \<Rightarrow> nat \<Rightarrow> stream \<Rightarrow> sink \<Rightarrow> ('c, 'd) server \<Rightarrow> ('c, 'd) server" where
  "srv_accept env i inp out s =
     (case Serve_connection (se_opener env) (se_keys env) (se_magic env) (srv_lock s) (se_timeout env) inp out (tun (srv_host s)) of
        (None, t) \<Rightarrow> s\<lparr>srv_host := (srv_host s)\<lparr>tun := t\<rparr>\<rparr>
      | (Some sc, t) \<Rightarrow>
          s\<lparr>srv_host := (srv_host s)\<lparr>tun := t\<rparr>, conns := (conns s)(i \<mapsto> sc), inputs := (inputs s)(i \<mapsto> inp)\<rparr>)"

text \<open>
  One turn of the reading loop: the lock word is read through its pointer, so it is the present one.
  On an error, or on a message that is no call, the loop ends and the connection is closed. As in
  \<open>serve_request\<close>, a request is one that fits the codec's buffer; \<open>fits_buffer\<close> says so.
\<close>

definition fits_buffer :: "('c, 'd) server_env \<Rightarrow> int \<Rightarrow> nat \<Rightarrow> ('c, 'd) server \<Rightarrow> bool" where
  "fits_buffer env time i s =
     (case conns s i of
        None \<Rightarrow> True
      | Some sc \<Rightarrow> fst (snd (fst (secConn_Read (se_verify env) time (sc\<lparr>locked := srv_lock s\<rparr>) rpcBufferSize))) \<le> rpcBufferSize)"

definition srv_read :: "('c, 'd) server_env \<Rightarrow> int \<Rightarrow> nat \<Rightarrow> ('c, 'd) server \<Rightarrow> ('c, 'd) server" where
  "srv_read env time i s =
     (case conns s i of
        None \<Rightarrow> s
      | Some sc \<Rightarrow>
          (case secConn_Read (se_verify env) time (sc\<lparr>locked := srv_lock s\<rparr>) rpcBufferSize of
             ((buf, n, None), sc') \<Rightarrow>
               (case (se_decode env buf, fst (ReadFrame (br sc))) of
                  (Some call, Inr raw) \<Rightarrow>
                    s\<lparr>conns := (conns s)(i \<mapsto> sc'), pending := pending s @ [(i, call)], received := received s @ [(i, raw, call)]\<rparr>
                | _ \<Rightarrow> s\<lparr>conns := (conns s)(i := None)\<rparr>)
           | ((buf, n, Some err), sc') \<Rightarrow> s\<lparr>conns := (conns s)(i := None)\<rparr>))"

text \<open>The goroutine of a call; \<open>newID\<close> is the random identifier it draws if it opens a tunnel.\<close>

definition srv_perform ::
    "('c, 'd) server_env \<Rightarrow> gostring res \<Rightarrow> (nat \<times> rpc_call) list \<Rightarrow> nat \<times> rpc_call \<Rightarrow> (nat \<times> rpc_call) list \<Rightarrow>
     ('c, 'd) server \<Rightarrow> ('c, 'd) server" where
  "srv_perform env newID before ic after s =
     (case dispatch (se_WriteAll env) (se_ReadAll env) (se_open env) (se_le env) newID (snd ic) (srv_host s) of
        (reply, h) \<Rightarrow> s\<lparr>srv_host := h, pending := before @ after, performed := performed s @ [(fst ic, snd ic, reply)]\<rparr>)"

text \<open>
  The steps, in any order; \<open>Tunnels\<close> is a step of the goroutines and timers of the tunnels. The
  identifier a call draws is taken to be one never used before.
\<close>

inductive server_step :: "('c, 'd) server_env \<Rightarrow> ('c, 'd) server \<Rightarrow> ('c, 'd) server \<Rightarrow> bool" for env where
  Accept: "listening s \<Longrightarrow> inputs s i = None \<Longrightarrow> server_step env s (srv_accept env i inp out s)"
| Read: "fits_buffer env time i s \<Longrightarrow> server_step env s (srv_read env time i s)"
| Perform: "pending s = before @ ic # after \<Longrightarrow>
    \<forall>sid p x. newID = Inr sid \<longrightarrow> sess (tun (srv_host s)) p = Some x \<longrightarrow> sess_id x \<noteq> sid \<Longrightarrow>
    server_step env s (srv_perform env newID before ic after s)"
| Lock: "srv_lock s \<noteq> None \<Longrightarrow> server_step env s (s\<lparr>srv_lock := Some w\<rparr>)"
| Tunnels: "task_step (tun (srv_host s)) t \<Longrightarrow> server_step env s (s\<lparr>srv_host := (srv_host s)\<lparr>tun := t\<rparr>\<rparr>)"
| Cancel: "server_step env s (s\<lparr>listening := False\<rparr>)"

definition server_start :: "'c \<Rightarrow> 'd \<Rightarrow> netstate \<Rightarrow> int \<Rightarrow> int option \<Rightarrow> ('c, 'd) server" where
  "server_start c d ns time lock =
     \<lparr>srv_host = \<lparr>clip = c, desk = d, tun = NewTunnel ns time\<rparr>, srv_lock = lock, listening = True, conns = Map.empty,
      pending = [], inputs = Map.empty, received = [], performed = []\<rparr>"

section \<open>The abstract server\<close>

text \<open>What a call means for the clipboard and for the desktop.\<close>

definition clip_effect :: "('c, 'd) server_env \<Rightarrow> rpc_call \<Rightarrow> 'c \<Rightarrow> 'c" where
  "clip_effect env call c = (case call of CallCopy text \<Rightarrow> snd (Copy (se_WriteAll env) (NewClipboard (se_le env)) text c) | _ \<Rightarrow> c)"

definition desk_effect :: "('c, 'd) server_env \<Rightarrow> rpc_call \<Rightarrow> 'd \<Rightarrow> 'd" where
  "desk_effect env call d = (case call of CallOpen uri \<Rightarrow> snd (URI_Open (se_open env) uri d) | _ \<Rightarrow> d)"

lemma dispatch_effect:
  "clip (snd (dispatch (se_WriteAll env) (se_ReadAll env) (se_open env) (se_le env) newID call h)) = clip_effect env call (clip h)"
  "desk (snd (dispatch (se_WriteAll env) (se_ReadAll env) (se_open env) (se_le env) newID call h)) = desk_effect env call (desk h)"
  by (simp_all add: dispatch_def clip_effect_def desk_effect_def case_prod_beta split: rpc_call.split option.split sum.split)

text \<open>The frames of one connection.\<close>

definition frames_of :: "nat \<Rightarrow> (nat \<times> bytes \<times> rpc_call) list \<Rightarrow> bytes list" where
  "frames_of i rs = map (fst \<circ> snd) (filter (\<lambda>r. fst r = i) rs)"

lemma frames_of_simps [simp]:
  "frames_of i [] = []" "frames_of i (rs @ [(j, raw, call)]) = frames_of i rs @ (if i = j then [raw] else [])"
  by (auto simp: frames_of_def)

text \<open>
  The invariant: every accepted frame is a signed request for its call, each is waiting or performed,
  the connection has delivered the frames in this order, and the host is what the performed calls
  made of it.
\<close>

definition carries :: "('c, 'd) server_env \<Rightarrow> bytes \<Rightarrow> rpc_call \<Rightarrow> bool" where
  "carries env raw call \<longleftrightarrow>
     (\<exists>msg. signed_request (se_verify env) (se_keys env) (se_magic env) raw msg \<and> se_decode env msg = Some call)"

definition frames_ok :: "('c, 'd) server_env \<Rightarrow> ('c, 'd) server \<Rightarrow> bool" where
  "frames_ok env s \<longleftrightarrow> (\<forall>(i, raw, call) \<in> set (received s). carries env raw call \<and> inputs s i \<noteq> None)"

definition calls_ok :: "('c, 'd) server \<Rightarrow> bool" where
  "calls_ok s \<longleftrightarrow> mset (map (\<lambda>(i, call, reply). (i, call)) (performed s)) + mset (pending s) =
     mset (map (\<lambda>(i, raw, call). (i, call)) (received s))"

definition wire_ok :: "('c, 'd) server_env \<Rightarrow> ('c, 'd) server \<Rightarrow> bool" where
  "wire_ok env s \<longleftrightarrow>
     (\<forall>i inp. inputs s i = Some inp \<longrightarrow> prefix (concat (map frame_bytes (frames_of i (received s)))) (avail inp)) \<and>
     (\<forall>i sc. conns s i = Some sc \<longrightarrow> pkeys sc = se_keys env \<and> magic sc = se_magic env \<and>
        (\<exists>inp. inputs s i = Some inp \<and> avail inp = concat (map frame_bytes (frames_of i (received s))) @ avail (br sc)))"

definition host_ok :: "('c, 'd) server_env \<Rightarrow> 'c \<Rightarrow> 'd \<Rightarrow> ('c, 'd) server \<Rightarrow> bool" where
  "host_ok env c d s \<longleftrightarrow>
     clip (srv_host s) = fold (\<lambda>(i, call, reply). clip_effect env call) (performed s) c \<and>
     desk (srv_host s) = fold (\<lambda>(i, call, reply). desk_effect env call) (performed s) d"

text \<open>The addresses the tunnels open a browser with are those that were answered to performed calls.\<close>

definition answered :: "('c, 'd) server \<Rightarrow> gostring \<Rightarrow> bool" where
  "answered s u \<longleftrightarrow> (\<exists>i req resp. (i, CallTunnelOpen req, Inr (ReplyTunnel resp)) \<in> set (performed s) \<and> OpenURL resp = u)"

definition tunnel_ok :: "('c, 'd) server \<Rightarrow> bool" where
  "tunnel_ok s \<longleftrightarrow>
     (\<forall>p u. session_url (tun (srv_host s)) p = Some u \<longrightarrow> answered s u) \<and>
     (\<forall>(p, u) \<in> set (opened (tun (srv_host s))). answered s u)"

definition server_inv :: "('c, 'd) server_env \<Rightarrow> 'c \<Rightarrow> 'd \<Rightarrow> ('c, 'd) server \<Rightarrow> bool" where
  "server_inv env c d s \<longleftrightarrow> frames_ok env s \<and> calls_ok s \<and> wire_ok env s \<and> host_ok env c d s \<and> tunnel_ok s"

lemmas inv_parts = frames_ok_def calls_ok_def wire_ok_def host_ok_def tunnel_ok_def answered_def

section \<open>The invariant is kept\<close>

lemma frames_of_unknown: "frames_ok env s \<Longrightarrow> inputs s i = None \<Longrightarrow> frames_of i (received s) = []"
  by (auto simp: frames_ok_def frames_of_def filter_empty_conv)

text \<open>A new connection has delivered nothing yet, and the tunnel has left its bytes alone.\<close>

lemma srv_accept_cases:
  obtains (handled) t where "srv_accept env i inp out s = s\<lparr>srv_host := (srv_host s)\<lparr>tun := t\<rparr>\<rparr>"
      "t = snd (attach (se_opener env) inp out (tun (srv_host s)))"
  | (rpc) sc where "srv_accept env i inp out s = s\<lparr>conns := (conns s)(i \<mapsto> sc), inputs := (inputs s)(i \<mapsto> inp)\<rparr>"
      "br sc = inp" "pkeys sc = se_keys env" "magic sc = se_magic env"
proof (cases "attach (se_opener env) inp out (tun (srv_host s))")
  case (Pair r t)
  show ?thesis
  proof (cases r)
    case (NotHandled rest)
    then have "rest = inp" "t = tun (srv_host s)" using attach_NotHandled Pair by blast+
    with NotHandled Pair show ?thesis
      by (intro rpc [of "\<lparr>br = inp, conn_out = out, read_deadline = None, write_deadline = None, conn_closed = False,
          pkeys = se_keys env, magic = se_magic env, locked = srv_lock s, ioTimeout = se_timeout env\<rparr>"])
        (simp_all add: srv_accept_def Serve_connection_def)
  qed (use Pair in \<open>auto intro!: handled simp: srv_accept_def Serve_connection_def\<close>)
qed

lemma secConn_Read_frame:
  "pkeys (snd (secConn_Read v time sc n)) = pkeys sc" "magic (snd (secConn_Read v time sc n)) = magic sc"
  "br (snd (secConn_Read v time sc n)) = snd (ReadFrame (br sc))"
  by (auto simp: secConn_Read_def Let_def split: sum.splits prod.splits option.splits)

lemma srv_read_cases:
  obtains (none) "srv_read env time i s = s"
  | (closed) "srv_read env time i s = s\<lparr>conns := (conns s)(i := None)\<rparr>"
  | (call) sc sc' raw call buf n where "conns s i = Some sc" "fst (ReadFrame (br sc)) = Inr raw" "br sc' = snd (ReadFrame (br sc))"
      "fst (secConn_Read (se_verify env) time (sc\<lparr>locked := srv_lock s\<rparr>) rpcBufferSize) = (buf, n, None)"
      "se_decode env buf = Some call" "pkeys sc' = pkeys sc" "magic sc' = magic sc"
      "srv_read env time i s =
         s\<lparr>conns := (conns s)(i \<mapsto> sc'), pending := pending s @ [(i, call)], received := received s @ [(i, raw, call)]\<rparr>"
proof (cases "conns s i")
  case None
  then show ?thesis by (intro none) (simp add: srv_read_def)
next
  case (Some sc)
  let ?sc = "sc\<lparr>locked := srv_lock s\<rparr>"
  obtain buf n e sc' where rd: "secConn_Read (se_verify env) time ?sc rpcBufferSize = ((buf, n, e), sc')" by (metis prod.collapse)
  then have sc': "pkeys sc' = pkeys sc" "magic sc' = magic sc" "br sc' = snd (ReadFrame (br sc))"
    using secConn_Read_frame [of "se_verify env" time ?sc rpcBufferSize] by simp_all
  show ?thesis
  proof (cases "\<exists>call raw. e = None \<and> se_decode env buf = Some call \<and> fst (ReadFrame (br sc)) = Inr raw")
    case True
    then obtain c raw where "e = None" "se_decode env buf = Some c" "fst (ReadFrame (br sc)) = Inr raw" by blast
    with Some rd sc' show ?thesis by (intro call [of sc raw sc' buf n c]) (simp_all add: srv_read_def)
  next
    case False
    with Some rd show ?thesis by (intro closed) (auto simp: srv_read_def split: option.split sum.split)
  qed
qed

lemma server_inv_read:
  assumes "server_inv env c0 d0 s" "6 \<le> length (se_magic env)" "fits_buffer env time i s"
  shows "server_inv env c0 d0 (srv_read env time i s)"
proof (cases rule: srv_read_cases [of env time i s])
  case none
  with assms show ?thesis by simp
next
  case closed
  with assms show ?thesis by (auto simp: server_inv_def inv_parts)
next
  case (call sc sc' raw c buf n)
  let ?sc = "sc\<lparr>locked := srv_lock s\<rparr>"
  have "wire_ok env s" using assms(1) by (simp add: server_inv_def)
  with call(1) obtain inp where w: "pkeys sc = se_keys env" "magic sc = se_magic env" "inputs s i = Some inp"
    "avail inp = concat (map frame_bytes (frames_of i (received s))) @ avail (br sc)"
    unfolding wire_ok_def by blast
  have "6 \<le> length (magic ?sc)" using w(2) assms(2) by simp
  from secConn_Read_ok [OF this, THEN iffD1, OF call(4)] obtain msg where
    "signed_request (se_verify env) (se_keys env) (se_magic env) raw msg" "buf = take rpcBufferSize msg" "n = length msg"
    using call(2) w by auto
  moreover have "n \<le> rpcBufferSize" using assms(3) call(1,4) by (simp add: fits_buffer_def)
  ultimately have carried: "carries env raw c" using call(5) by (auto simp: carries_def)
  have bytes: "avail (br sc) = frame_bytes raw @ avail (br sc')"
    using ReadFrame_InrD(2) [of "br sc" raw "br sc'"] call(2,3) by (metis prod.collapse)
  show ?thesis
    unfolding server_inv_def call(8)
  proof (intro conjI)
    show "frames_ok env (s\<lparr>conns := (conns s)(i \<mapsto> sc'), pending := pending s @ [(i, c)], received := received s @ [(i, raw, c)]\<rparr>)"
      using assms carried w(3) by (auto simp: server_inv_def frames_ok_def)
    show "calls_ok (s\<lparr>conns := (conns s)(i \<mapsto> sc'), pending := pending s @ [(i, c)], received := received s @ [(i, raw, c)]\<rparr>)"
      using assms by (simp add: server_inv_def calls_ok_def)
    show "wire_ok env (s\<lparr>conns := (conns s)(i \<mapsto> sc'), pending := pending s @ [(i, c)], received := received s @ [(i, raw, c)]\<rparr>)"
      using assms w bytes call(6,7) by (auto simp: server_inv_def wire_ok_def)
    show "host_ok env c0 d0 (s\<lparr>conns := (conns s)(i \<mapsto> sc'), pending := pending s @ [(i, c)], received := received s @ [(i, raw, c)]\<rparr>)"
      using assms by (simp add: server_inv_def host_ok_def)
    show "tunnel_ok (s\<lparr>conns := (conns s)(i \<mapsto> sc'), pending := pending s @ [(i, c)], received := received s @ [(i, raw, c)]\<rparr>)"
      using assms by (simp add: server_inv_def tunnel_ok_def answered_def)
  qed
qed

text \<open>A step of the tunnels that keeps the addresses of the sessions and opens none but theirs.\<close>

lemma tunnel_ok_tun:
  assumes "tunnel_ok s" "session_url t = session_url (tun (srv_host s))"
    and "\<And>p u. (p, u) \<in> set (opened t) \<Longrightarrow> (p, u) \<in> set (opened (tun (srv_host s))) \<or> session_url (tun (srv_host s)) p = Some u"
  shows "tunnel_ok (s\<lparr>srv_host := (srv_host s)\<lparr>tun := t\<rparr>\<rparr>)"
proof -
  have "answered s u" if "(p, u) \<in> set (opened t)" for p u
    using assms(1) assms(3) [OF that] unfolding tunnel_ok_def by blast
  with assms(1,2) show ?thesis unfolding tunnel_ok_def answered_def by auto
qed

lemma tunnel_ok_accept:
  assumes "tunnel_ok s"
  shows "tunnel_ok (s\<lparr>srv_host := (srv_host s)\<lparr>tun := snd (attach opener inp out (tun (srv_host s)))\<rparr>\<rparr>)"
proof (intro tunnel_ok_tun [OF assms] session_url_attach)
  fix p u
  assume "(p, u) \<in> set (opened (snd (attach opener inp out (tun (srv_host s)))))"
  with opened_attach [of opener inp out "tun (srv_host s)"] show
    "(p, u) \<in> set (opened (tun (srv_host s))) \<or> session_url (tun (srv_host s)) p = Some u"
    by (cases "opened (snd (attach opener inp out (tun (srv_host s)))) = opened (tun (srv_host s))") (auto simp: session_url_def)
qed

text \<open>Opening a tunnel makes one session, with the address the answer names; a failure makes none.\<close>

lemma Tunnel_Open_url:
  assumes "Tunnel_Open newID req t = (r, t')"
  shows "opened t' = opened t \<and> session_url t' = (case r of Inl err \<Rightarrow> session_url t | Inr resp \<Rightarrow> (session_url t)(next_ptr t \<mapsto> OpenURL resp))"
  using assms by (auto simp: Tunnel_Open_def session_url_def Let_def fun_eq_iff split: sum.splits prod.splits if_splits)

lemma tunnel_ok_perform:
  assumes "tunnel_ok s"
  shows "tunnel_ok (srv_perform env newID before ic after s)"
proof -
  obtain reply h where d: "dispatch (se_WriteAll env) (se_ReadAll env) (se_open env) (se_le env) newID (snd ic) (srv_host s) = (reply, h)"
    by fastforce
  then have p: "srv_perform env newID before ic after s =
      s\<lparr>srv_host := h, pending := before @ after, performed := performed s @ [(fst ic, snd ic, reply)]\<rparr>"
    by (simp add: srv_perform_def)
  show ?thesis
  proof (cases "snd ic")
    case (CallTunnelOpen req)
    obtain r t where o: "Tunnel_Open newID req (tun (srv_host s)) = (r, t)" by fastforce
    with d CallTunnelOpen have "tun h = t" "reply = map_sum id ReplyTunnel r"
      by (auto simp: dispatch_def split: sum.splits)
    with Tunnel_Open_url [OF o] assms p CallTunnelOpen show ?thesis
      by (cases r) (fastforce simp: tunnel_ok_def answered_def split: if_splits)+
  qed (use assms d p in \<open>fastforce simp: tunnel_ok_def answered_def dispatch_def split: prod.splits option.splits\<close>)+
qed

lemma calls_ok_perform: "calls_ok s \<Longrightarrow> pending s = before @ ic # after \<Longrightarrow> calls_ok (srv_perform env newID before ic after s)"
  by (simp add: calls_ok_def srv_perform_def case_prod_beta)

lemma host_ok_perform: "host_ok env c d s \<Longrightarrow> host_ok env c d (srv_perform env newID before ic after s)"
  by (simp add: host_ok_def srv_perform_def case_prod_beta dispatch_effect)

lemma wire_perform:
  "frames_ok env (srv_perform env newID before ic after s) = frames_ok env s" "wire_ok env (srv_perform env newID before ic after s) = wire_ok env s"
  by (simp_all add: frames_ok_def wire_ok_def srv_perform_def case_prod_beta)

lemma server_inv_step:
  assumes "server_step env s s'" "server_inv env c0 d0 s" "6 \<le> length (se_magic env)"
  shows "server_inv env c0 d0 s'"
  using assms(1)
proof cases
  case (Accept i inp out)
  show ?thesis
  proof (cases rule: srv_accept_cases [of env i inp out s])
    case (handled t)
    then have "tunnel_ok s'" using Accept(1) assms(2) by (simp add: server_inv_def tunnel_ok_accept)
    with handled Accept assms(2) show ?thesis by (auto simp: server_inv_def frames_ok_def calls_ok_def wire_ok_def host_ok_def)
  next
    case (rpc sc)
    have "frames_of i (received s) = []"
      using assms(2) Accept(3) by (intro frames_of_unknown [of env]) (simp_all add: server_inv_def)
    with rpc Accept assms(2) show ?thesis by (auto simp: server_inv_def inv_parts)
  qed
next
  case (Perform before ic after newID)
  with assms(2) show ?thesis
    by (simp add: server_inv_def tunnel_ok_perform calls_ok_perform host_ok_perform wire_perform)
next
  case (Read time i)
  with assms(2,3) show ?thesis by (simp add: server_inv_read)
next
  case (Tunnels t)
  then have "tunnel_ok s'"
    using assms(2) by (auto simp: server_inv_def opened_task_step session_url_task_step intro!: tunnel_ok_tun)
  with Tunnels(1) assms(2) show ?thesis by (simp add: server_inv_def frames_ok_def calls_ok_def wire_ok_def host_ok_def)
qed (use assms(2) in \<open>auto simp: server_inv_def inv_parts\<close>)

lemma server_inv_start: "server_inv env c d (server_start c d ns time lock)"
  by (simp add: server_inv_def inv_parts server_start_def NewTunnel_def session_url_def)

interpretation serving: step_invariant "server_step env" "\<lambda>s. 6 \<le> length (se_magic env) \<longrightarrow> server_inv env c d s" for env c d
  by unfold_locales (auto intro: server_inv_step)

lemma server_inv_reachable:
  "(server_step env)\<^sup>*\<^sup>* (server_start c d ns time lock) s \<Longrightarrow> 6 \<le> length (se_magic env) \<Longrightarrow> server_inv env c d s"
  using serving.reachable [of env "server_start c d ns time lock" s c d] by (simp add: server_inv_start)

section \<open>The tunnels of a running server\<close>

text \<open>Seen from the tunnels, a run of the server is a run of theirs, so what holds in all of those holds here.\<close>

lemma server_step_tunnels:
  assumes "server_step env s s'"
  shows "(tstep (se_opener env))\<^sup>*\<^sup>* (tun (srv_host s)) (tun (srv_host s'))"
  using assms
proof cases
  case (Accept i inp out)
  then show ?thesis
    using Attach [of "se_opener env" "tun (srv_host s)" inp out]
    by (cases rule: srv_accept_cases [of env i inp out s]) auto
next
  case (Read time i)
  then show ?thesis
    by (cases rule: srv_read_cases [of env time i s]) auto
next
  case (Perform before ic after newID)
  then have "\<And>req. tstep (se_opener env) (tun (srv_host s)) (snd (Tunnel_Open newID req (tun (srv_host s))))"
    by (intro Open) blast
  then have "\<And>req r t. Tunnel_Open newID req (tun (srv_host s)) = (r, t) \<Longrightarrow> tstep (se_opener env) (tun (srv_host s)) t"
    by (metis snd_conv)
  with Perform(1) show ?thesis
    by (cases "snd ic") (auto simp: srv_perform_def dispatch_def split: prod.split option.split sum.split)
next
  case (Tunnels t)
  then show ?thesis by (auto intro: Task)
qed auto

lemma server_tunnels_reachable:
  "(server_step env)\<^sup>*\<^sup>* (server_start c d ns time lock) s \<Longrightarrow> (tstep (se_opener env))\<^sup>*\<^sup>* (NewTunnel ns time) (tun (srv_host s))"
proof (induction rule: rtranclp_induct)
  case (step x y)
  then show ?case using server_step_tunnels by (meson rtranclp_trans)
qed (simp add: server_start_def)

section \<open>The lock\<close>

lemma locked_receives_nothing:
  assumes "server_step env s s'" "srv_lock s = Some 1"
  shows "received s' = received s"
  using assms(1)
proof cases
  case (Accept i inp out)
  then show ?thesis by (cases rule: srv_accept_cases [of env i inp out s]) simp_all
next
  case (Read time i)
  have "False" if "fst (secConn_Read (se_verify env) time (sc\<lparr>locked := srv_lock s\<rparr>) rpcBufferSize) = (buf, n, None)" for sc buf n
    using that assms(2) by (auto simp: secConn_Read_def Let_def split: sum.splits prod.splits if_splits)
  with Read show ?thesis by (cases rule: srv_read_cases [of env time i s]) auto
qed (simp_all add: srv_perform_def case_prod_beta)

text \<open>
  The lock is a matter of the signed connections only: what becomes of the tunnels when a connection is
  accepted does not depend on it.
\<close>

lemma attach_ignores_lock:
  "tun (srv_host (srv_accept env i inp out s)) = snd (attach (se_opener env) inp out (tun (srv_host s)))"
  by (simp add: srv_accept_def Serve_connection_def split: prod.split attach_result.split)

section \<open>Requests are served\<close>

text \<open>
  From any state in which it accepts and is not locked, the server takes a signed request on a new
  connection and performs its call on the host as it then is. Nothing asks whether the request was
  seen before.
\<close>

lemma request_received:
  assumes s: "listening s" "inputs s i = None" "srv_lock s \<noteq> Some 1"
    and mg: "6 \<le> length (se_magic env)" "hd (se_magic env) \<noteq> tunnelFrameAttach"
    and req: "signed_request (se_verify env) (se_keys env) (se_magic env) raw msg" "length raw \<le> unat MaxFrameSize"
      "se_decode env msg = Some call" "length msg \<le> rpcBufferSize"
  shows "\<exists>sc. (server_step env)\<^sup>*\<^sup>* s (s\<lparr>conns := (conns s)(i \<mapsto> sc), inputs := (inputs s)(i \<mapsto> \<lparr>avail = frame_bytes raw @ rest, fin = e\<rparr>),
           pending := pending s @ [(i, call)], received := received s @ [(i, raw, call)]\<rparr>)"
proof -
  let ?inp = "\<lparr>avail = frame_bytes raw @ rest, fin = e\<rparr>"
  let ?sc = "\<lparr>br = ?inp, conn_out = out, read_deadline = None, write_deadline = None, conn_closed = False,
      pkeys = se_keys env, magic = se_magic env, locked = srv_lock s, ioTimeout = se_timeout env\<rparr>"
  let ?s1 = "srv_accept env i ?inp out s"
  from req(1) obtain tl where raw: "raw = take 6 (se_magic env) @ tl" by (auto simp: signed_request_def)
  have "se_magic env \<noteq> []" using mg(1) by auto
  with raw have "raw \<noteq> []" "hd raw = hd (se_magic env)" by (cases "se_magic env"; simp)+
  with mg(2) req(2) have "attach (se_opener env) ?inp out (tun (srv_host s)) = (NotHandled ?inp, tun (srv_host s))"
    by (intro attach_hands_on [OF refl]) simp_all
  then have s1: "?s1 = s\<lparr>conns := (conns s)(i \<mapsto> ?sc), inputs := (inputs s)(i \<mapsto> ?inp)\<rparr>"
    by (simp add: srv_accept_def Serve_connection_def)
  have fr: "ReadFrame ?inp = (Inr raw, \<lparr>avail = rest, fin = e\<rparr>)"
    using \<open>raw \<noteq> []\<close> req(2) by (intro ReadFrame_frame) simp
  obtain buf n err sc' where rd: "secConn_Read (se_verify env) 0 ?sc rpcBufferSize = ((buf, n, err), sc')" by (metis prod.collapse)
  have "fst (secConn_Read (se_verify env) 0 ?sc rpcBufferSize) = (take rpcBufferSize msg, length msg, None)"
    using fr s(3) req(1) mg(1) by (subst secConn_Read_ok) auto
  with rd req(4) have "buf = msg" "n = length msg" "err = None" by simp_all
  with rd req fr s(3) have step: "fits_buffer env 0 i ?s1"
    "srv_read env 0 i ?s1 = s\<lparr>conns := (conns s)(i \<mapsto> sc'), inputs := (inputs s)(i \<mapsto> ?inp),
       pending := pending s @ [(i, call)], received := received s @ [(i, raw, call)]\<rparr>"
    unfolding s1 by (simp_all add: fits_buffer_def srv_read_def)
  from Accept [where env = env and inp = ?inp and out = out, OF s(1,2)] Read [OF step(1)] show ?thesis
    unfolding step(2) by (intro exI [of _ sc']) (meson rtranclp.rtrancl_refl rtranclp.rtrancl_into_rtrancl)
qed

lemma request_performed:
  assumes "listening s" "inputs s i = None" "srv_lock s \<noteq> Some 1" "pending s = []"
    and "6 \<le> length (se_magic env)" "hd (se_magic env) \<noteq> tunnelFrameAttach"
    and "signed_request (se_verify env) (se_keys env) (se_magic env) raw msg" "length raw \<le> unat MaxFrameSize"
      "se_decode env msg = Some call" "length msg \<le> rpcBufferSize"
    and "\<forall>sid p x. newID = Inr sid \<longrightarrow> sess (tun (srv_host s)) p = Some x \<longrightarrow> sess_id x \<noteq> sid"
    and "dispatch (se_WriteAll env) (se_ReadAll env) (se_open env) (se_le env) newID call (srv_host s) = (reply, h)"
  shows "\<exists>t. (server_step env)\<^sup>*\<^sup>* s t \<and> srv_host t = h \<and> listening t \<and> srv_lock t = srv_lock s \<and> pending t = [] \<and>
     inputs t = (inputs s)(i \<mapsto> \<lparr>avail = frame_bytes raw @ rest, fin = e\<rparr>) \<and>
     received t = received s @ [(i, raw, call)] \<and> performed t = performed s @ [(i, call, reply)]"
proof -
  obtain sc u where r: "(server_step env)\<^sup>*\<^sup>* s u"
    and u: "u = s\<lparr>conns := (conns s)(i \<mapsto> sc), inputs := (inputs s)(i \<mapsto> \<lparr>avail = frame_bytes raw @ rest, fin = e\<rparr>),
      pending := pending s @ [(i, call)], received := received s @ [(i, raw, call)]\<rparr>"
    using request_received [OF assms(1-3,5-10)] by blast
  have "server_step env u (srv_perform env newID [] (i, call) [] u)"
    using assms(4,11) u by (intro Perform) simp_all
  with r have "(server_step env)\<^sup>*\<^sup>* s (srv_perform env newID [] (i, call) [] u)" by (rule rtranclp.rtrancl_into_rtrancl)
  then show ?thesis
    using assms(1,12) u by (intro exI [of _ "srv_perform env newID [] (i, call) [] u"]) (simp add: srv_perform_def)
qed

section \<open>Properties\<close>


text \<open>
  C3. A browser is opened only for a trusted client: in every reachable state of the server, each
  address a tunnel was started with is the one that was answered to a performed \<^verbatim>\<open>Tunnel.Open\<close>
  call, and that call came in a frame signed by a trusted key.
\<close>

theorem browser_opened_for_signed_request:
  assumes "(server_step env)\<^sup>*\<^sup>* (server_start c d ns time lock) s" and "6 \<le> length (se_magic env)"
    and "(p, u) \<in> set (opened (tun (srv_host s)))"
  shows "\<exists>i raw req resp. (i, raw, CallTunnelOpen req) \<in> set (received s) \<and> carries env raw (CallTunnelOpen req) \<and>
     (i, CallTunnelOpen req, Inr (ReplyTunnel resp)) \<in> set (performed s) \<and> OpenURL resp = u"
proof -
  note inv = server_inv_reachable [OF assms(1,2), unfolded server_inv_def]
  have "answered s u" using inv assms(3) unfolding tunnel_ok_def by auto
  then obtain i req resp where q: "(i, CallTunnelOpen req, Inr (ReplyTunnel resp)) \<in> set (performed s)" "OpenURL resp = u"
    unfolding answered_def by blast
  then have "(i, CallTunnelOpen req) \<in># mset (map (\<lambda>(i, call, reply). (i, call)) (performed s)) + mset (pending s)"
    by force
  then have "(i, CallTunnelOpen req) \<in># mset (map (\<lambda>(i, raw, call). (i, call)) (received s))"
    using inv by (simp only: calls_ok_def)
  then obtain raw where "(i, raw, CallTunnelOpen req) \<in> set (received s)" by auto
  with inv q show ?thesis unfolding frames_ok_def by blast
qed

text \<open>A server that trusts one key, and two requests signed with it.\<close>

definition example_env :: "(gostring, unit) server_env" where
  "example_env =
     \<lparr>se_verify = (\<lambda>pk m s. s = replicate 64 3),
      se_decode = (\<lambda>b. if b = [1] then Some (CallCopy ''hi'') else if b = [2] then Some (CallTunnelOpen example_request) else None),
      se_keys = [replicate 32 1 \<mapsto> replicate 32 2], se_magic = [103, 99, 108, 112, 114, 0, 0, 0], se_timeout = 0, se_le = [],
      se_WriteAll = (\<lambda>t c. (None, t)), se_ReadAll = (\<lambda>c. (c, None)), se_open = (\<lambda>u d. (None, d)), se_opener = (\<lambda>u. None)\<rparr>"

definition example_raw :: "bytes \<Rightarrow> bytes" where
  "example_raw msg = [103, 99, 108, 112, 114, 0, 9, 9] @ replicate 32 1 @ replicate 64 3 @ msg"

lemma example_raw_signed:
  assumes "msg \<noteq> []"
  shows "signed_request (se_verify example_env) (se_keys example_env) (se_magic example_env) (example_raw msg) msg"
  unfolding signed_request_def
  by (intro exI [of _ "[9, 9]"] exI [of _ "replicate 32 1"] exI [of _ "replicate 32 2"] exI [of _ "replicate 64 3"])
    (use assms in \<open>simp add: example_env_def example_raw_def Overhead_def\<close>)

lemma example_performed:
  assumes "listening s" "inputs s i = None" "srv_lock s \<noteq> Some 1" "pending s = []" "length msg = 1" "se_decode example_env msg = Some call"
    and "\<forall>sid p x. newID = Inr sid \<longrightarrow> sess (tun (srv_host s)) p = Some x \<longrightarrow> sess_id x \<noteq> sid"
    and "dispatch (se_WriteAll example_env) (se_ReadAll example_env) (se_open example_env) (se_le example_env) newID call (srv_host s) = (reply, h)"
  shows "\<exists>t. (server_step example_env)\<^sup>*\<^sup>* s t \<and> srv_host t = h \<and> listening t \<and> srv_lock t = srv_lock s \<and> pending t = [] \<and>
     inputs t = (inputs s)(i \<mapsto> \<lparr>avail = frame_bytes (example_raw msg) @ [], fin = EOF\<rparr>) \<and>
     received t = received s @ [(i, example_raw msg, call)] \<and> performed t = performed s @ [(i, call, reply)]"
proof -
  have "signed_request (se_verify example_env) (se_keys example_env) (se_magic example_env) (example_raw msg) msg"
    using assms(5) by (intro example_raw_signed) auto
  moreover have "6 \<le> length (se_magic example_env)" "hd (se_magic example_env) \<noteq> tunnelFrameAttach"
    by (simp_all add: example_env_def frame_type_defs)
  moreover have "length (example_raw msg) \<le> unat MaxFrameSize" "length msg \<le> rpcBufferSize"
    using assms(5) by (simp_all add: example_raw_def rpcBufferSize_def)
  ultimately show ?thesis using assms by (intro request_performed) assumption+
qed


text \<open>A tunnel is asked for, and then a connection attaches to it.\<close>

abbreviation example_attach :: stream where
  "example_attach \<equiv> \<lparr>avail = frame_wire (replicate 32 7) \<lparr>frame_type = tunnelFrameAttach, StreamID = 0, Payload = bytes_of ''a1''\<rparr>, fin = EOF\<rparr>"

lemma example_attached: "\<exists>u. opened (snd (attach (\<lambda>u. None) example_attach fresh_sink example_open)) = [(0, u)]"
proof -
  from example_open_session obtain s where s: "sess example_open 0 = Some s" "sessions example_open ''a1'' = Some 0"
      "peer s = None" "sess_macKey s = replicate 32 7" "opened example_open = []" by blast
  have "net_ok example_net" by (simp add: example_net_def net_ok_def)
  then have "\<not> launched s"
    using sess_invD(5) [OF tinvD(3) [OF tinv_reachable [OF example_open_reachable [of "\<lambda>u. None"]] s(1)]] s(3) by simp
  from attach_accepts [OF s(2,1,3) this, of example_attach 0 "[]" "\<lambda>u. None" fresh_sink] s show ?thesis by auto
qed

lemma example_tunnel_opened:
  "\<exists>resp. dispatch (se_WriteAll example_env) (se_ReadAll example_env) (se_open example_env) (se_le example_env) (Inr ''a1'')
     (CallTunnelOpen example_request) \<lparr>clip = [], desk = (), tun = NewTunnel example_net 0\<rparr> =
       (Inr (ReplyTunnel resp), \<lparr>clip = [], desk = (), tun = example_open\<rparr>)"
proof -
  let ?o = "Tunnel_Open (Inr ''a1'') example_request (NewTunnel example_net 0)"
  have "\<not> isl (fst ?o)" by code_simp
  then obtain resp where "?o = (Inr resp, example_open)" unfolding example_open_def using res_Inr by blast
  then show ?thesis by (simp add: dispatch_def)
qed

theorem browser_opened_for_signed_request_witness:
  "\<exists>s u. (server_step example_env)\<^sup>*\<^sup>* (server_start [] () example_net 0 (Some 0)) s \<and> (0, u) \<in> set (opened (tun (srv_host s))) \<and>
     (\<exists>i raw req resp. (i, raw, CallTunnelOpen req) \<in> set (received s) \<and> carries example_env raw (CallTunnelOpen req) \<and>
       (i, CallTunnelOpen req, Inr (ReplyTunnel resp)) \<in> set (performed s) \<and> OpenURL resp = u)"
proof -
  let ?s = "server_start [] () example_net 0 (Some 0)"
  obtain resp where "dispatch (se_WriteAll example_env) (se_ReadAll example_env) (se_open example_env) (se_le example_env) (Inr ''a1'')
      (CallTunnelOpen example_request) (srv_host ?s) = (Inr (ReplyTunnel resp), \<lparr>clip = [], desk = (), tun = example_open\<rparr>)"
    using example_tunnel_opened by (auto simp: server_start_def)
  from example_performed [where s = ?s and i = 0 and msg = "[2]", OF _ _ _ _ _ _ _ this] obtain t where
    t: "(server_step example_env)\<^sup>*\<^sup>* ?s t" "tun (srv_host t) = example_open" "listening t" "inputs t 1 = None"
    by (auto simp: server_start_def example_env_def NewTunnel_def)
  let ?t = "srv_accept example_env 1 example_attach fresh_sink t"
  obtain u where u: "opened (snd (attach (\<lambda>u. None) example_attach fresh_sink example_open)) = [(0, u)]"
    using example_attached by blast
  have opener: "se_opener example_env = (\<lambda>u. None)" by (simp add: example_env_def)
  have r: "(server_step example_env)\<^sup>*\<^sup>* ?s ?t"
    using t(1) Accept [OF t(3,4)] by (rule rtranclp.rtrancl_into_rtrancl)
  have "(0, u) \<in> set (opened (tun (srv_host ?t)))"
    using u t(2) attach_NotHandled(2) [of "\<lambda>u. None" example_attach fresh_sink example_open]
    by (auto simp: srv_accept_def Serve_connection_def opener split: prod.split attach_result.split)
  moreover from browser_opened_for_signed_request [OF r _ this] have
    "\<exists>i raw req resp. (i, raw, CallTunnelOpen req) \<in> set (received ?t) \<and> carries example_env raw (CallTunnelOpen req) \<and>
       (i, CallTunnelOpen req, Inr (ReplyTunnel resp)) \<in> set (performed ?t) \<and> OpenURL resp = u"
    by (simp add: example_env_def)
  ultimately show ?thesis using r by blast
qed

end
