(* ===== verification/Multiplex.thy ===== *)
theory Multiplex
  imports TunnelClient
begin

text \<open>
  Many streams on one connection: the browser connections of all sessions are kept apart. What is
  written to one comes from the data frames of its own stream, on the connection of its own session,
  under the key of that session; no other step of the tunnel writes to a browser. The client keeps
  the connections to its local services apart in the same way.
\<close>

section \<open>What the browsers were sent\<close>

definition browser_got :: "tunnel \<Rightarrow> nat \<Rightarrow> bytes option" where
  "browser_got t q = map_option (\<lambda>st. written (b_out (browser st))) (strm t q)"

abbreviation out_bytes :: "tunnelStream \<Rightarrow> bytes" where
  "out_bytes st \<equiv> written (b_out (browser st))"

lemma stream_ops_out [simp]:
  "out_bytes (stream_close st) = out_bytes st" "out_bytes (stream_closeWrite st) = out_bytes st"
  by (simp_all add: stream_close_def stream_closeWrite_def bconn_Close_def bconn_CloseWrite_def)

lemma browser_got_update_strm:
  "(\<And>st. strm t q = Some st \<Longrightarrow> out_bytes (f st) = out_bytes st) \<Longrightarrow> browser_got (update_strm q f t) = browser_got t"
  by (auto simp: browser_got_def update_strm_def fun_eq_iff option.map_comp intro!: option.map_cong)

lemma browser_got_set: "strm t q = Some st \<Longrightarrow> browser_got (update_strm q f t) = (browser_got t)(q \<mapsto> out_bytes (f st))"
  by (simp add: browser_got_def update_strm_def fun_eq_iff)

lemma browser_got_fields [simp]:
  "browser_got (t\<lparr>tasks := x\<rparr>) = browser_got t" "browser_got (t\<lparr>now := d\<rparr>) = browser_got t"
  "browser_got (t\<lparr>opened := l\<rparr>) = browser_got t" "browser_got (t\<lparr>sessions := m\<rparr>) = browser_got t"
  "browser_got (t\<lparr>net := ns\<rparr>) = browser_got t" "browser_got (t\<lparr>sess := s\<rparr>) = browser_got t"
  "browser_got (t\<lparr>next_ptr := n\<rparr>) = browser_got t" "browser_got (update_sess p g t) = browser_got t"
  by (simp_all add: browser_got_def fun_eq_iff update_sess_def)

lemma close_streams_out:
  "map_option out_bytes (close_streams qs h q) = map_option out_bytes (h q)"
  unfolding close_streams_def
proof (induction qs arbitrary: h)
  case (Cons a qs)
  have "map_option out_bytes ((h(a := map_option stream_close (h a))) q) = map_option out_bytes (h q)"
    by (auto simp: option.map_comp intro!: option.map_cong)
  with Cons show ?case by simp
qed simp

lemma browser_got_simps [simp]:
  "browser_got (touch_sess p t) = browser_got t" "browser_got (closeSession sid t) = browser_got t"
  "browser_got (close_by_id p t) = browser_got t" "browser_got (dropStream p i t) = browser_got t"
  "browser_got (snd (peer_writeFrame p f t)) = browser_got t"
proof -
  have c [simp]: "browser_got (closeSession sid t) = browser_got t" for sid t
    by (auto simp: closeSession_def session_close_def browser_got_def fun_eq_iff close_streams_out split: option.splits)
  show "browser_got (closeSession sid t) = browser_got t" by simp
  show "browser_got (touch_sess p t) = browser_got t" "browser_got (close_by_id p t) = browser_got t"
    "browser_got (dropStream p i t) = browser_got t" "browser_got (snd (peer_writeFrame p f t)) = browser_got t"
    by (simp_all add: touch_sess_def close_by_id_def dropStream_def peer_writeFrame_def browser_got_update_strm split: option.splits prod.splits)
qed

lemma browser_got_peer_writeFrame: "peer_writeFrame p f t = (r, t') \<Longrightarrow> browser_got t' = browser_got t"
  by (metis browser_got_simps(5) snd_conv)

section \<open>The handlers that write to no browser\<close>

lemma browser_got_read:
  assumes "strm t q = Some st" "bconn_Read k (browser st) = (buf, e, c)"
  shows "browser_got (update_strm q (\<lambda>s. s\<lparr>browser := c, loggedOut := True, bytesOut := bytesOut s + n\<rparr>) t) = browser_got t"
  using assms by (intro browser_got_update_strm) (auto simp: bconn_Read_def Let_def split: if_splits)

lemma browser_got_pipe: "browser_got (pipeBrowserToPeer k p q t) = browser_got t"
  by (auto simp: pipeBrowserToPeer_def pipe_end_def Let_def browser_got_update_strm browser_got_read dest!: browser_got_peer_writeFrame
      split: option.splits prod.splits sum.splits)

lemma browser_got_attach: "browser_got (snd (attach opener br conn t)) = browser_got t"
proof -
  have "browser_got (snd (attach_session opener sid p s br conn t)) = browser_got t" for sid p s
    by (simp add: attach_session_def Let_def split: prod.split option.split)
  with attach_cases [of opener br conn t] show ?thesis by auto
qed

lemma browser_got_open: "browser_got (snd (Tunnel_Open newID req t)) = browser_got t"
  by (auto simp: Tunnel_Open_def Let_def split: option.splits prod.splits sum.splits)

text \<open>A new stream is made for a new browser; the others are left alone.\<close>

lemma browser_got_serve:
  assumes "q \<noteq> next_ptr t"
  shows "browser_got (serve_peer_ready p l c t) q = browser_got t q"
proof (cases "sess t p")
  case (Some s)
  have new: "browser_got (t\<lparr>tasks := x, next_ptr := n, strm := (strm t)(next_ptr t \<mapsto> st)\<rparr>) q = browser_got t q" for x n st
    using assms by (simp add: browser_got_def)
  show ?thesis
    using Some
    by (auto simp: serve_peer_ready_def nextID_def Let_def new browser_got_update_strm dest!: browser_got_peer_writeFrame split: option.split prod.split)
qed (simp add: serve_peer_ready_def)

section \<open>The handler that does\<close>

lemma Write_written: "Write p w = (r, w') \<Longrightarrow> \<exists>d. prefix d p \<and> written w' = written w @ d"
  by (auto simp: Write_def take_is_prefix split: if_splits option.splits)

text \<open>A data frame writes to the browser of the stream it names, at most its payload.\<close>

lemma browser_got_handle_data:
  assumes "browser_got (handle_data p f t) q \<noteq> browser_got t q"
  shows "\<exists>st d. getStream p (StreamID f) t = Some q \<and> strm t q = Some st \<and> prefix d (Payload f) \<and>
     browser_got (handle_data p f t) q = Some (out_bytes st @ d)"
proof -
  from assms obtain q' st where g: "getStream p (StreamID f) t = Some q'" "strm t q' = Some st"
    by (auto simp: handle_data_def split: option.splits)
  obtain r w where w: "Write (Payload f) (b_out (browser st)) = (r, w)" by fastforce
  then obtain d where d: "prefix d (Payload f)" "written w = out_bytes st @ d" using Write_written by blast
  have "browser_got (handle_data p f t) = (browser_got t)(q' \<mapsto> out_bytes st @ d)"
    using g w d(2) by (cases r) (simp_all add: handle_data_def bconn_Write_def browser_got_set [OF g(2)])
  with assms g d(1) show ?thesis by (auto split: if_splits)
qed

lemma browser_got_readPeer:
  assumes "browser_got (readPeerFrames p t) q \<noteq> browser_got t q" and "tinv t"
  shows "\<exists>s ep f st d. sess t p = Some s \<and> peer s = Some ep \<and> prefix (frame_wire (sess_macKey s) f) (avail (ep_in ep)) \<and>
     frame_type f = tunnelFrameData \<and> strm t q = Some st \<and> st_session st = p \<and> st_id st = StreamID f \<and>
     prefix d (Payload f) \<and> browser_got (readPeerFrames p t) q = Some (out_bytes st @ d)"
proof -
  from assms(1) obtain s ep where s: "sess t p = Some s" "peer s = Some ep"
    by (auto simp: readPeerFrames_def split: option.splits)
  obtain r ep' where r: "readFrame ep = (r, ep')" by fastforce
  let ?t = "touch_sess p (update_sess p (\<lambda>s. s\<lparr>peer := Some ep'\<rparr>) t)"
  from assms(1) s r obtain f where f: "r = Inr f" "frame_type f = tunnelFrameData"
      "readPeerFrames p t = handle_data p f ?t"
    by (auto simp: readPeerFrames_def read_end_def Let_def browser_got_update_strm split: sum.splits if_splits option.splits)
  have "strm ?t = strm t" "browser_got ?t = browser_got t" by (simp_all add: touch_sess_def update_sess_def)
  from this f(3) assms(1) browser_got_handle_data [of p f ?t q] obtain st d where
    g: "getStream p (StreamID f) ?t = Some q" "strm t q = Some st" "prefix d (Payload f)"
      "browser_got (readPeerFrames p t) q = Some (out_bytes st @ d)" by auto
  note I = tinvD(3) [OF assms(2) s(1)]
  have "(StreamID f, q) \<in> set (streams s)"
    using g(1) s by (auto simp: getStream_def touch_sess_def touch_def update_sess_def dest!: map_of_SomeD split: option.splits if_splits)
  from sess_invD(8) [OF I this] g(2) have id: "st_id st = StreamID f" "st_session st = p" by auto
  have "macKey ep = sess_macKey s" using sess_invD(3) [OF I s(2)] by (simp add: ep_ok_def)
  then have "prefix (frame_wire (sess_macKey s) f) (avail (ep_in ep))"
    using readFrame_InrD(2) [OF r [unfolded f(1)]] by simp
  with s f(2) g(2-4) id show ?thesis by blast
qed

section \<open>What the local services were sent\<close>

definition service_got :: "tunnelClient \<Rightarrow> nat \<Rightarrow> bytes option" where
  "service_got c q = map_option (\<lambda>st. written (b_out (ls_conn st))) (lstrm c q)"

abbreviation sent_bytes :: "tunnelLocalStream \<Rightarrow> bytes" where
  "sent_bytes st \<equiv> written (b_out (ls_conn st))"

lemma ls_ops_sent [simp]:
  "sent_bytes (ls_close st) = sent_bytes st" "sent_bytes (ls_closeWrite st) = sent_bytes st" "sent_bytes (detect_oauth st) = sent_bytes st"
  by (simp_all add: ls_close_def ls_closeWrite_def detect_oauth_def bconn_Close_def bconn_CloseWrite_def)

lemma service_got_set: "lstrm c q = Some st \<Longrightarrow> service_got (update_lstrm q f c) = (service_got c)(q \<mapsto> sent_bytes (f st))"
  by (simp add: service_got_def update_lstrm_def fun_eq_iff)

lemma service_got_update:
  "(\<And>st. lstrm c q = Some st \<Longrightarrow> sent_bytes (f st) = sent_bytes st) \<Longrightarrow> service_got (update_lstrm q f c) = service_got c"
  by (auto simp: service_got_def update_lstrm_def fun_eq_iff option.map_comp intro!: option.map_cong)

lemma service_got_fields [simp]:
  "service_got (c\<lparr>endpoint := ep\<rparr>) = service_got c" "service_got (c\<lparr>cl_streams := x\<rparr>) = service_got c"
  "service_got (c\<lparr>cl_closed := b\<rparr>) = service_got c" "service_got (c\<lparr>pipes := y\<rparr>) = service_got c"
  "service_got (c\<lparr>dialed := d\<rparr>) = service_got c" "service_got (finish c) = service_got c"
  by (simp_all add: service_got_def fun_eq_iff finish_def)

lemma service_got_simps [simp]:
  "service_got (update_lstrm q ls_close c) = service_got c" "service_got (update_lstrm q ls_closeWrite c) = service_got c"
  "service_got (update_lstrm q detect_oauth c) = service_got c" "service_got (cl_dropStream i c) = service_got c"
  "service_got (snd (cl_writeFrame f c)) = service_got c" "service_got (cl_pipe_end q i c) = service_got c"
  by (simp_all add: service_got_update cl_dropStream_def cl_writeFrame_def cl_pipe_end_def split: option.split prod.split)

lemma service_got_writeFrame: "cl_writeFrame f c = (r, c') \<Longrightarrow> service_got c' = service_got c"
  by (metis service_got_simps(5) snd_conv)

lemma service_got_closeAll: "service_got (closeAll c) = service_got c"
proof -
  have "service_got (foldl (\<lambda>c q. update_lstrm q ls_close c) c qs) = service_got c" for qs
    by (induction qs arbitrary: c) simp_all
  then show ?thesis by (simp add: closeAll_def)
qed

lemma service_got_pipe: "service_got (pipeLocalToRemote k q c) = service_got c"
proof -
  have "service_got (update_lstrm q (\<lambda>s. s\<lparr>ls_conn := b, ls_loggedOut := True, ls_bytesOut := ls_bytesOut s + n\<rparr>) c) = service_got c"
    if "lstrm c q = Some st" "bconn_Read k (ls_conn st) = (buf, e, b)" for st buf e b n k
    using that by (intro service_got_update) (auto simp: bconn_Read_def Let_def split: if_splits)
  then show ?thesis
    by (auto simp: pipeLocalToRemote_def Let_def dest!: service_got_writeFrame split: option.splits prod.splits)
qed

lemma service_got_open:
  assumes "q \<noteq> cl_next c"
  shows "service_got (cl_handle_open dial i a c) q = service_got c q"
  using assms
  by (auto simp: cl_handle_open_def openStream_def Let_def service_got_def cl_writeFrame_def split: prod.split option.split sum.splits)

lemma service_got_handle_data:
  assumes "service_got (cl_handle_data f c) q \<noteq> service_got c q"
  shows "\<exists>st d. cl_getStream (StreamID f) c = Some q \<and> lstrm c q = Some st \<and> prefix d (Payload f) \<and>
     service_got (cl_handle_data f c) q = Some (sent_bytes st @ d)"
proof -
  from assms obtain q' st where g: "cl_getStream (StreamID f) c = Some q'" "lstrm c q' = Some st"
    by (auto simp: cl_handle_data_def split: option.splits)
  obtain r w where w: "Write (Payload f) (b_out (ls_conn st)) = (r, w)" by fastforce
  then obtain d where d: "prefix d (Payload f)" "written w = sent_bytes st @ d" using Write_written by blast
  have "service_got (cl_handle_data f c) = (service_got c)(q' \<mapsto> sent_bytes st @ d)"
    using g w d(2) by (cases r) (simp_all add: cl_handle_data_def bconn_Write_def service_got_set [OF g(2)])
  with assms g d(1) show ?thesis by (auto split: if_splits)
qed

lemma service_got_readFrames:
  assumes "service_got (snd (readFrames dial c)) q \<noteq> service_got c q" and "q \<noteq> cl_next c" and "cinv c"
  shows "\<exists>f st d. prefix (frame_wire (macKey (endpoint c)) f) (avail (ep_in (endpoint c))) \<and> frame_type f = tunnelFrameData \<and>
     lstrm c q = Some st \<and> ls_id st = StreamID f \<and> prefix d (Payload f) \<and>
     service_got (snd (readFrames dial c)) q = Some (sent_bytes st @ d)"
proof -
  obtain r ep where r: "readFrame (endpoint c) = (r, ep)" by fastforce
  let ?c = "c\<lparr>endpoint := ep\<rparr>"
  have "service_got (cl_handle_open dial i a ?c) q = service_got c q" for i a
    using service_got_open [of q ?c] assms(2) by simp
  with assms(1) r obtain f where f: "r = Inr f" "frame_type f = tunnelFrameData" "snd (readFrames dial c) = cl_handle_data f ?c"
    by (auto simp: readFrames_def cli_endpoint_same cl_return_def Let_def split: sum.splits if_splits option.splits)
  with assms(1) service_got_handle_data [of f ?c q] obtain st d where
    g: "cl_getStream (StreamID f) c = Some q" "lstrm c q = Some st" "prefix d (Payload f)"
      "service_got (snd (readFrames dial c)) q = Some (sent_bytes st @ d)"
    by (auto simp: cl_getStream_def)
  then have "ls_id st = StreamID f"
    using cinvD(3) [OF assms(3), of "StreamID f" q] by (auto simp: cl_getStream_def dest: map_of_SomeD)
  moreover have "prefix (frame_wire (macKey (endpoint c)) f) (avail (ep_in (endpoint c)))"
    using readFrame_InrD(2) [OF r [unfolded f(1)]] by simp
  ultimately show ?thesis using f(2) g(2-4) by blast
qed

section \<open>Properties\<close>

text \<open>
  C15. The streams are kept apart: along every run from a state that satisfies the invariant of the
  sessions, as the start of the server does, the only step after which a browser has been sent more
  is a turn of the reader of its own session. What it was sent is then extended by the payload of a
  data frame, or by the part of it that was written before an error; the frame is the next one on
  the connection of that session, it carries a valid MAC under the key of that session, and it names
  the stream of this browser.
\<close>

theorem browser_gets_own_stream:
  assumes "tinv t\<^sub>0" and "(tstep opener)\<^sup>*\<^sup>* t\<^sub>0 t" and "tstep opener t t'"
    and "browser_got t q = Some got" and "browser_got t' q \<noteq> Some got"
  shows "\<exists>p s ep f st d. t' = readPeerFrames p t \<and> sess t p = Some s \<and> peer s = Some ep \<and>
     prefix (frame_wire (sess_macKey s) f) (avail (ep_in ep)) \<and> frame_type f = tunnelFrameData \<and>
     strm t q = Some st \<and> st_session st = p \<and> st_id st = StreamID f \<and>
     prefix d (Payload f) \<and> browser_got t' q = Some (got @ d)"
proof -
  have I: "tinv t" using sessions.reachable [OF assms(2,1)] .
  have ne: "browser_got t' q \<noteq> browser_got t q" using assms(4,5) by simp
  have "q \<noteq> next_ptr t" using assms(4) tinvD(4) [OF I] by (auto simp: browser_got_def)
  with ne have "\<exists>p. t' = readPeerFrames p t"
    using assms(3)
    by (auto elim!: tstep.cases task_step.cases simp: browser_got_open browser_got_attach browser_got_pipe browser_got_serve
        serve_accept_def serve_accept_failed_def serve_session_closed_def attach_timeout_def idle_timeout_def)
  then obtain p where p: "t' = readPeerFrames p t" ..
  from browser_got_readPeer [OF ne [unfolded p] I] obtain s ep f st d where
    r: "sess t p = Some s" "peer s = Some ep" "prefix (frame_wire (sess_macKey s) f) (avail (ep_in ep))" "frame_type f = tunnelFrameData"
      "strm t q = Some st" "st_session st = p" "st_id st = StreamID f" "prefix d (Payload f)"
      "browser_got (readPeerFrames p t) q = Some (out_bytes st @ d)" by blast
  moreover have "got = out_bytes st" using r(5) assms(4) by (simp add: browser_got_def)
  ultimately show ?thesis using p by blast
qed

text \<open>A session with two streams, and a data frame for one of them.\<close>

definition example_frame :: tunnelFrame where
  "example_frame = \<lparr>frame_type = tunnelFrameData, StreamID = 2, Payload = [7, 8]\<rparr>"

definition example_browser :: bconn where
  "example_browser = \<lparr>b_in = \<lparr>avail = [], fin = EOF\<rparr>, b_out = \<lparr>written = [], room = None, werr = EOF, dead = False\<rparr>, b_closed = False\<rparr>"

definition example_session :: tunnelSession where
  "example_session = (new_session 0 ''a1'' empty_url [] [] example_request)
     \<lparr>peer := Some (newTunnelEndpoint \<lparr>avail = frame_wire (replicate 32 7) example_frame, fin = EOF\<rparr>
         \<lparr>written = [], room = None, werr = EOF, dead = False\<rparr> (replicate 32 7)),
       peerReady := True, launched := True, streams := [(2, 2), (1, 1)]\<rparr>"

definition example_streams :: tunnel where
  "example_streams = (NewTunnel example_net 0)
     \<lparr>sess := [0 \<mapsto> example_session], sessions := [''a1'' \<mapsto> 0], next_ptr := 3, opened := [(0, openURL example_session)],
      strm := [1 \<mapsto> newTunnelStream 0 1 example_browser, 2 \<mapsto> newTunnelStream 0 2 example_browser], tasks := {ReadingPeer 0}\<rparr>"

lemma example_streams_inv: "tinv example_streams"
proof -
  have "net_ok example_net" by (simp add: example_net_def net_ok_def)
  then show ?thesis
    by (intro tinvI sess_invI)
      (auto simp: example_streams_def NewTunnel_def example_session_def example_request_def newTunnelEndpoint_def newTunnelStream_def
        ep_ok_def st_ok_def split: if_splits)
qed

lemma example_streams_read:
  "browser_got (readPeerFrames 0 example_streams) = [1 \<mapsto> [], 2 \<mapsto> [7, 8]]"
proof -
  let ?ep = "newTunnelEndpoint \<lparr>avail = frame_wire (replicate 32 7) example_frame, fin = EOF\<rparr>
      \<lparr>written = [], room = None, werr = EOF, dead = False\<rparr> (replicate 32 7)"
  have s: "sess example_streams 0 = Some example_session" "peer example_session = Some ?ep"
    by (simp_all add: example_streams_def example_session_def)
  have "readFrame ?ep = (Inr example_frame, ?ep\<lparr>ep_in := (ep_in ?ep)\<lparr>avail := []\<rparr>\<rparr>)"
    by (rule readFrame_wire) (simp_all add: example_frame_def newTunnelEndpoint_def)
  with s have "\<exists>ep. readPeerFrames 0 example_streams =
      handle_data 0 example_frame (touch_sess 0 (update_sess 0 (\<lambda>s. s\<lparr>peer := Some ep\<rparr>) example_streams))"
    by (auto simp: readPeerFrames_def example_frame_def frame_type_defs Let_def)
  then obtain ep where "readPeerFrames 0 example_streams =
      handle_data 0 example_frame (touch_sess 0 (update_sess 0 (\<lambda>s. s\<lparr>peer := Some ep\<rparr>) example_streams))" ..
  then show ?thesis
    by (auto simp: handle_data_def getStream_def touch_sess_def touch_def update_sess_def update_strm_def browser_got_def
        example_streams_def example_session_def example_frame_def newTunnelStream_def example_browser_def bconn_Write_def Write_def
        NewTunnel_def fun_eq_iff)
qed

theorem browser_gets_own_stream_witness:
  "\<exists>p s ep f st d. readPeerFrames 0 example_streams = readPeerFrames p example_streams \<and>
     sess example_streams p = Some s \<and> peer s = Some ep \<and> prefix (frame_wire (sess_macKey s) f) (avail (ep_in ep)) \<and>
     frame_type f = tunnelFrameData \<and> strm example_streams 2 = Some st \<and> st_session st = p \<and> st_id st = StreamID f \<and>
     prefix d (Payload f) \<and> d = [7, 8]"
proof -
  have step: "tstep (\<lambda>u. None) example_streams (readPeerFrames 0 example_streams)"
    by (intro Task ReadPeer) (simp add: example_streams_def)
  have "browser_got example_streams 2 = Some []"
    by (simp add: browser_got_def example_streams_def newTunnelStream_def example_browser_def)
  from browser_gets_own_stream [OF example_streams_inv rtranclp.rtrancl_refl step this] show ?thesis
    unfolding example_streams_read by auto
qed

text \<open>
  C16. The client keeps its services apart too: along every run of a client, the only step after which a
  local service has been sent more is a turn of the reader, and only when the next frame on the tunnel
  connection is a data frame with a valid MAC that names the stream of this service. What the service
  was sent is then extended by the payload, or by the part of it that was written before an error.
\<close>

theorem service_gets_own_stream:
  assumes "cstep\<^sup>*\<^sup>* (newTunnelClient ep) c" and "cstep c c'"
    and "service_got c q = Some got" and "service_got c' q \<noteq> Some got"
  shows "\<exists>f st d. prefix (frame_wire (macKey (endpoint c)) f) (avail (ep_in (endpoint c))) \<and> frame_type f = tunnelFrameData \<and>
     lstrm c q = Some st \<and> ls_id st = StreamID f \<and> prefix d (Payload f) \<and> service_got c' q = Some (got @ d)"
proof -
  have I: "cinv c" using cinv_reachable [OF assms(1)] .
  have ne: "service_got c' q \<noteq> service_got c q" using assms(3,4) by simp
  have q: "q \<noteq> cl_next c" using assms(3) cinvD(1) [OF I] by (auto simp: service_got_def)
  have "service_got (snd (keepAlive c)) = service_got c"
    by (auto simp: keepAlive_def dest: service_got_writeFrame split: option.split prod.split)
  with ne assms(2) obtain dial where c': "c' = snd (readFrames dial c)"
    by (auto elim!: cstep.cases simp: service_got_pipe client_cleanup_def service_got_closeAll service_got_update Let_def)
  have "got = sent_bytes st" if "lstrm c q = Some st" for st using that assms(3) by (simp add: service_got_def)
  with service_got_readFrames [OF ne [unfolded c'] q I] show ?thesis unfolding c' by blast
qed

theorem service_gets_own_stream_witness:
  "\<exists>f d. prefix (frame_wire [1] f) (frame_wire [1] \<lparr>frame_type = tunnelFrameData, StreamID = 1, Payload = example_callback\<rparr>) \<and>
     StreamID f = 1 \<and> prefix d (Payload f) \<and> d = example_callback"
proof -
  let ?dial = "\<lambda>a. Inr example_conn :: bconn res"
  let ?w = "frame_wire [1] \<lparr>frame_type = tunnelFrameData, StreamID = 1, Payload = example_callback\<rparr>"
  define c\<^sub>0 c where "c\<^sub>0 = example_worker (frame_wire [1] example_open_frame @ ?w)" and "c = snd (readFrames ?dial c\<^sub>0)"
  have dial: "\<forall>a conn. ?dial a = Inr conn \<longrightarrow> written (b_out conn) = [] \<and> \<not> b_closed conn" by (auto simp: example_conn_def)
  have "cstep c\<^sub>0 c"
    unfolding c_def by (rule cstep.Read [OF _ dial]) (simp add: c\<^sub>0_def example_worker_def newTunnelClient_def)
  then have r: "cstep\<^sup>*\<^sup>* (newTunnelClient (endpoint c\<^sub>0)) c"
    unfolding c\<^sub>0_def by (auto simp: example_worker_def newTunnelClient_def)
  note c = c_def [unfolded c\<^sub>0_def example_opened]
  have step: "cstep c (snd (readFrames ?dial c))"
    by (rule cstep.Read [OF _ dial]) (simp add: c example_worker_def newTunnelClient_def)
  have "service_got c 0 = Some []" "service_got (snd (readFrames ?dial c)) 0 = Some example_callback"
    unfolding c example_requested by (simp_all add: service_got_def newTunnelLocalStream_def example_conn_def)
  moreover have "example_callback \<noteq> []" using example_callback_looks(2) by auto
  ultimately show ?thesis
    using service_gets_own_stream [OF r step, of 0 "[]"]
    by (auto simp: c example_worker_def newTunnelClient_def newTunnelEndpoint_def newTunnelLocalStream_def)
qed

end
