(* ===== verification/Spec2Isabelle.thy ===== *)
theory Spec2Isabelle
  imports TunnelLink Cli FilesWindows TrayWindow Log Usage Gui Desktop SingleInstance ServerSystem Multiplex
begin

text \<open>
  A model of gclpr, a bridge that lets a remote shell use the clipboard and the browser of
  the machine its user sits at.

  The program. A client signs every request with its Ed25519 key and sends it, length
  prefixed, over a TCP connection to localhost; the server checks the signature against a
  file of trusted keys and performs the request: copy, paste, open a URL, or open a tunnel.
  A tunnel session makes the server listen on loopback ports of its own machine; when the
  client attaches a second connection, authenticated by an HMAC key it chose, the server
  opens the browser, and every browser connection to such a port becomes a stream of frames
  that the client forwards to a service on its side.

  The theories, bottom up.
  \<^item> \<^verbatim>\<open>Prelude\<close>: bytes, error values, readers and writers, big-endian integers; the locale
    \<^verbatim>\<open>step_invariant\<close>, what the steps of a transition system keep, interpreted on every one of them.
  \<^item> \<^verbatim>\<open>GoStrings\<close>, \<^verbatim>\<open>GoUtf16\<close>, \<^verbatim>\<open>GoNet\<close>, \<^verbatim>\<open>GoUrl\<close>, \<^verbatim>\<open>GoHash\<close>, \<^verbatim>\<open>GoFiles\<close>, \<^verbatim>\<open>GoJson\<close>: what the
    code uses of Go's standard library, written from its documented behaviour: strings and hex,
    UTF-8 and UTF-16, addresses, \<^verbatim>\<open>net/url\<close>, SHA-256, HMAC, SHA-1 and MD5, files with modes and
    owners, JSON.
  \<^item> \<^verbatim>\<open>Frame\<close> (\<^verbatim>\<open>util/frame.go\<close>): length-prefixed frames; the locale \<^verbatim>\<open>message_codec\<close> is the
    contract of a self-delimiting codec, interpreted here and for tunnel frames.
  \<^item> \<^verbatim>\<open>Clipboard\<close> (\<^verbatim>\<open>server/clipboard.go\<close>, \<^verbatim>\<open>server/helpers.go\<close>): copy, paste, line endings.
  \<^item> \<^verbatim>\<open>Uri\<close> (\<^verbatim>\<open>server/uri.go\<close>): which URIs reach the operating system's opener.
  \<^item> \<^verbatim>\<open>Desktop\<close> (the vendored clipboard and opener packages): the programs used on unix, the Windows
    clipboard with every call able to fail, the command that opens an address. The locale
    \<^verbatim>\<open>system_clipboard\<close> is what copy and paste need of a clipboard, interpreted on the one of Windows:
    which texts come back unchanged, and which do not.
  \<^item> \<^verbatim>\<open>SecConn\<close> (\<^verbatim>\<open>server/server.go\<close>, \<^verbatim>\<open>cmd/cli/main_cli.go\<close>): both ends of the signed
    connection; the locale \<^verbatim>\<open>key_store\<close> is what they need of the trusted keys, interpreted
    in \<^verbatim>\<open>Keys\<close> on the parser of the trusted file.
  \<^item> \<^verbatim>\<open>Keys\<close> (\<^verbatim>\<open>util/keys.go\<close>, \<^verbatim>\<open>util/files_unix.go\<close>): key files, trusted keys, keygrips.
  \<^item> \<^verbatim>\<open>TunnelFrame\<close> (\<^verbatim>\<open>server/tunnel_transport.go\<close>, \<^verbatim>\<open>cmd/cli/tunnel_client.go\<close>): frames with
    a MAC, at both ends.
  \<^item> \<^verbatim>\<open>Tunnel\<close> (\<^verbatim>\<open>server/tunnel.go\<close>): \<^verbatim>\<open>Tunnel.Open\<close>, listeners, URL rewriting, sessions and
    their timers; the locale \<^verbatim>\<open>tcp_stack\<close> is the contract of listening sockets.
  \<^item> \<^verbatim>\<open>TunnelTransport\<close> (\<^verbatim>\<open>server/tunnel_transport.go\<close>, \<^verbatim>\<open>attach\<close> of \<^verbatim>\<open>server/server.go\<close>): the
    goroutines of a session as the steps of a transition system, its invariant, and what
    holds in every reachable state.
  \<^item> \<^verbatim>\<open>TunnelClient\<close> (\<^verbatim>\<open>cmd/cli/tunnel_client.go\<close>): the client of a tunnel as a transition
    system of its own, with its invariant, when it dials, and that it returns.
  \<^item> \<^verbatim>\<open>TunnelLink\<close>: both ends together. The locales \<^verbatim>\<open>data_source\<close> and \<^verbatim>\<open>data_sink\<close> are the
    contracts of a copier that frames what it reads and of a reader that writes what the frames
    carry, \<^verbatim>\<open>tunnel_link\<close> joins a source to a sink; they are interpreted on the four copiers of
    the code, so that a tunnel is shown to be a byte pipe in both directions.
  \<^item> \<^verbatim>\<open>Multiplex\<close>: the many streams of a tunnel are kept apart, at both ends: a browser or a service is
    sent only what authenticated frames of its own stream carry.
  \<^item> \<^verbatim>\<open>Targets\<close> (\<^verbatim>\<open>cmd/cli/tunnel_targets.go\<close>, \<^verbatim>\<open>cmd/cli/oauth_targets.go\<close>): the targets the
    client asks for are ones the server accepts.
  \<^item> \<^verbatim>\<open>Server\<close> (\<^verbatim>\<open>Serve\<close> of \<^verbatim>\<open>server/server.go\<close>): listening, what becomes of a connection, which
    service a call reaches; nothing reaches one without a trusted signature.
  \<^item> \<^verbatim>\<open>ServerSystem\<close>: the running server as a transition system of its connections, the calls being
    performed, the lock and the tunnels. What is performed was signed, each request is performed at
    most once, clipboard and desktop change by performed calls only, and a browser is opened only
    with an address answered to a signed request; seen from the tunnels, a run of the server is a run
    of \<^verbatim>\<open>TunnelTransport\<close>.
  \<^item> \<^verbatim>\<open>GoFlag\<close>, \<^verbatim>\<open>CommandLine\<close> (\<^verbatim>\<open>getCommand\<close> and \<^verbatim>\<open>processCommandLine\<close> of
    \<^verbatim>\<open>cmd/cli/main_cli.go\<close>): flags, durations and their texts, commands, aliases and arguments.
  \<^item> \<^verbatim>\<open>Worker\<close> (\<^verbatim>\<open>cmd/cli/oauth_worker.go\<close>): the detached process that keeps a tunnel, the command and the
    attributes it is started with (\<^verbatim>\<open>cmd/cli/oauth_detach_unix.go\<close> and its Windows counterpart), and
    how it reports.
  \<^item> \<^verbatim>\<open>Cli\<close> (\<^verbatim>\<open>doRPC\<close> and \<^verbatim>\<open>run\<close> of \<^verbatim>\<open>cmd/cli/main_cli.go\<close>): the commands and exit codes, and whole
    runs of the program against the modelled server.
  \<^item> \<^verbatim>\<open>Usage\<close> (\<^verbatim>\<open>main\<close> of \<^verbatim>\<open>cmd/cli/main_cli.go\<close>): the registered flags and the help text, which shows
    what the parser of \<^verbatim>\<open>CommandLine\<close> accepts.
  \<^item> \<^verbatim>\<open>Log\<close> (\<^verbatim>\<open>util/log_windows.go\<close>, \<^verbatim>\<open>util/log_unix.go\<close>, \<^verbatim>\<open>util/mbox_windows.go\<close>): where the log goes
    and what a message box shows.
  \<^item> \<^verbatim>\<open>FilesWindows\<close> (\<^verbatim>\<open>util/files_windows.go\<close>): the permission check of key files on Windows.
  \<^item> \<^verbatim>\<open>Systray\<close> (\<^verbatim>\<open>systray/systray.go\<close>, \<^verbatim>\<open>systray/systray_windows.go\<close>): the tray's state, the objects of
    Win32 it uses, any call of which may fail, and the menus, which show the visible items in order.
  \<^item> \<^verbatim>\<open>TrayWindow\<close> (\<^verbatim>\<open>systray/systray_windows.go\<close>): the window class, the window and its procedure, the
    icon and tooltip in the notification area, icons of items, the message loop and \<^verbatim>\<open>Run\<close>. The
    handles the tray holds are typed, and every operation keeps them so; the loop ends when it is
    asked to; what a failed start leaves behind; the text the shell reads from a tooltip.
  \<^item> \<^verbatim>\<open>Gui\<close> (\<^verbatim>\<open>cmd/gui/main_gui.go\<close>, \<^verbatim>\<open>cmd/gui/session_windows.go\<close>): the tray application; a locked
    session serves nothing, a click on \<^verbatim>\<open>Exit\<close> stops the server and the message loop, and the menu
    depends on when the ready callback runs.
  \<^item> \<^verbatim>\<open>SingleInstance\<close> (the vendored package and the end of \<^verbatim>\<open>main\<close> in \<^verbatim>\<open>cmd/gui/main_gui.go\<close>): the lock
    file that lets one tray application run, with the calls of any number of processes interleaved.

  How the code is modelled. A connection is what can still be read from it (with the error
  after it) and what was written to it (with the room left before it fails). Shared objects
  (sessions, streams) live in a store by address, as the code shares them by pointer; each
  goroutine is a task, and one step of a task is one handler of the code up to its next
  blocking call. Time is a natural number; a timer is a deadline. Errors are values. Ed25519,
  the random session identifiers, the running of programs, and the
  generated magic are parameters (so are the clipboard and the opener where it does not matter which
  one it is), with the documented facts the proofs need as hypotheses. Win32 is
  a table of live objects by handle, with the contents of menus, the icons of the notification
  area and the message queue beside it; a function says for each call, in their order, whether it
  fails, so that a statement about all such functions covers every pattern of failures.

  Fuel. The JSON reader takes twice the length of its text, and one, as fuel, which is shown to
  be enough; the read loop of the client is run for one turn more than there are frames. All
  other recursions have a measure.

  Not modelled: the single log lines of the server and the tunnel (where a log goes is), mutexes (a
  step is atomic), the wire format of \<^verbatim>\<open>net/rpc\<close> (a call is a value, its encoding a parameter, and a
  request fits the codec's buffer of 4096 bytes), what the system does with the attributes of a new
  process, and, of the tray, the tables of DLL procedures, the locking of the
  thread, a second \<^verbatim>\<open>WM_CREATE\<close>, which would close the ready channel twice, and the use of the
  package before \<^verbatim>\<open>Run\<close>, when its maps are nil.
\<close>

end
